theory Spec2Isabelle
  imports Complex_Main
begin

section \<open>Data model: the two tables of \<^verbatim>\<open>setup-db-v2.py\<close>\<close>

text \<open>
  The schema is embedded as it is declared. A \<^verbatim>\<open>UUID\<close> is a 128-bit number, ordered as
  PostgreSQL orders it; a \<^verbatim>\<open>TIMESTAMPTZ\<close> is a point in time in seconds since the epoch;
  \<^verbatim>\<open>FLOAT\<close> columns are read as real numbers: the rounding of IEEE doubles is outside
  the model, their range is modelled where the program calls the exponential function;
  \<^verbatim>\<open>INTEGER\<close> is a 32-bit integer whose overflow is an error, as in PostgreSQL. The \<^verbatim>\<open>vector(1536)\<close> type belongs to the pgvector
  extension and stays a type parameter \<open>'v\<close>. Columns that the code never writes
  \<^verbatim>\<open>NULL\<close> into are not optional here.
\<close>

type_synonym uuid = nat
type_synonym timestamptz = real
type_synonym date = int

record 'v memory =
  mem_id :: uuid
  agent_id :: string
  content :: string
  embedding :: 'v
  memory_type :: string
  topics :: "string list"
  created_at :: timestamptz
  event_date :: "date option"
  expires_at :: "date option"
  importance :: real
  stability :: real
  last_accessed :: timestamptz
  access_count :: int
  source_channel :: "string option"
  source_session :: "string option"
  is_summary :: bool
  summarizes :: "uuid list"
  is_deleted :: bool

record link =
  source_id :: uuid
  target_id :: uuid
  strength :: real
  link_type :: string
  link_created_at :: timestamptz
  updated_at :: timestamptz

text \<open>
  A table is the list of its rows in physical order; a query without \<^verbatim>\<open>ORDER BY\<close>
  returns them in that order, and a sort keeps that order among equal keys
  (SQL leaves both unspecified).
\<close>

record 'v db =
  memories :: "'v memory list"
  memory_links :: "link list"

text \<open>
  The errors PostgreSQL raises for the statements of this program
  (\<^verbatim>\<open>NumericValueOutOfRange\<close> is \<^verbatim>\<open>SQLSTATE 22003\<close>), and the \<^verbatim>\<open>OverflowError\<close> of
  Python's \<^verbatim>\<open>math\<close> module.
\<close>

datatype error =
    UniqueViolation
  | CheckViolation
  | ForeignKeyViolation
  | StringDataRightTruncation
  | NumericValueOutOfRange
  | InvalidRowCountInLimit
  | OverflowError

text \<open>
  The collaborators outside the repository: the embedding provider and the language
  model behind \<^verbatim>\<open>get_embedding\<close>, \<^verbatim>\<open>score_importance\<close>, \<^verbatim>\<open>extract_topics\<close> and
  \<^verbatim>\<open>summarize_memories\<close>, and pgvector's cosine distance operator \<^verbatim>\<open><=>\<close>.
\<close>

record 'v ports =
  get_embedding :: "string \<Rightarrow> 'v"
  cosine_distance :: "'v \<Rightarrow> 'v \<Rightarrow> real"
  llm_score :: "string \<Rightarrow> real option"
  llm_topics :: "string \<Rightarrow> string list"
  llm_summary :: "(string \<times> timestamptz) list \<Rightarrow> string"

section \<open>Retention\<close>

text \<open>
  The range of an IEEE double: a real number of magnitude \<^verbatim>\<open>2^1024 - 2^970\<close> or more
  rounds to an infinity, a non-zero real number of magnitude at most \<^verbatim>\<open>2^-1075\<close> (half
  the least positive double) rounds to zero.
\<close>

definition float8_overflows :: "real \<Rightarrow> bool" where
  "float8_overflows x = (2 ^ 1024 - 2 ^ 970 \<le> \<bar>x\<bar>)"

definition float8_underflows :: "real \<Rightarrow> bool" where
  "float8_underflows x = (x \<noteq> 0 \<and> \<bar>x\<bar> \<le> 1 / 2 ^ 1075)"

text \<open>
  \<^verbatim>\<open>EXP\<close> of PostgreSQL on a \<^verbatim>\<open>FLOAT\<close>: it raises \<^verbatim>\<open>value out of range: overflow\<close> when the
  result is infinite and \<^verbatim>\<open>value out of range: underflow\<close> when the result is zero, both
  with \<^verbatim>\<open>SQLSTATE 22003\<close>.
\<close>

definition EXP_sql :: "real \<Rightarrow> error + real" where
  "EXP_sql x =
     (if float8_overflows (exp x) \<or> float8_underflows (exp x) then Inl NumericValueOutOfRange
      else Inr (exp x))"

text \<open>
  \<^verbatim>\<open>math.exp\<close> of Python: it raises \<^verbatim>\<open>OverflowError\<close> when the result is infinite, and
  returns 0.0 when the result underflows.
\<close>

definition math_exp :: "real \<Rightarrow> error + real" where
  "math_exp x =
     (if float8_overflows (exp x) then Inl OverflowError
      else Inr (if float8_underflows (exp x) then 0 else exp x))"

text \<open>
  \<^verbatim>\<open>calculate_retention\<close> of \<^verbatim>\<open>setup-db-v2.py\<close> (PL/pgSQL); \<open>now\<close> is \<^verbatim>\<open>NOW()\<close>, the
  start time of the running transaction. An error of \<^verbatim>\<open>EXP\<close> leaves the function before
  \<^verbatim>\<open>GREATEST\<close> and \<^verbatim>\<open>LEAST\<close> are applied.
\<close>

definition calculate_retention :: "timestamptz \<Rightarrow> real \<Rightarrow> real \<Rightarrow> timestamptz \<Rightarrow> error + real" where
  "calculate_retention now p_stability p_importance p_last_accessed =
     (let days_elapsed = (now - p_last_accessed) / 86400;
          importance_boost = 1 + (p_importance * 2);
          decay_constant = p_stability * importance_boost * 30;
          decay_constant = (if decay_constant < 1 then 1 else decay_constant)
      in case EXP_sql (- days_elapsed / decay_constant) of
           Inl e \<Rightarrow> Inl e
         | Inr x \<Rightarrow> Inr (max 0 (min 1 x)))"

text \<open>
  \<^verbatim>\<open>calculate_retention\<close> of \<^verbatim>\<open>memory-utils.py\<close> (Python); \<open>now\<close> is
  \<^verbatim>\<open>datetime.now(last_accessed.tzinfo)\<close>.
\<close>

definition calculate_retention_py :: "timestamptz \<Rightarrow> real \<Rightarrow> real \<Rightarrow> timestamptz \<Rightarrow> error + real" where
  "calculate_retention_py now stability_arg importance_arg last_accessed_arg =
     (let days_elapsed = (now - last_accessed_arg) / 86400;
          importance_boost = 1.0 + (importance_arg * 2.0);
          decay_constant = stability_arg * importance_boost * 30.0;
          decay_constant = (if decay_constant < 1 then 1 else decay_constant)
      in case math_exp (- days_elapsed / decay_constant) of
           Inl e \<Rightarrow> Inl e
         | Inr x \<Rightarrow> Inr (max 0 (min 1 x)))"

text \<open>
  A select list or a condition that calls a function on every row of a list: the
  statement fails as a whole with the first error.
\<close>

fun eval_rows :: "('r \<Rightarrow> error + 'a) \<Rightarrow> 'r list \<Rightarrow> error + ('r \<times> 'a) list" where
  "eval_rows f [] = Inr []"
| "eval_rows f (r # rs) =
     (case f r of
        Inl e \<Rightarrow> Inl e
      | Inr a \<Rightarrow> (case eval_rows f rs of Inl e \<Rightarrow> Inl e | Inr rest \<Rightarrow> Inr ((r, a) # rest)))"

section \<open>Reinforcement\<close>

text \<open>
  \<^verbatim>\<open>LEAST(a, b)\<close> where \<open>b\<close> may be \<^verbatim>\<open>NULL\<close>: PostgreSQL ignores \<^verbatim>\<open>NULL\<close> arguments.
\<close>

definition LEAST_sql :: "real \<Rightarrow> real option \<Rightarrow> real" where
  "LEAST_sql a b = (case b of None \<Rightarrow> a | Some x \<Rightarrow> min a x)"

text \<open>
  An \<^verbatim>\<open>UPDATE ... WHERE\<close>: every row that satisfies the condition is replaced; the
  statement fails as a whole when one new row is refused.
\<close>

fun update_rows :: "('r \<Rightarrow> bool) \<Rightarrow> ('r \<Rightarrow> error + 'r) \<Rightarrow> 'r list \<Rightarrow> error + 'r list" where
  "update_rows P f [] = Inr []"
| "update_rows P f (r # rs) =
     (case (if P r then f r else Inr r) of
        Inl e \<Rightarrow> Inl e
      | Inr r' \<Rightarrow> (case update_rows P f rs of Inl e \<Rightarrow> Inl e | Inr rs' \<Rightarrow> Inr (r' # rs')))"

text \<open>
  The \<^verbatim>\<open>SET\<close> clause of \<^verbatim>\<open>reinforce_memory\<close> on one row, with the range of
  \<^verbatim>\<open>INTEGER\<close> and the \<^verbatim>\<open>CHECK (stability BETWEEN 0 AND 1)\<close> of the table.
\<close>

definition reinforce_set :: "timestamptz \<Rightarrow> real \<Rightarrow> 'v memory \<Rightarrow> error + 'v memory" where
  "reinforce_set now new_stability m =
     (if access_count m + 1 > 2147483647 then Inl NumericValueOutOfRange
      else if \<not> (0 \<le> new_stability \<and> new_stability \<le> 1) then Inl CheckViolation
      else Inr (m\<lparr>last_accessed := now,
                   access_count := access_count m + 1,
                   stability := new_stability\<rparr>))"

text \<open>
  \<^verbatim>\<open>reinforce_memory(p_memory_id)\<close>. \<^verbatim>\<open>SELECT ... INTO\<close> leaves both variables
  \<^verbatim>\<open>NULL\<close> when no row has the id.
\<close>

definition reinforce_memory :: "timestamptz \<Rightarrow> uuid \<Rightarrow> 'v memory list \<Rightarrow> error + 'v memory list" where
  "reinforce_memory now p_memory_id ms =
     (let selected = find (\<lambda>m. mem_id m = p_memory_id) ms;
          current_stability = map_option stability selected;
          days_since_access = map_option (\<lambda>m. (now - last_accessed m) / 86400) selected;
          spacing_bonus = LEAST_sql 2 (map_option (\<lambda>d. d / 7) days_since_access);
          new_stability = LEAST_sql 1 (map_option (\<lambda>s. s + 0.1 * spacing_bonus) current_stability)
      in update_rows (\<lambda>m. mem_id m = p_memory_id) (reinforce_set now new_stability) ms)"

section \<open>Write path\<close>

text \<open>The keyword arguments of \<^verbatim>\<open>store_memory\<close> and their defaults.\<close>

record store_args =
  arg_agent_id :: string
  arg_content :: string
  arg_memory_type :: string
  arg_importance :: "real option"
  arg_topics :: "string list option"
  arg_event_date :: "date option"
  arg_expires_at :: "date option"
  arg_source_channel :: "string option"
  arg_source_session :: "string option"
  skip_dedup :: bool
  dedup_threshold :: real
  auto_score_importance :: bool
  auto_extract_topics :: bool

definition store_defaults :: "string \<Rightarrow> string \<Rightarrow> store_args" where
  "store_defaults agent text =
     \<lparr>arg_agent_id = agent, arg_content = text, arg_memory_type = ''episodic'',
      arg_importance = None, arg_topics = None, arg_event_date = None,
      arg_expires_at = None, arg_source_channel = None, arg_source_session = None,
      skip_dedup = False, dedup_threshold = 0.92,
      auto_score_importance = False, auto_extract_topics = False\<rparr>"

text \<open>
  \<^verbatim>\<open>score_importance\<close>: the model's answer is clamped to \<open>[0, 1]\<close>; an answer that does
  not parse (\<open>None\<close>) gives 0.5.
\<close>

definition score_importance :: "'v ports \<Rightarrow> string \<Rightarrow> real" where
  "score_importance P text =
     (case llm_score P text of Some score \<Rightarrow> max 0 (min 1 score) | None \<Rightarrow> 0.5)"

definition extract_topics :: "'v ports \<Rightarrow> string \<Rightarrow> nat \<Rightarrow> string list" where
  "extract_topics P text max_topics = take max_topics (llm_topics P text)"

text \<open>The result dictionaries of \<^verbatim>\<open>store_memory\<close>, one constructor per \<^verbatim>\<open>action\<close>.\<close>

datatype store_result =
    Reinforced uuid string real
  | Created uuid timestamptz

text \<open>\<^verbatim>\<open>1 - (embedding <=> %s::vector)\<close>\<close>

definition similarity :: "'v ports \<Rightarrow> 'v \<Rightarrow> 'v memory \<Rightarrow> real" where
  "similarity P v m = 1 - cosine_distance P (embedding m) v"

text \<open>The deduplication query: the most similar live memory of the agent above the threshold.\<close>

definition dedup_query :: "'v ports \<Rightarrow> string \<Rightarrow> 'v \<Rightarrow> real \<Rightarrow> 'v memory list \<Rightarrow> 'v memory option" where
  "dedup_query P agent v threshold ms =
     (case sort_key (\<lambda>m. - similarity P v m)
             (filter (\<lambda>m. agent_id m = agent \<and> \<not> is_deleted m \<and> similarity P v m > threshold) ms)
      of [] \<Rightarrow> None | m # _ \<Rightarrow> Some m)"

text \<open>
  The \<^verbatim>\<open>INSERT INTO memories\<close> of \<^verbatim>\<open>store_memory\<close>: the ten columns it names, the
  column defaults for the others (\<open>new_id\<close> is the value of \<^verbatim>\<open>gen_random_uuid()\<close>).
\<close>

definition inserted_row ::
  "timestamptz \<Rightarrow> uuid \<Rightarrow> string \<Rightarrow> string \<Rightarrow> 'v \<Rightarrow> string \<Rightarrow> real \<Rightarrow> string list \<Rightarrow>
   date option \<Rightarrow> date option \<Rightarrow> string option \<Rightarrow> string option \<Rightarrow> 'v memory" where
  "inserted_row now new_id agent text v mtype imp tps ev ex chan sess =
     \<lparr>mem_id = new_id, agent_id = agent, content = text, embedding = v,
      memory_type = mtype, topics = tps, created_at = now, event_date = ev,
      expires_at = ex, importance = imp, stability = 0.3, last_accessed = now,
      access_count = 0, source_channel = chan, source_session = sess,
      is_summary = False, summarizes = [], is_deleted = False\<rparr>"

definition too_long :: "nat \<Rightarrow> string option \<Rightarrow> bool" where
  "too_long n s = (case s of None \<Rightarrow> False | Some x \<Rightarrow> length x > n)"

text \<open>
  The constraints of the table on a new row: \<^verbatim>\<open>VARCHAR(n)\<close>, \<^verbatim>\<open>CHECK\<close>, primary key.
  A value longer than its column is refused here; PostgreSQL stores it cut to the length
  of the column when all the characters in excess are spaces.
\<close>

definition insert_memory :: "'v memory \<Rightarrow> 'v memory list \<Rightarrow> error + 'v memory list" where
  "insert_memory row ms =
     (if length (agent_id row) > 50 \<or> length (memory_type row) > 20
         \<or> too_long 50 (source_channel row) \<or> too_long 100 (source_session row)
      then Inl StringDataRightTruncation
      else if memory_type row \<notin> {''episodic'', ''semantic'', ''procedural''}
         \<or> \<not> (0 \<le> importance row \<and> importance row \<le> 1)
      then Inl CheckViolation
      else if mem_id row \<in> mem_id ` set ms then Inl UniqueViolation
      else Inr (ms @ [row]))"

text \<open>
  \<^verbatim>\<open>store_memory\<close>. One transaction: \<open>now\<close> is its \<^verbatim>\<open>NOW()\<close>. An exception leaves the
  function before \<^verbatim>\<open>commit\<close>, so an error changes nothing.
\<close>

definition store_memory ::
  "'v ports \<Rightarrow> timestamptz \<Rightarrow> uuid \<Rightarrow> store_args \<Rightarrow> 'v db \<Rightarrow> error + ('v db \<times> store_result)" where
  "store_memory P now new_id a d =
     (let imp = (if auto_score_importance a \<and> arg_importance a = None
                 then score_importance P (arg_content a)
                 else (case arg_importance a of None \<Rightarrow> 0.5 | Some i \<Rightarrow> i));
          tps = (if auto_extract_topics a \<and> (arg_topics a = None \<or> arg_topics a = Some [])
                 then extract_topics P (arg_content a) 5
                 else (case arg_topics a of None \<Rightarrow> [] | Some ts \<Rightarrow> ts));
          v = get_embedding P (arg_content a);
          similar = (if skip_dedup a then None
                     else dedup_query P (arg_agent_id a) v (dedup_threshold a) (memories d))
      in case similar of
           Some m \<Rightarrow>
             (case reinforce_memory now (mem_id m) (memories d) of
                Inl e \<Rightarrow> Inl e
              | Inr ms' \<Rightarrow>
                  Inr (d\<lparr>memories := ms'\<rparr>, Reinforced (mem_id m) (content m) (similarity P v m)))
         | None \<Rightarrow>
             (case insert_memory
                     (inserted_row now new_id (arg_agent_id a) (arg_content a) v
                        (arg_memory_type a) imp tps (arg_event_date a) (arg_expires_at a)
                        (arg_source_channel a) (arg_source_session a))
                     (memories d) of
                Inl e \<Rightarrow> Inl e
              | Inr ms' \<Rightarrow> Inr (d\<lparr>memories := ms'\<rparr>, Created new_id now)))"

section \<open>Link manager\<close>

text \<open>
  One \<^verbatim>\<open>INSERT ... ON CONFLICT (source_id, target_id) DO UPDATE\<close> of
  \<^verbatim>\<open>strengthen_link\<close>. Both columns reference \<^verbatim>\<open>memories(id)\<close>.
\<close>

definition upsert_link :: "timestamptz \<Rightarrow> uuid \<Rightarrow> uuid \<Rightarrow> real \<Rightarrow> 'v db \<Rightarrow> error + 'v db" where
  "upsert_link now s t p_increment d =
     (case find (\<lambda>l. source_id l = s \<and> target_id l = t) (memory_links d) of
        None \<Rightarrow>
          (if s \<notin> mem_id ` set (memories d) \<or> t \<notin> mem_id ` set (memories d)
           then Inl ForeignKeyViolation
           else Inr (d\<lparr>memory_links := memory_links d @
                  [\<lparr>source_id = s, target_id = t, strength = 0.5, link_type = ''association'',
                    link_created_at = now, updated_at = now\<rparr>]\<rparr>))
      | Some _ \<Rightarrow>
          (case update_rows (\<lambda>l. source_id l = s \<and> target_id l = t)
                  (\<lambda>l. let new_strength = min 1 (strength l + p_increment)
                        in if 0 \<le> new_strength \<and> new_strength \<le> 1
                           then Inr (l\<lparr>strength := new_strength, updated_at := now\<rparr>)
                           else Inl CheckViolation)
                  (memory_links d) of
             Inl e \<Rightarrow> Inl e
           | Inr ls' \<Rightarrow> Inr (d\<lparr>memory_links := ls'\<rparr>)))"

text \<open>\<^verbatim>\<open>strengthen_link(p_source_id, p_target_id, p_increment DEFAULT 0.1)\<close>\<close>

definition strengthen_link :: "timestamptz \<Rightarrow> uuid \<Rightarrow> uuid \<Rightarrow> real \<Rightarrow> 'v db \<Rightarrow> error + 'v db" where
  "strengthen_link now p_source_id p_target_id p_increment d =
     (case upsert_link now p_source_id p_target_id p_increment d of
        Inl e \<Rightarrow> Inl e
      | Inr d' \<Rightarrow> upsert_link now p_target_id p_source_id p_increment d')"

definition strengthen_link_default_increment :: real where
  "strengthen_link_default_increment = 0.1"

text \<open>
  \<^verbatim>\<open>link_memories(source_id, target_id, strength=0.5)\<close>: the third argument is handed to
  \<^verbatim>\<open>strengthen_link\<close> in the place of \<^verbatim>\<open>p_increment\<close>. The result is the pair
  \<^verbatim>\<open>source\<close>, \<^verbatim>\<open>target\<close> of the returned dictionary.
\<close>

definition link_memories ::
  "timestamptz \<Rightarrow> uuid \<Rightarrow> uuid \<Rightarrow> real \<Rightarrow> 'v db \<Rightarrow> error + ('v db \<times> (uuid \<times> uuid))" where
  "link_memories now source target strength_arg d =
     (case strengthen_link now source target strength_arg d of
        Inl e \<Rightarrow> Inl e
      | Inr d' \<Rightarrow> Inr (d', (source, target)))"

definition link_memories_default_strength :: real where
  "link_memories_default_strength = 0.5"

section \<open>Read path\<close>

text \<open>The rows of the two result sets of \<^verbatim>\<open>retrieve_memories\<close>, column by column.\<close>

record primary_row =
  r_id :: uuid
  r_content :: string
  r_memory_type :: string
  r_topics :: "string list"
  r_importance :: real
  r_stability :: real
  r_created_at :: timestamptz
  r_event_date :: "date option"
  r_last_accessed :: timestamptz
  r_access_count :: int
  r_similarity :: real
  r_retention :: real

record assoc_row =
  a_id :: uuid
  a_content :: string
  a_memory_type :: string
  a_topics :: "string list"
  a_importance :: real
  a_link_strength :: real
  a_retention :: real

record retrieve_result =
  res_memories :: "primary_row list"
  res_associations :: "assoc_row list"
  res_query :: string
  retrieved_count :: nat
  association_count :: nat

text \<open>\<^verbatim>\<open>calculate_retention(stability, importance, last_accessed)\<close> on a row.\<close>

definition retention_of :: "timestamptz \<Rightarrow> 'v memory \<Rightarrow> error + real" where
  "retention_of now m = calculate_retention now (stability m) (importance m) (last_accessed m)"

text \<open>A row of the semantic search: the columns of the memory, with its retention.\<close>

definition primary_row_of :: "'v ports \<Rightarrow> 'v \<Rightarrow> 'v memory \<times> real \<Rightarrow> primary_row" where
  "primary_row_of P v mr =
     \<lparr>r_id = mem_id (fst mr), r_content = content (fst mr), r_memory_type = memory_type (fst mr),
      r_topics = topics (fst mr), r_importance = importance (fst mr),
      r_stability = stability (fst mr), r_created_at = created_at (fst mr),
      r_event_date = event_date (fst mr), r_last_accessed = last_accessed (fst mr),
      r_access_count = access_count (fst mr),
      r_similarity = similarity P v (fst mr), r_retention = snd mr\<rparr>"

text \<open>
  The semantic search. \<^verbatim>\<open>memory_types\<close> is \<open>[]\<close> for Python's \<^verbatim>\<open>None\<close> and for the empty
  list, which both leave the type filter out. PostgreSQL evaluates the conditions of a
  \<^verbatim>\<open>WHERE\<close> in the order of their estimated cost, and a call of a PL/pgSQL function costs a
  hundred times a comparison: \<^verbatim>\<open>calculate_retention\<close> is called on the rows that pass the
  other conditions, and the query fails when one of these calls fails. The result pairs
  every selected memory with its retention. \<^verbatim>\<open>ORDER BY ... DESC\<close> is an ascending sort on
  the negated key.
\<close>

definition primary_query ::
  "'v ports \<Rightarrow> timestamptz \<Rightarrow> string \<Rightarrow> 'v \<Rightarrow> real \<Rightarrow> string list \<Rightarrow> nat \<Rightarrow> 'v memory list
   \<Rightarrow> error + ('v memory \<times> real) list" where
  "primary_query P now agent v min_retention memory_types limit ms =
     (case eval_rows (retention_of now)
             (filter (\<lambda>m. agent_id m = agent \<and> \<not> is_deleted m
                          \<and> (memory_types = [] \<or> memory_type m \<in> set memory_types)) ms) of
        Inl e \<Rightarrow> Inl e
      | Inr rows \<Rightarrow>
          Inr (take limit
                 (sort_key (\<lambda>mr. - (similarity P v (fst mr) * snd mr))
                    (filter (\<lambda>mr. snd mr > min_retention) rows))))"

text \<open>\<^verbatim>\<open>SELECT DISTINCT ON (key)\<close> over sorted rows: the first row of every run of equal keys.\<close>

fun distinct_on :: "('a \<Rightarrow> 'k) \<Rightarrow> 'a list \<Rightarrow> 'a list" where
  "distinct_on k [] = []"
| "distinct_on k [x] = [x]"
| "distinct_on k (x # y # ys) =
     (if k x = k y then distinct_on k (x # ys) else x # distinct_on k (y # ys))"

definition assoc_row_of :: "('v memory \<times> link) \<times> real \<Rightarrow> assoc_row" where
  "assoc_row_of mlr =
     \<lparr>a_id = mem_id (fst (fst mlr)), a_content = content (fst (fst mlr)),
      a_memory_type = memory_type (fst (fst mlr)), a_topics = topics (fst (fst mlr)),
      a_importance = importance (fst (fst mlr)),
      a_link_strength = strength (snd (fst mlr)), a_retention = snd mlr\<rparr>"

text \<open>
  The rows of the association query: the join of \<^verbatim>\<open>memories\<close> with \<^verbatim>\<open>memory_links\<close> on
  \<^verbatim>\<open>m.id = l.target_id\<close>, its \<^verbatim>\<open>WHERE\<close>, \<^verbatim>\<open>ORDER BY m.id, l.strength DESC\<close> (two stable
  sorts, the minor key first), \<^verbatim>\<open>DISTINCT ON (m.id)\<close> and \<^verbatim>\<open>LIMIT\<close>.
\<close>

definition assoc_rows ::
  "uuid list \<Rightarrow> nat \<Rightarrow> 'v memory list \<Rightarrow> link list \<Rightarrow> ('v memory \<times> link) list" where
  "assoc_rows retrieved_ids limit ms ls =
     take limit
       (distinct_on (\<lambda>ml. mem_id (fst ml))
          (sort_key (\<lambda>ml. mem_id (fst ml))
             (sort_key (\<lambda>ml. - strength (snd ml))
                (filter (\<lambda>ml. mem_id (fst ml) = target_id (snd ml)
                             \<and> source_id (snd ml) \<in> set retrieved_ids
                             \<and> mem_id (fst ml) \<notin> set retrieved_ids
                             \<and> \<not> is_deleted (fst ml)
                             \<and> strength (snd ml) > 0.3)
                   (List.product ms ls)))))"

text \<open>
  The association query. Its \<^verbatim>\<open>WHERE\<close> does not call \<^verbatim>\<open>calculate_retention\<close>; the call
  in the select list is no sort key, and PostgreSQL computes such a column after the sort
  and for the rows that \<^verbatim>\<open>LIMIT\<close> lets through.
\<close>

definition assoc_query ::
  "timestamptz \<Rightarrow> uuid list \<Rightarrow> nat \<Rightarrow> 'v memory list \<Rightarrow> link list
   \<Rightarrow> error + (('v memory \<times> link) \<times> real) list" where
  "assoc_query now retrieved_ids limit ms ls =
     eval_rows (\<lambda>ml. retention_of now (fst ml)) (assoc_rows retrieved_ids limit ms ls)"

text \<open>The loops \<^verbatim>\<open>for mem in memories: SELECT reinforce_memory(mem['id'])\<close>.\<close>

fun reinforce_each :: "timestamptz \<Rightarrow> uuid list \<Rightarrow> 'v memory list \<Rightarrow> error + 'v memory list" where
  "reinforce_each now [] ms = Inr ms"
| "reinforce_each now (i # ids) ms =
     (case reinforce_memory now i ms of Inl e \<Rightarrow> Inl e | Inr ms' \<Rightarrow> reinforce_each now ids ms')"

text \<open>
  \<^verbatim>\<open>retrieve_memories\<close>. One transaction, committed at the end; PostgreSQL refuses a
  negative \<^verbatim>\<open>LIMIT\<close>.
\<close>

definition retrieve_memories ::
  "'v ports \<Rightarrow> timestamptz \<Rightarrow> string \<Rightarrow> string \<Rightarrow> int \<Rightarrow> bool \<Rightarrow> real \<Rightarrow> string list \<Rightarrow> 'v db
   \<Rightarrow> error + ('v db \<times> retrieve_result)" where
  "retrieve_memories P now agent query limit include_associations min_retention memory_types d =
     (if limit < 0 then Inl InvalidRowCountInLimit
      else
        let query_embedding = get_embedding P query
        in case primary_query P now agent query_embedding min_retention memory_types
                  (nat limit) (memories d) of
             Inl e \<Rightarrow> Inl e
           | Inr mems \<Rightarrow>
               let retrieved_ids = map (\<lambda>mr. mem_id (fst mr)) mems
               in case reinforce_each now retrieved_ids (memories d) of
                    Inl e \<Rightarrow> Inl e
                  | Inr ms1 \<Rightarrow>
                      (case (if include_associations \<and> retrieved_ids \<noteq> []
                             then assoc_query now retrieved_ids (nat limit) ms1 (memory_links d)
                             else Inr []) of
                         Inl e \<Rightarrow> Inl e
                       | Inr associations \<Rightarrow>
                           (case reinforce_each now
                                   (map (\<lambda>mlr. mem_id (fst (fst mlr))) associations) ms1 of
                              Inl e \<Rightarrow> Inl e
                            | Inr ms2 \<Rightarrow>
                                Inr (d\<lparr>memories := ms2\<rparr>,
                                     \<lparr>res_memories = map (primary_row_of P query_embedding) mems,
                                      res_associations = map assoc_row_of associations,
                                      res_query = query,
                                      retrieved_count = length mems,
                                      association_count = length associations\<rparr>))))"

section \<open>Consolidation\<close>

record fading_row =
  f_id :: uuid
  f_content :: string
  f_memory_type :: string
  f_topics :: "string list"
  f_retention :: real
  f_created_at :: timestamptz

record decayed_entry =
  d_id :: uuid
  d_content :: string
  d_retention :: real

record compressed_entry =
  c_topic :: string
  c_count :: nat
  c_summary_id :: uuid
  c_original_ids :: "uuid list"

record promotion_entry =
  p_id :: uuid
  p_content :: string
  p_stability :: real
  p_access_count :: int

record consolidate_results =
  decayed :: "decayed_entry list"
  compressed :: "compressed_entry list"
  promotion_candidates :: "promotion_entry list"
  links_created :: nat

text \<open>
  Step 1: the memories of the agent that are live, not summarised, with retention below
  0.2. The retention is computed for the rows that pass the other conditions.
\<close>

definition fading_query :: "timestamptz \<Rightarrow> string \<Rightarrow> 'v memory list \<Rightarrow> error + fading_row list" where
  "fading_query now agent ms =
     (case eval_rows (retention_of now)
             (filter (\<lambda>m. agent_id m = agent \<and> \<not> is_deleted m \<and> \<not> is_summary m) ms) of
        Inl e \<Rightarrow> Inl e
      | Inr rows \<Rightarrow>
          Inr (map (\<lambda>mr. \<lparr>f_id = mem_id (fst mr), f_content = content (fst mr),
                          f_memory_type = memory_type (fst mr), f_topics = topics (fst mr),
                          f_retention = snd mr, f_created_at = created_at (fst mr)\<rparr>)
                 (filter (\<lambda>mr. snd mr < 0.2) rows)))"

text \<open>
  \<^verbatim>\<open>summarize_memories\<close>: nothing for no memory, the content itself for one, the
  language model's gist otherwise.
\<close>

definition summarize_memories :: "'v ports \<Rightarrow> fading_row list \<Rightarrow> string" where
  "summarize_memories P mems =
     (case mems of
        [] \<Rightarrow> []
      | [m] \<Rightarrow> f_content m
      | _ \<Rightarrow> llm_summary P (map (\<lambda>m. (f_content m, f_created_at m)) mems))"

text \<open>
  \<^verbatim>\<open>topic_groups\<close> is a Python dictionary: its items come in the order in which the keys
  were first inserted, so it is an association list that appends new keys at the end.
\<close>

fun group_append :: "string \<Rightarrow> 'a \<Rightarrow> (string \<times> 'a list) list \<Rightarrow> (string \<times> 'a list) list" where
  "group_append topic mem [] = [(topic, [mem])]"
| "group_append topic mem ((k, g) # rest) =
     (if k = topic then (k, g @ [mem]) # rest else (k, g) # group_append topic mem rest)"

definition topic_groups_of :: "fading_row list \<Rightarrow> (string \<times> fading_row list) list" where
  "topic_groups_of fading =
     foldl (\<lambda>groups mem. foldl (\<lambda>gs topic. group_append topic mem gs) groups (f_topics mem))
       [] fading"

text \<open>\<^verbatim>\<open>UPDATE memories SET is_summary = TRUE WHERE id = ANY(ids)\<close>\<close>

definition mark_summarized :: "uuid list \<Rightarrow> 'v memory list \<Rightarrow> 'v memory list" where
  "mark_summarized ids ms =
     map (\<lambda>m. if mem_id m \<in> set ids then m\<lparr>is_summary := True\<rparr> else m) ms"

text \<open>
  The loop over \<^verbatim>\<open>topic_groups.items()\<close>. \<^verbatim>\<open>store_memory\<close> opens a connection of its own
  and commits there: \<open>gen n\<close> is the identifier and the transaction time of the
  \<open>n\<close>-th such call. \<open>view\<close> is the table as the consolidating transaction sees it
  (committed rows and its own uncommitted marks), \<open>comm\<close> the committed table. An
  exception of \<^verbatim>\<open>store_memory\<close> leaves \<^verbatim>\<open>consolidate_memories\<close>: the marks are rolled
  back, the summaries stored so far stay.
\<close>

fun compress_groups ::
  "'v ports \<Rightarrow> (nat \<Rightarrow> uuid \<times> timestamptz) \<Rightarrow> string \<Rightarrow> (string \<times> fading_row list) list \<Rightarrow>
   'v db \<Rightarrow> 'v db \<Rightarrow> compressed_entry list \<Rightarrow>
   (error \<times> 'v db) + ('v db \<times> 'v db \<times> compressed_entry list)" where
  "compress_groups P gen agent [] view comm acc = Inr (view, comm, acc)"
| "compress_groups P gen agent ((topic, group_mems) # rest) view comm acc =
     (if length group_mems \<ge> 3 then
        (let summary_text = summarize_memories P group_mems
         in case store_memory P (snd (gen (length acc))) (fst (gen (length acc)))
                   ((store_defaults agent summary_text)
                      \<lparr>arg_memory_type := ''semantic'', arg_importance := Some 0.7,
                       arg_topics := Some [topic], skip_dedup := True\<rparr>)
                   comm of
              Inl e \<Rightarrow> Inl (e, comm)
            | Inr (comm', stored) \<Rightarrow>
                (let ids_to_mark = map f_id group_mems;
                     view' = view\<lparr>memories :=
                               mark_summarized ids_to_mark
                                 (memories view @ drop (length (memories comm)) (memories comm'))\<rparr>
                 in compress_groups P gen agent rest view' comm'
                      (acc @ [\<lparr>c_topic = topic, c_count = length group_mems,
                               c_summary_id = (case stored of Created i _ \<Rightarrow> i
                                                            | Reinforced i _ _ \<Rightarrow> i),
                               c_original_ids = ids_to_mark\<rparr>])))
      else compress_groups P gen agent rest view comm acc)"

text \<open>Step 3: the candidates for promotion.\<close>

definition promotion_query :: "string \<Rightarrow> 'v memory list \<Rightarrow> promotion_entry list" where
  "promotion_query agent ms =
     map (\<lambda>m. \<lparr>p_id = mem_id m, p_content = content m, p_stability = stability m,
               p_access_count = access_count m\<rparr>)
       (filter (\<lambda>m. agent_id m = agent \<and> \<not> is_deleted m \<and> memory_type m = ''semantic''
                    \<and> stability m > 0.9 \<and> access_count m > 10) ms)"

text \<open>
  Step 4, the \<^verbatim>\<open>UPDATE memories SET is_deleted = TRUE\<close> of the dormant memories.
  \<^verbatim>\<open>INTERVAL '30 days'\<close> is 30 times 86400 seconds (no change of daylight saving). The
  retention is computed for the rows that pass the other four conditions; an error of
  this computation aborts the statement, which then changes no row.
\<close>

definition soft_delete_dormant :: "timestamptz \<Rightarrow> string \<Rightarrow> 'v memory list \<Rightarrow> error + 'v memory list" where
  "soft_delete_dormant now agent ms =
     update_rows (\<lambda>m. agent_id m = agent \<and> \<not> is_deleted m \<and> \<not> is_summary m
                      \<and> last_accessed m < now - 30 * 86400)
       (\<lambda>m. case retention_of now m of
               Inl e \<Rightarrow> Inl e
             | Inr r \<Rightarrow> Inr (if r < 0.05 then m\<lparr>is_deleted := True\<rparr> else m))
       ms"

text \<open>
  \<^verbatim>\<open>consolidate_memories(agent_id, compression_threshold=5)\<close>. An exception leaves the
  function before \<^verbatim>\<open>commit\<close>: the error comes with the committed table, which holds the
  summaries stored so far and none of the marks.
\<close>

definition consolidate_memories ::
  "'v ports \<Rightarrow> timestamptz \<Rightarrow> (nat \<Rightarrow> uuid \<times> timestamptz) \<Rightarrow> string \<Rightarrow> int \<Rightarrow> 'v db
   \<Rightarrow> (error \<times> 'v db) + ('v db \<times> consolidate_results)" where
  "consolidate_memories P now gen agent compression_threshold d =
     (case fading_query now agent (memories d) of
        Inl e \<Rightarrow> Inl (e, d)
      | Inr fading \<Rightarrow>
          (let decayed_list = map (\<lambda>m. \<lparr>d_id = f_id m, d_content = take 100 (f_content m),
                                        d_retention = f_retention m\<rparr>) fading
           in case (if int (length fading) \<ge> compression_threshold
                    then compress_groups P gen agent (topic_groups_of fading) d d []
                    else Inr (d, d, [])) of
                Inl failure \<Rightarrow> Inl failure
              | Inr (view, comm, compressed_list) \<Rightarrow>
                  (case soft_delete_dormant now agent (memories view) of
                     Inl e \<Rightarrow> Inl (e, comm)
                   | Inr swept \<Rightarrow>
                       Inr (view\<lparr>memories := swept\<rparr>,
                            \<lparr>decayed = decayed_list, compressed = compressed_list,
                             promotion_candidates = promotion_query agent (memories view),
                             links_created = 0\<rparr>))))"

definition consolidate_default_compression_threshold :: int where
  "consolidate_default_compression_threshold = 5"

section \<open>Stand-ins for the collaborators, for concrete runs\<close>

text \<open>
  An embedding provider and a language model to run the program on concrete inputs: the
  embedding of a text is the one-dimensional vector of its length, two vectors are at
  distance one hundredth of the difference of their coordinates, the model does not
  score, proposes no topic and summarises everything as \<^verbatim>\<open>gist\<close>.
\<close>

definition example_ports :: "real list ports" where
  "example_ports =
     \<lparr>get_embedding = (\<lambda>text. [real (length text)]),
      cosine_distance = (\<lambda>u v. \<bar>sum_list u - sum_list v\<bar> / 100),
      llm_score = (\<lambda>text. None),
      llm_topics = (\<lambda>text. []),
      llm_summary = (\<lambda>mems. ''gist'')\<rparr>"

text \<open>
  Two small stores for runs of the read path. In the first, memory 2 was last accessed
  1800 days before the time 155520000 of the query and is linked from memory 1. In the
  second, memories 1 and 4 are semantic, memories 2 and 3 episodic and linked from
  memory 1 with strengths 0.4 and 0.9; nothing has aged at time 0.
\<close>

definition low_retention_db :: "real list db" where
  "low_retention_db =
     \<lparr>memories =
        [inserted_row 155520000 1 ''agent'' ''alpha'' [5] ''episodic'' 0.5 [] None None None None,
         inserted_row 0 2 ''agent'' ''beta'' [4] ''episodic'' 0.5 [] None None None None],
      memory_links =
        [\<lparr>source_id = 1, target_id = 2, strength = 0.6, link_type = ''association'',
          link_created_at = 0, updated_at = 0\<rparr>]\<rparr>"

definition typed_db :: "real list db" where
  "typed_db =
     \<lparr>memories =
        [inserted_row 0 1 ''agent'' ''alpha'' [5] ''semantic'' 0.5 [] None None None None,
         inserted_row 0 2 ''agent'' ''beta'' [4] ''episodic'' 0.5 [] None None None None,
         inserted_row 0 3 ''agent'' ''gamma'' [5] ''episodic'' 0.5 [] None None None None,
         inserted_row 0 4 ''agent'' ''delta'' [1] ''semantic'' 0.5 [] None None None None],
      memory_links =
        [\<lparr>source_id = 1, target_id = 2, strength = 0.4, link_type = ''association'',
          link_created_at = 0, updated_at = 0\<rparr>,
         \<lparr>source_id = 1, target_id = 3, strength = 0.9, link_type = ''association'',
          link_created_at = 0, updated_at = 0\<rparr>]\<rparr>"

text \<open>
  A store for a run of the consolidation at time 155520000: five memories of one agent,
  last accessed at time 0, each with the topics \<^verbatim>\<open>zebra\<close>, \<^verbatim>\<open>apple\<close>, \<^verbatim>\<open>mango\<close> in
  that order. The stores made by the run receive the identifiers 100, 101, ... at the
  time of the run.
\<close>

definition fading_db :: "real list db" where
  "fading_db =
     \<lparr>memories =
        map (\<lambda>i. inserted_row 0 i ''agent'' ''trip'' [4] ''episodic'' 0.5
                   [''zebra'', ''apple'', ''mango''] None None None None)
          [1, 2, 3, 4, 5],
      memory_links = []\<rparr>"

definition example_gen :: "nat \<Rightarrow> uuid \<times> timestamptz" where
  "example_gen n = (100 + n, 155520000)"

text \<open>
  A store for a run of the dormant sweep at time 3888000, 45 days after time 0: memory 1
  was stored at time 0 with importance 0.1 and not accessed since, memory 2 is a summary
  with the same columns, memory 3 has just been stored.
\<close>

definition dormant_db :: "real list db" where
  "dormant_db =
     \<lparr>memories =
        [inserted_row 0 1 ''agent'' ''old'' [3] ''episodic'' 0.1 [] None None None None,
         (inserted_row 0 2 ''agent'' ''old'' [3] ''episodic'' 0.1 [] None None None None)
           \<lparr>is_summary := True\<rparr>,
         inserted_row 3888000 3 ''agent'' ''new'' [3] ''episodic'' 0.1 [] None None None None],
      memory_links = []\<rparr>"

text \<open>
  A store with one memory of importance 0, stored at time 0 and not accessed since, for a
  run of the consolidation 10000 days later, at time 864000000.
\<close>

definition ancient_db :: "real list db" where
  "ancient_db =
     \<lparr>memories =
        [inserted_row 0 1 ''agent'' ''old'' [3] ''episodic'' 0 [] None None None None],
      memory_links = []\<rparr>"

section \<open>Properties of the retention model\<close>

lemma exp_m59_bounds: "5737 / 10000 < exp (- (5/9) :: real) \<and> exp (- (5/9) :: real) < 5739 / 10000"
proof -
  obtain t :: real where t: "\<bar>t\<bar> \<le> \<bar>- (5/9)\<bar>"
    and e: "exp (- (5/9) :: real) = (\<Sum>m<8. ((- (5/9)) ^ m) / fact m) + (exp t / fact 8) * (- (5/9)) ^ 8"
    using Maclaurin_exp_le [of "- (5/9)" 8] by blast
  have s: "(\<Sum>m<8. ((- (5/9) :: real) ^ m) / fact m) = 1383098881 / 2410616376"
    by (simp add: lessThan_Suc eval_nat_numeral fact_numeral field_simps)
  have "exp t \<le> exp 1" using t by simp
  also have "\<dots> \<le> 3" by (rule exp_le)
  finally have up: "exp t \<le> 3" .
  have pos: "0 < exp t" by simp
  have r: "(exp t / fact 8) * (- (5/9)) ^ 8 = exp t * (78125 / 347128758144)"
    by (simp add: eval_nat_numeral fact_numeral field_simps)
  show ?thesis unfolding e s r using up pos by (intro conjI; linarith)
qed

lemma exp_nat_bounds: "2 ^ n \<le> exp (real n)" "exp (real n) \<le> 3 ^ n"
proof -
  have "1 + 1 \<le> exp (1 :: real)" by (rule exp_ge_add_one_self)
  then have two: "2 \<le> exp (1 :: real)" by simp
  have e: "exp (real n) = exp 1 ^ n" by (simp add: exp_of_nat_mult[symmetric])
  show "2 ^ n \<le> exp (real n)" unfolding e using two by (intro power_mono) simp_all
  show "exp (real n) \<le> 3 ^ n" unfolding e using exp_le by (intro power_mono) simp_all
qed

lemma float8_exp_in_range:
  assumes "- 100 \<le> x" "x \<le> 100"
  shows "\<not> float8_overflows (exp x)" "\<not> float8_underflows (exp x)"
proof -
  have up: "exp x \<le> 3 ^ 100"
  proof -
    have "exp x \<le> exp (real 100)" using assms by simp
    also have "\<dots> \<le> 3 ^ 100" by (rule exp_nat_bounds)
    finally show ?thesis .
  qed
  have "exp (- x) \<le> exp (real 100)" using assms by simp
  also have "\<dots> \<le> 3 ^ 100" by (rule exp_nat_bounds)
  finally have "exp (- x) \<le> 3 ^ 100" .
  then have "inverse (3 ^ 100) \<le> inverse (exp (- x))"
    by (intro le_imp_inverse_le) simp_all
  then have lo: "1 / 3 ^ 100 \<le> exp x" by (simp add: exp_minus field_simps)
  have a: "(3 :: real) ^ 100 < 2 ^ 1024 - 2 ^ 970" by simp
  have b: "1 / 2 ^ 1075 < 1 / (3 :: real) ^ 100" by simp
  show "\<not> float8_overflows (exp x)" using up a by (simp add: float8_overflows_def)
  show "\<not> float8_underflows (exp x)" using lo b by (simp add: float8_underflows_def)
qed

lemma float8_exp_underflows:
  assumes "x \<le> - 1075"
  shows "float8_underflows (exp x)" "\<not> float8_overflows (exp x)"
proof -
  have "2 ^ 1075 \<le> exp (real 1075)" by (rule exp_nat_bounds)
  also have "\<dots> \<le> exp (- x)" using assms by simp
  finally have "inverse (exp (- x)) \<le> inverse (2 ^ 1075)"
    by (intro le_imp_inverse_le) simp_all
  then have le: "exp x \<le> 1 / 2 ^ 1075" by (simp add: exp_minus field_simps)
  then show "float8_underflows (exp x)" by (simp add: float8_underflows_def)
  have "(1 :: real) / 2 ^ 1075 < 2 ^ 1024 - 2 ^ 970" by simp
  with le show "\<not> float8_overflows (exp x)" by (simp add: float8_overflows_def)
qed

lemma float8_exp_overflows:
  assumes "1024 \<le> x"
  shows "float8_overflows (exp x)"
proof -
  have "(2 :: real) ^ 1024 - 2 ^ 970 \<le> 2 ^ 1024" by simp
  also have "\<dots> \<le> exp (real 1024)" by (rule exp_nat_bounds)
  also have "\<dots> \<le> exp x" using assms by simp
  finally show ?thesis by (simp add: float8_overflows_def)
qed

lemma EXP_sql_in_range: "- 100 \<le> x \<Longrightarrow> x \<le> 100 \<Longrightarrow> EXP_sql x = Inr (exp x)"
  by (simp add: EXP_sql_def float8_exp_in_range)

lemma math_exp_in_range: "- 100 \<le> x \<Longrightarrow> x \<le> 100 \<Longrightarrow> math_exp x = Inr (exp x)"
  by (simp add: math_exp_def float8_exp_in_range)

lemma calculate_retention_in_range:
  assumes "- 100 \<le> - ((t_n - t_a) / 86400) / max 1 (s * (1 + 2 * i) * 30)"
    and "- ((t_n - t_a) / 86400) / max 1 (s * (1 + 2 * i) * 30) \<le> 100"
  shows "calculate_retention t_n s i t_a
           = Inr (max 0 (min 1 (exp (- ((t_n - t_a) / 86400) / max 1 (s * (1 + 2 * i) * 30)))))"
    and "calculate_retention_py t_n s i t_a
           = Inr (max 0 (min 1 (exp (- ((t_n - t_a) / 86400) / max 1 (s * (1 + 2 * i) * 30)))))"
proof -
  have m: "(if s * (1 + i * 2) * 30 < 1 then 1 else s * (1 + i * 2) * 30)
             = max 1 (s * (1 + 2 * i) * 30)"
    by (simp add: max_def mult.commute)
  have m2: "(if s * (1.0 + i * 2.0) * 30.0 < 1 then 1 else s * (1.0 + i * 2.0) * 30.0)
             = max 1 (s * (1 + 2 * i) * 30)"
    by (simp add: max_def mult.commute)
  show "calculate_retention t_n s i t_a
           = Inr (max 0 (min 1 (exp (- ((t_n - t_a) / 86400) / max 1 (s * (1 + 2 * i) * 30)))))"
    unfolding calculate_retention_def Let_def m
    by (simp only: EXP_sql_in_range[OF assms] sum.case)
  show "calculate_retention_py t_n s i t_a
           = Inr (max 0 (min 1 (exp (- ((t_n - t_a) / 86400) / max 1 (s * (1 + 2 * i) * 30)))))"
    unfolding calculate_retention_py_def Let_def m2
    by (simp only: math_exp_in_range[OF assms] sum.case)
qed

text \<open>
  Claim C1. With stability 0.3, importance 0.5 and ten days elapsed both implementations
  return \<open>exp (- 10 / 18)\<close>, within 0.0001 of 0.5738, as the claim says. With stability 0,
  importance 0 and 1800 days elapsed the claim gives \<open>clamp (exp (- 1800)) 0 1\<close>, a positive
  number below every double: the Python function returns 0 there, and the PL/pgSQL
  function raises \<^verbatim>\<open>value out of range: underflow\<close>. With a last access 1800 days in the
  future, where the claim gives 1, both raise.
\<close>

theorem calculate_retention_underflow:
  "calculate_retention t_n 0 0 (t_n - 1800 * 86400) = Inl NumericValueOutOfRange
   \<and> calculate_retention_py t_n 0 0 (t_n - 1800 * 86400) = Inr 0
   \<and> calculate_retention t_n 0 0 (t_n + 1800 * 86400) = Inl NumericValueOutOfRange
   \<and> calculate_retention_py t_n 0 0 (t_n + 1800 * 86400) = Inl OverflowError
   \<and> calculate_retention t_n 0.3 0.5 (t_n - 10 * 86400) = Inr (exp (- 10 / 18))
   \<and> calculate_retention_py t_n 0.3 0.5 (t_n - 10 * 86400) = Inr (exp (- 10 / 18))
   \<and> \<bar>exp (- 10 / 18) - 0.5738\<bar> < (0.0001 :: real)"
proof -
  have u: "float8_underflows (exp (- 1800))" "\<not> float8_overflows (exp (- 1800))"
    by (rule float8_exp_underflows, simp)+
  have o: "float8_overflows (exp 1800)"
    by (rule float8_exp_overflows) simp
  have 1: "calculate_retention t_n 0 0 (t_n - 1800 * 86400) = Inl NumericValueOutOfRange"
    using u by (simp add: calculate_retention_def EXP_sql_def)
  have 2: "calculate_retention_py t_n 0 0 (t_n - 1800 * 86400) = Inr 0"
    using u by (simp add: calculate_retention_py_def math_exp_def)
  have 3: "calculate_retention t_n 0 0 (t_n + 1800 * 86400) = Inl NumericValueOutOfRange"
    using o by (simp add: calculate_retention_def EXP_sql_def)
  have 4: "calculate_retention_py t_n 0 0 (t_n + 1800 * 86400) = Inl OverflowError"
    using o by (simp add: calculate_retention_py_def math_exp_def)
  have x: "- ((t_n - (t_n - 10 * 86400)) / 86400) / max 1 (0.3 * (1 + 2 * 0.5) * 30) = - (5 / 9)"
    by simp
  have c: "max 0 (min 1 (exp (- (5 / 9) :: real))) = exp (- (5 / 9))"
    by (simp add: max_def min_def)
  have 5: "calculate_retention t_n 0.3 0.5 (t_n - 10 * 86400) = Inr (exp (- 10 / 18))"
    using calculate_retention_in_range(1)[of t_n "t_n - 10 * 86400" "0.3" "0.5"]
    unfolding x c by simp
  have 6: "calculate_retention_py t_n 0.3 0.5 (t_n - 10 * 86400) = Inr (exp (- 10 / 18))"
    using calculate_retention_in_range(2)[of t_n "t_n - 10 * 86400" "0.3" "0.5"]
    unfolding x c by simp
  have 7: "\<bar>exp (- 10 / 18) - 0.5738\<bar> < (0.0001 :: real)"
  proof -
    have "\<bar>exp (- (5/9)) - 5738 / 10000\<bar> < (1 / 10000 :: real)"
      using exp_m59_bounds by linarith
    then show ?thesis by simp
  qed
  from 1 2 3 4 5 6 7 show ?thesis by (intro conjI)
qed

section \<open>Properties of reinforcement\<close>

lemma update_rows_unmatched:
  "\<forall>r\<in>set rs. \<not> P r \<Longrightarrow> update_rows P f rs = Inr rs"
  by (induction rs) auto

lemma update_rows_find:
  assumes "update_rows P f rs = Inr rs'"
    and "\<And>r r'. f r = Inr r' \<Longrightarrow> P r' = P r"
    and "find P rs = Some m"
  shows "\<exists>m'. f m = Inr m' \<and> find P rs' = Some m'"
  using assms(1,3)
proof (induction rs arbitrary: rs')
  case Nil
  then show ?case by simp
next
  case (Cons r rs)
  from Cons.prems(1) obtain q qs where rs': "rs' = q # qs"
    and q: "(if P r then f r else Inr r) = Inr q" and qs: "update_rows P f rs = Inr qs"
    by (auto split: sum.splits)
  show ?case
  proof (cases "P r")
    case True
    with Cons.prems(2) have "m = r" by simp
    moreover from True q have "f r = Inr q" by simp
    moreover from this assms(2) True have "P q" by blast
    ultimately show ?thesis using rs' by simp
  next
    case False
    with q have "q = r" by simp
    with False Cons.prems(2) Cons.IH[OF qs] rs' show ?thesis by simp
  qed
qed

lemma update_rows_succeeds:
  "\<forall>r\<in>set rs. P r \<longrightarrow> (\<exists>r'. f r = Inr r') \<Longrightarrow> \<exists>rs'. update_rows P f rs = Inr rs'"
  by (induction rs) (auto split: sum.splits)

lemma reinforce_set_id: "reinforce_set now s m = Inr m' \<Longrightarrow> mem_id m' = mem_id m"
  by (auto simp: reinforce_set_def split: if_splits)

lemma reinforce_memory_found:
  assumes "find (\<lambda>m. mem_id m = p) ms = Some m"
    and "reinforce_memory now p ms = Inr ms'"
  shows "find (\<lambda>m. mem_id m = p) ms'
         = Some (m\<lparr>last_accessed := now, access_count := access_count m + 1,
                   stability := min 1 (stability m + 0.1 * min 2 (((now - last_accessed m) / 86400) / 7))\<rparr>)"
proof -
  let ?s = "min 1 (stability m + 0.1 * min 2 (((now - last_accessed m) / 86400) / 7))"
  from assms have u: "update_rows (\<lambda>m. mem_id m = p) (reinforce_set now ?s) ms = Inr ms'"
    by (simp add: reinforce_memory_def LEAST_sql_def)
  have "\<And>r r'. reinforce_set now ?s r = Inr r' \<Longrightarrow> (mem_id r' = p) = (mem_id r = p)"
    by (simp add: reinforce_set_id)
  from update_rows_find[OF u this assms(1)]
  obtain m' where "reinforce_set now ?s m = Inr m'" "find (\<lambda>m. mem_id m = p) ms' = Some m'"
    by blast
  then show ?thesis by (auto simp: reinforce_set_def split: if_splits)
qed

lemma spacing_le:
  fixes t1 t2 :: real
  assumes "t1 \<le> t2" "t2 \<le> t1 + 1"
  shows "0 \<le> min 2 (((t2 - t1) / 86400) / 7) \<and> 0.1 * min 2 (((t2 - t1) / 86400) / 7) \<le> 0.02"
  using assms by (auto simp: min_def field_simps)

lemma reinforce_memory_spacing_succeeds:
  assumes "find (\<lambda>r. mem_id r = p) ms = Some m"
    and "\<forall>r\<in>set ms. mem_id r = p \<longrightarrow> access_count r < 2147483647"
    and "0 \<le> stability m \<and> last_accessed m \<le> t1"
  shows "\<exists>ms1. reinforce_memory t1 p ms = Inr ms1"
proof -
  let ?s = "min 1 (stability m + 0.1 * min 2 (((t1 - last_accessed m) / 86400) / 7))"
  have "0 \<le> min 2 (((t1 - last_accessed m) / 86400) / 7)" using assms(3) by simp
  then have "0 \<le> ?s \<and> ?s \<le> 1" using assms(3) by (simp add: min_def)
  then have "\<forall>r\<in>set ms. mem_id r = p \<longrightarrow> (\<exists>r'. reinforce_set t1 ?s r = Inr r')"
    using assms(2) by (auto simp: reinforce_set_def)
  from update_rows_succeeds[OF this]
  show ?thesis using assms(1) by (simp add: reinforce_memory_def LEAST_sql_def)
qed

text \<open>
  Claim C5. For a memory \<open>m\<close> with identifier \<open>p\<close>: reinforcement succeeds when the
  counter is below the largest \<^verbatim>\<open>INTEGER\<close>, the stability is not negative and the last
  access is not in the future; and whenever it succeeds, it sets \<open>last_accessed\<close> to now,
  adds exactly one to \<open>access_count\<close> and sets the stability to
  \<open>min 1 (stability + 0.1 * min 2 (days_since_access / 7))\<close>, which never exceeds 1 and,
  when the last access is not in the future and the old stability is at most 1, is not
  below the old stability. A second reinforcement at most one second later raises the
  stability by at most 0.02, never lowers it and keeps it at most 1.
\<close>

theorem reinforce_memory_spacing:
  assumes "find (\<lambda>r. mem_id r = p) ms = Some m"
  shows "((\<forall>r\<in>set ms. mem_id r = p \<longrightarrow> access_count r < 2147483647)
            \<and> 0 \<le> stability m \<and> last_accessed m \<le> t1
          \<longrightarrow> (\<exists>ms1. reinforce_memory t1 p ms = Inr ms1))
       \<and> (\<forall>ms1. reinforce_memory t1 p ms = Inr ms1 \<longrightarrow>
            (\<exists>m1. find (\<lambda>r. mem_id r = p) ms1 = Some m1
               \<and> last_accessed m1 = t1
               \<and> access_count m1 = access_count m + 1
               \<and> stability m1
                   = min 1 (stability m + 0.1 * min 2 (((t1 - last_accessed m) / 86400) / 7))
               \<and> stability m1 \<le> 1
               \<and> (last_accessed m \<le> t1 \<and> stability m \<le> 1 \<longrightarrow> stability m \<le> stability m1)
               \<and> (\<forall>t2 ms2. t1 \<le> t2 \<and> t2 \<le> t1 + 1 \<and> reinforce_memory t2 p ms1 = Inr ms2 \<longrightarrow>
                    (\<exists>m2. find (\<lambda>r. mem_id r = p) ms2 = Some m2
                       \<and> stability m1 \<le> stability m2
                       \<and> stability m2 - stability m1 \<le> 0.02
                       \<and> stability m2 \<le> 1))))"
proof (intro conjI impI allI)
  assume a: "(\<forall>r\<in>set ms. mem_id r = p \<longrightarrow> access_count r < 2147483647)
            \<and> 0 \<le> stability m \<and> last_accessed m \<le> t1"
  let ?s = "min 1 (stability m + 0.1 * min 2 (((t1 - last_accessed m) / 86400) / 7))"
  have "0 \<le> min 2 (((t1 - last_accessed m) / 86400) / 7)" using a by simp
  then have "0 \<le> ?s \<and> ?s \<le> 1" using a by (simp add: min_def)
  then have "\<forall>r\<in>set ms. mem_id r = p \<longrightarrow> (\<exists>r'. reinforce_set t1 ?s r = Inr r')"
    using a by (auto simp: reinforce_set_def)
  from update_rows_succeeds[OF this]
  show "\<exists>ms1. reinforce_memory t1 p ms = Inr ms1"
    using assms by (simp add: reinforce_memory_def LEAST_sql_def)
next
  fix ms1 assume r1: "reinforce_memory t1 p ms = Inr ms1"
  let ?m1 = "m\<lparr>last_accessed := t1, access_count := access_count m + 1,
                stability := min 1 (stability m + 0.1 * min 2 (((t1 - last_accessed m) / 86400) / 7))\<rparr>"
  have f1: "find (\<lambda>r. mem_id r = p) ms1 = Some ?m1"
    by (rule reinforce_memory_found[OF assms r1])
  have mono: "last_accessed m \<le> t1 \<and> stability m \<le> 1 \<longrightarrow> stability m \<le> stability ?m1"
    by (auto simp: min_def)
  have second: "\<exists>m2. find (\<lambda>r. mem_id r = p) ms2 = Some m2
                       \<and> stability ?m1 \<le> stability m2
                       \<and> stability m2 - stability ?m1 \<le> 0.02
                       \<and> stability m2 \<le> 1"
    if h: "t1 \<le> t2 \<and> t2 \<le> t1 + 1 \<and> reinforce_memory t2 p ms1 = Inr ms2" for t2 ms2
  proof -
    from h have r2: "reinforce_memory t2 p ms1 = Inr ms2" by simp
    let ?b = "0.1 * min 2 (((t2 - t1) / 86400) / 7)"
    have b: "0 \<le> ?b \<and> ?b \<le> 0.02" using spacing_le[of t1 t2] h by simp
    have s1: "stability ?m1 \<le> 1" by simp
    have "find (\<lambda>r. mem_id r = p) ms2
        = Some (?m1\<lparr>last_accessed := t2, access_count := access_count ?m1 + 1,
                    stability := min 1 (stability ?m1 + 0.1 * min 2 (((t2 - last_accessed ?m1) / 86400) / 7))\<rparr>)"
      by (rule reinforce_memory_found[OF f1 r2])
    moreover have "stability ?m1 \<le> min 1 (stability ?m1 + ?b)
        \<and> min 1 (stability ?m1 + ?b) - stability ?m1 \<le> 0.02"
      using b s1 by (simp only: min_def) (auto split: if_splits)
    ultimately show ?thesis by simp
  qed
  show "\<exists>m1. find (\<lambda>r. mem_id r = p) ms1 = Some m1
               \<and> last_accessed m1 = t1
               \<and> access_count m1 = access_count m + 1
               \<and> stability m1
                   = min 1 (stability m + 0.1 * min 2 (((t1 - last_accessed m) / 86400) / 7))
               \<and> stability m1 \<le> 1
               \<and> (last_accessed m \<le> t1 \<and> stability m \<le> 1 \<longrightarrow> stability m \<le> stability m1)
               \<and> (\<forall>t2 ms2. t1 \<le> t2 \<and> t2 \<le> t1 + 1 \<and> reinforce_memory t2 p ms1 = Inr ms2 \<longrightarrow>
                    (\<exists>m2. find (\<lambda>r. mem_id r = p) ms2 = Some m2
                       \<and> stability m1 \<le> stability m2
                       \<and> stability m2 - stability m1 \<le> 0.02
                       \<and> stability m2 \<le> 1))"
    apply (rule exI[of _ ?m1])
    using f1 mono second by simp
qed

theorem reinforce_memory_spacing_witness:
  "find (\<lambda>r. mem_id r = 1)
     [inserted_row 0 1 ''agent'' ''note'' [1::real] ''episodic'' 0.5 [] None None None None]
     = Some (inserted_row 0 1 ''agent'' ''note'' [1::real] ''episodic'' 0.5 [] None None None None)
   \<and> (\<exists>ms1. reinforce_memory 604800 1
          [inserted_row 0 1 ''agent'' ''note'' [1::real] ''episodic'' 0.5 [] None None None None]
          = Inr ms1
        \<and> (\<exists>m1. find (\<lambda>r. mem_id r = 1) ms1 = Some m1 \<and> last_accessed m1 = 604800
              \<and> access_count m1 = 1 \<and> stability m1 = 0.4))"
proof -
  let ?row = "inserted_row 0 1 ''agent'' ''note'' [1::real] ''episodic'' 0.5 [] None None None None"
  have h: "find (\<lambda>r. mem_id r = 1) [?row] = Some ?row"
    by (simp add: inserted_row_def)
  have c: "(\<forall>r\<in>set [?row]. mem_id r = 1 \<longrightarrow> access_count r < 2147483647)
            \<and> 0 \<le> stability ?row \<and> last_accessed ?row \<le> 604800"
    by (simp add: inserted_row_def)
  from reinforce_memory_spacing[OF h, of 604800] c
  obtain ms1 where r: "reinforce_memory 604800 1 [?row] = Inr ms1" by blast
  from reinforce_memory_spacing[OF h, of 604800] r
  obtain m1 where "find (\<lambda>r. mem_id r = 1) ms1 = Some m1" "last_accessed m1 = 604800"
    "access_count m1 = access_count ?row + 1"
    "stability m1 = min 1 (stability ?row + 0.1 * min 2 (((604800 - last_accessed ?row) / 86400) / 7))"
    by blast
  then have "find (\<lambda>r. mem_id r = 1) ms1 = Some m1 \<and> last_accessed m1 = 604800
              \<and> access_count m1 = 1 \<and> stability m1 = 0.4"
    by (simp add: inserted_row_def)
  with h r show ?thesis by blast
qed

text \<open>
  Claim C10. \<^verbatim>\<open>reinforce_memory\<close> called with an identifier that no row of \<^verbatim>\<open>memories\<close>
  carries returns normally and leaves the table as it was.
\<close>

theorem reinforce_memory_unknown_id:
  "p \<notin> mem_id ` set ms \<Longrightarrow> reinforce_memory now p ms = Inr ms"
proof -
  assume "p \<notin> mem_id ` set ms"
  then have "\<forall>r\<in>set ms. \<not> mem_id r = p" by auto
  then show ?thesis
    unfolding reinforce_memory_def Let_def by (rule update_rows_unmatched)
qed

theorem reinforce_memory_unknown_id_witness:
  "(2::nat) \<notin> mem_id ` set
     [inserted_row 0 1 ''agent'' ''note'' [1::real] ''episodic'' 0.5 [] None None None None]
   \<and> reinforce_memory 5 2
       [inserted_row 0 1 ''agent'' ''note'' [1::real] ''episodic'' 0.5 [] None None None None]
     = Inr [inserted_row 0 1 ''agent'' ''note'' [1::real] ''episodic'' 0.5 [] None None None None]"
proof -
  have h: "(2::nat) \<notin> mem_id ` set
     [inserted_row 0 1 ''agent'' ''note'' [1::real] ''episodic'' 0.5 [] None None None None]"
    by (simp add: inserted_row_def)
  from reinforce_memory_unknown_id[OF h, of 5] h show ?thesis by simp
qed

section \<open>Properties of the write path\<close>

lemma update_rows_append:
  "update_rows P f (xs @ ys) =
     (case update_rows P f xs of
        Inl e \<Rightarrow> Inl e
      | Inr xs' \<Rightarrow> (case update_rows P f ys of Inl e \<Rightarrow> Inl e | Inr ys' \<Rightarrow> Inr (xs' @ ys')))"
  by (induction xs) (auto split: sum.splits)

lemma update_rows_map_key:
  assumes "update_rows P f rs = Inr rs'"
    and "\<And>r r'. f r = Inr r' \<Longrightarrow> k r' = k r"
  shows "map k rs' = map k rs"
  using assms(1)
proof (induction rs arbitrary: rs')
  case Nil
  then show ?case by simp
next
  case (Cons r rs)
  then show ?case using assms(2) by (auto split: sum.splits if_splits)
qed

lemma reinforce_memory_ids:
  "reinforce_memory now p ms = Inr ms' \<Longrightarrow> map mem_id ms' = map mem_id ms"
  unfolding reinforce_memory_def Let_def
  by (erule update_rows_map_key) (rule reinforce_set_id)

lemma find_distinct_key:
  "distinct (map k xs) \<Longrightarrow> x \<in> set xs \<Longrightarrow> find (\<lambda>y. k y = k x) xs = Some x"
  by (induction xs) auto

lemma sort_key_hd_least:
  "sort_key f xs = y # ys \<Longrightarrow> y \<in> set xs \<and> (\<forall>x\<in>set xs. f y \<le> f x)"
proof -
  assume a: "sort_key f xs = y # ys"
  have "sorted (map f (sort_key f xs))" by simp
  with a have "\<forall>x\<in>set ys. f y \<le> f x" by simp
  moreover have "set xs = insert y (set ys)" using a set_sort[of f xs] by simp
  ultimately show ?thesis by auto
qed

lemma dedup_query_None:
  "\<forall>m\<in>set ms. \<not> (agent_id m = agent \<and> \<not> is_deleted m \<and> similarity P v m > threshold)
   \<Longrightarrow> dedup_query P agent v threshold ms = None"
  by (simp add: dedup_query_def filter_empty_conv[THEN iffD2])

lemma dedup_query_Some:
  assumes "dedup_query P agent v threshold ms = Some w"
  shows "w \<in> set ms \<and> agent_id w = agent \<and> \<not> is_deleted w \<and> similarity P v w > threshold
         \<and> (\<forall>m\<in>set ms. agent_id m = agent \<and> \<not> is_deleted m \<and> similarity P v m > threshold
               \<longrightarrow> similarity P v m \<le> similarity P v w)"
proof -
  let ?c = "filter (\<lambda>m. agent_id m = agent \<and> \<not> is_deleted m \<and> similarity P v m > threshold) ms"
  from assms obtain ys where "sort_key (\<lambda>m. - similarity P v m) ?c = w # ys"
    by (auto simp: dedup_query_def split: list.splits)
  from sort_key_hd_least[OF this] show ?thesis by auto
qed

lemma dedup_query_exists:
  assumes "m \<in> set ms" "agent_id m = agent" "\<not> is_deleted m" "similarity P v m > threshold"
  shows "\<exists>w. dedup_query P agent v threshold ms = Some w"
proof -
  let ?c = "filter (\<lambda>m. agent_id m = agent \<and> \<not> is_deleted m \<and> similarity P v m > threshold) ms"
  have "m \<in> set ?c" using assms by simp
  then have "0 < length ?c" by (rule length_pos_if_in_set)
  then have "0 < length (sort_key (\<lambda>m. - similarity P v m) ?c)" by (simp only: length_sort)
  then obtain y ys where "sort_key (\<lambda>m. - similarity P v m) ?c = y # ys"
    by (cases "sort_key (\<lambda>m. - similarity P v m) ?c") simp_all
  then show ?thesis by (simp add: dedup_query_def)
qed

lemma store_memory_reinforces:
  assumes nd: "\<not> skip_dedup a"
    and cand: "m \<in> set (memories d)" "agent_id m = arg_agent_id a" "\<not> is_deleted m"
      "similarity P (get_embedding P (arg_content a)) m > dedup_threshold a"
    and pk: "distinct (map mem_id (memories d))"
    and ok: "\<forall>r\<in>set (memories d). 0 \<le> stability r \<and> access_count r < 2147483647
                \<and> last_accessed r \<le> now"
  shows "\<exists>w d'. store_memory P now new_id a d
             = Inr (d', Reinforced (mem_id w) (content w)
                          (similarity P (get_embedding P (arg_content a)) w))
          \<and> w \<in> set (memories d) \<and> agent_id w = arg_agent_id a \<and> \<not> is_deleted w
          \<and> similarity P (get_embedding P (arg_content a)) w > dedup_threshold a
          \<and> similarity P (get_embedding P (arg_content a)) m
              \<le> similarity P (get_embedding P (arg_content a)) w
          \<and> map mem_id (memories d') = map mem_id (memories d)
          \<and> memory_links d' = memory_links d
          \<and> find (\<lambda>r. mem_id r = mem_id w) (memories d')
              = Some (w\<lparr>last_accessed := now, access_count := access_count w + 1,
                        stability := min 1 (stability w
                           + 0.1 * min 2 (((now - last_accessed w) / 86400) / 7))\<rparr>)"
proof -
  let ?v = "get_embedding P (arg_content a)"
  from dedup_query_exists[OF cand]
  obtain w where q: "dedup_query P (arg_agent_id a) ?v (dedup_threshold a) (memories d) = Some w"
    by blast
  note w = dedup_query_Some[OF q]
  from w have win: "w \<in> set (memories d)" by simp
  have f: "find (\<lambda>r. mem_id r = mem_id w) (memories d) = Some w"
    by (rule find_distinct_key[OF pk win])
  have only: "\<forall>r\<in>set (memories d). mem_id r = mem_id w \<longrightarrow> access_count r < 2147483647"
    using ok by blast
  from ok win have "0 \<le> stability w \<and> last_accessed w \<le> now" by blast
  with reinforce_memory_spacing_succeeds[OF f] only
  obtain ms1 where r: "reinforce_memory now (mem_id w) (memories d) = Inr ms1" by blast
  have s: "store_memory P now new_id a d
      = Inr (d\<lparr>memories := ms1\<rparr>, Reinforced (mem_id w) (content w) (similarity P ?v w))"
    using nd q r by (simp add: store_memory_def Let_def)
  have le: "similarity P ?v m \<le> similarity P ?v w" using w cand by blast
  have ids: "map mem_id (memories (d\<lparr>memories := ms1\<rparr>)) = map mem_id (memories d)"
    using reinforce_memory_ids[OF r] by simp
  have lk: "memory_links (d\<lparr>memories := ms1\<rparr>) = memory_links d" by simp
  have fd: "find (\<lambda>r. mem_id r = mem_id w) (memories (d\<lparr>memories := ms1\<rparr>))
              = Some (w\<lparr>last_accessed := now, access_count := access_count w + 1,
                        stability := min 1 (stability w
                           + 0.1 * min 2 (((now - last_accessed w) / 86400) / 7))\<rparr>)"
    using reinforce_memory_found[OF f r] by simp
  from w have w1: "agent_id w = arg_agent_id a" and w2: "\<not> is_deleted w"
    and w3: "similarity P ?v w > dedup_threshold a" by blast+
  show ?thesis
    apply (rule exI[of _ w])
    apply (rule exI[of _ "d\<lparr>memories := ms1\<rparr>"])
    apply (intro conjI)
    apply (rule s, rule win, rule w1, rule w2, rule w3, rule le, rule ids, rule lk, rule fd)
    done
qed

lemma find_append_unmatched:
  "\<forall>x\<in>set xs. \<not> P x \<Longrightarrow> find P (xs @ ys) = find P ys"
  by (induction xs) auto

lemma insert_memory_Inr:
  "insert_memory row ms = Inr ms' \<Longrightarrow> ms' = ms @ [row] \<and> mem_id row \<notin> mem_id ` set ms"
  by (simp add: insert_memory_def split: if_splits)

lemma store_memory_Created:
  assumes "store_memory P now new_id a d = Inr (d1, Created i t)"
  shows "\<exists>imp tps. d1 = d\<lparr>memories := memories d @
            [inserted_row now new_id (arg_agent_id a) (arg_content a)
               (get_embedding P (arg_content a)) (arg_memory_type a) imp tps
               (arg_event_date a) (arg_expires_at a) (arg_source_channel a)
               (arg_source_session a)]\<rparr>
         \<and> new_id \<notin> mem_id ` set (memories d) \<and> i = new_id \<and> t = now"
proof -
  let ?sim = "if skip_dedup a then None
              else dedup_query P (arg_agent_id a) (get_embedding P (arg_content a))
                     (dedup_threshold a) (memories d)"
  have n: "?sim = None"
  proof (cases ?sim)
    case None
    then show ?thesis .
  next
    case (Some m)
    with assms show ?thesis
      by (simp add: store_memory_def Let_def split: sum.splits)
  qed
  define imp where "imp = (if auto_score_importance a \<and> arg_importance a = None
                 then score_importance P (arg_content a)
                 else (case arg_importance a of None \<Rightarrow> 0.5 | Some i \<Rightarrow> i))"
  define tps where "tps = (if auto_extract_topics a \<and> (arg_topics a = None \<or> arg_topics a = Some [])
                 then extract_topics P (arg_content a) 5
                 else (case arg_topics a of None \<Rightarrow> [] | Some ts \<Rightarrow> ts))"
  define row where "row = inserted_row now new_id (arg_agent_id a) (arg_content a)
               (get_embedding P (arg_content a)) (arg_memory_type a) imp tps
               (arg_event_date a) (arg_expires_at a) (arg_source_channel a)
               (arg_source_session a)"
  have st: "store_memory P now new_id a d =
      (case insert_memory row (memories d) of
         Inl e \<Rightarrow> Inl e
       | Inr ms' \<Rightarrow> Inr (d\<lparr>memories := ms'\<rparr>, Created new_id now))"
    unfolding store_memory_def Let_def n row_def imp_def tps_def by simp
  have id: "mem_id row = new_id" by (simp add: row_def inserted_row_def)
  show ?thesis
  proof (cases "insert_memory row (memories d)")
    case (Inl e)
    with st assms show ?thesis by simp
  next
    case (Inr ms')
    with st assms have r: "d1 = d\<lparr>memories := ms'\<rparr>" "i = new_id" "t = now" by simp_all
    from insert_memory_Inr[OF Inr] id
    have "ms' = memories d @ [row]" "new_id \<notin> mem_id ` set (memories d)" by simp_all
    with r show ?thesis unfolding row_def by blast
  qed
qed

lemma store_duplicate_of_last:
  fixes row :: "'v memory"
  assumes row: "mem_id row = new_id" "agent_id row = arg_agent_id a" "\<not> is_deleted row"
      "access_count row = 0" "stability row = 0.3" "last_accessed row = now"
    and nd: "\<not> skip_dedup a"
    and fresh: "new_id \<notin> mem_id ` set ms"
    and sim: "similarity P (get_embedding P (arg_content a)) row > dedup_threshold a"
    and none: "\<forall>m\<in>set ms. \<not> (agent_id m = arg_agent_id a \<and> \<not> is_deleted m
                 \<and> similarity P (get_embedding P (arg_content a)) m > dedup_threshold a)"
  shows "store_memory P now other_id a \<lparr>memories = ms @ [row], memory_links = ls\<rparr>
         = Inr (\<lparr>memories = ms @ [row\<lparr>access_count := 1\<rparr>], memory_links = ls\<rparr>,
                Reinforced new_id (content row) (similarity P (get_embedding P (arg_content a)) row))"
proof -
  let ?v = "get_embedding P (arg_content a)"
  have flt: "filter (\<lambda>m. agent_id m = arg_agent_id a \<and> \<not> is_deleted m
                \<and> similarity P ?v m > dedup_threshold a) ms = []"
    using none by (simp add: filter_empty_conv)
  have dq: "dedup_query P (arg_agent_id a) ?v (dedup_threshold a) (ms @ [row]) = Some row"
    using row sim by (simp add: dedup_query_def flt)
  have nm: "\<forall>r\<in>set ms. \<not> mem_id r = new_id" using fresh by auto
  have fd: "find (\<lambda>m. mem_id m = new_id) (ms @ [row]) = Some row"
    using row by (simp add: find_append_unmatched[OF nm])
  have eq: "row\<lparr>last_accessed := now, access_count := 1, stability := 3 / 10\<rparr> = row\<lparr>access_count := 1\<rparr>"
    using row by simp
  have rs: "reinforce_set now (3 / 10) row = Inr (row\<lparr>access_count := 1\<rparr>)"
    using row eq by (simp add: reinforce_set_def)
  have ns: "LEAST_sql 1 (map_option (\<lambda>s. s + 0.1 * LEAST_sql 2
               (map_option (\<lambda>d. d / 7) (map_option (\<lambda>m. (now - last_accessed m) / 86400) (Some row))))
               (map_option stability (Some row))) = 3 / 10"
    using row by (simp add: LEAST_sql_def)
  have rf: "reinforce_memory now new_id (ms @ [row]) = Inr (ms @ [row\<lparr>access_count := 1\<rparr>])"
    unfolding reinforce_memory_def Let_def fd ns
    by (simp add: update_rows_append update_rows_unmatched[OF nm] rs row(1))
  show ?thesis
    using row nd by (simp add: store_memory_def dq rf Let_def)
qed

lemma example_similarity:
  "similarity example_ports (get_embedding example_ports text) m
     = 1 - \<bar>sum_list (embedding m) - real (length text)\<bar> / 100"
  by (simp add: similarity_def example_ports_def)

text \<open>
  Claim C2, as amended. (1) On a table with distinct identifiers, stabilities that are not
  negative, counters below the largest \<^verbatim>\<open>INTEGER\<close> and no access in the future: when
  deduplication is on and some live memory of the agent is more similar to the new content
  than the threshold, \<^verbatim>\<open>store_memory\<close> answers \<^verbatim>\<open>reinforced\<close> with the most similar such
  memory, adds no row, leaves the links alone and reinforces that memory. (2) When a first
  call created a row and a second call with the default arguments, at the same instant,
  stores a text whose embedding is within the threshold of the first one (no other live
  memory of the agent being that close), the second call answers \<^verbatim>\<open>reinforced\<close> with the
  first row, the table has the same number of rows as after the first call, and that row
  has \<open>access_count = 1\<close> (the insert starts the counter at 0) and stability 0.3.
\<close>

theorem store_memory_dedup:
  "(\<not> skip_dedup a \<and> m \<in> set (memories d) \<and> agent_id m = arg_agent_id a \<and> \<not> is_deleted m
      \<and> similarity P (get_embedding P (arg_content a)) m > dedup_threshold a
      \<and> distinct (map mem_id (memories d))
      \<and> (\<forall>r\<in>set (memories d). 0 \<le> stability r \<and> access_count r < 2147483647
                \<and> last_accessed r \<le> now)
    \<longrightarrow> (\<exists>w d'. store_memory P now new_id a d
             = Inr (d', Reinforced (mem_id w) (content w)
                          (similarity P (get_embedding P (arg_content a)) w))
          \<and> w \<in> set (memories d) \<and> agent_id w = arg_agent_id a \<and> \<not> is_deleted w
          \<and> similarity P (get_embedding P (arg_content a)) w > dedup_threshold a
          \<and> similarity P (get_embedding P (arg_content a)) m
              \<le> similarity P (get_embedding P (arg_content a)) w
          \<and> map mem_id (memories d') = map mem_id (memories d)
          \<and> memory_links d' = memory_links d
          \<and> find (\<lambda>r. mem_id r = mem_id w) (memories d')
              = Some (w\<lparr>last_accessed := now, access_count := access_count w + 1,
                        stability := min 1 (stability w
                           + 0.1 * min 2 (((now - last_accessed w) / 86400) / 7))\<rparr>)))
   \<and> (store_memory P now new_id first d = Inr (mid, Created new_id now)
      \<and> 1 - cosine_distance P (get_embedding P (arg_content first)) (get_embedding P dup_text)
           > dedup_threshold (store_defaults (arg_agent_id first) dup_text)
      \<and> (\<forall>r\<in>set (memories d). \<not> (agent_id r = arg_agent_id first \<and> \<not> is_deleted r
             \<and> similarity P (get_embedding P dup_text) r
                  > dedup_threshold (store_defaults (arg_agent_id first) dup_text)))
    \<longrightarrow> (\<exists>row. memories mid = memories d @ [row] \<and> mem_id row = new_id
          \<and> access_count row = 0 \<and> stability row = 0.3
          \<and> store_memory P now other_id (store_defaults (arg_agent_id first) dup_text) mid
              = Inr (mid\<lparr>memories := memories d @ [row\<lparr>access_count := 1\<rparr>]\<rparr>,
                     Reinforced new_id (arg_content first)
                       (1 - cosine_distance P (get_embedding P (arg_content first))
                              (get_embedding P dup_text)))
          \<and> length (memories d @ [row\<lparr>access_count := 1\<rparr>]) = length (memories mid)
          \<and> access_count (row\<lparr>access_count := 1\<rparr>) = 1
          \<and> stability (row\<lparr>access_count := 1\<rparr>) = 0.3))"
proof (intro conjI impI)
  assume h: "\<not> skip_dedup a \<and> m \<in> set (memories d) \<and> agent_id m = arg_agent_id a \<and> \<not> is_deleted m
      \<and> similarity P (get_embedding P (arg_content a)) m > dedup_threshold a
      \<and> distinct (map mem_id (memories d))
      \<and> (\<forall>r\<in>set (memories d). 0 \<le> stability r \<and> access_count r < 2147483647
                \<and> last_accessed r \<le> now)"
  then have 1: "\<not> skip_dedup a" and 2: "m \<in> set (memories d)" and 3: "agent_id m = arg_agent_id a"
    and 4: "\<not> is_deleted m"
    and 5: "similarity P (get_embedding P (arg_content a)) m > dedup_threshold a"
    and 6: "distinct (map mem_id (memories d))"
    and 7: "\<forall>r\<in>set (memories d). 0 \<le> stability r \<and> access_count r < 2147483647
                \<and> last_accessed r \<le> now"
    by blast+
  show "\<exists>w d'. store_memory P now new_id a d
             = Inr (d', Reinforced (mem_id w) (content w)
                          (similarity P (get_embedding P (arg_content a)) w))
          \<and> w \<in> set (memories d) \<and> agent_id w = arg_agent_id a \<and> \<not> is_deleted w
          \<and> similarity P (get_embedding P (arg_content a)) w > dedup_threshold a
          \<and> similarity P (get_embedding P (arg_content a)) m
              \<le> similarity P (get_embedding P (arg_content a)) w
          \<and> map mem_id (memories d') = map mem_id (memories d)
          \<and> memory_links d' = memory_links d
          \<and> find (\<lambda>r. mem_id r = mem_id w) (memories d')
              = Some (w\<lparr>last_accessed := now, access_count := access_count w + 1,
                        stability := min 1 (stability w
                           + 0.1 * min 2 (((now - last_accessed w) / 86400) / 7))\<rparr>)"
    by (rule store_memory_reinforces[OF 1 2 3 4 5 6 7])
next
  let ?a2 = "store_defaults (arg_agent_id first) dup_text"
  assume h: "store_memory P now new_id first d = Inr (mid, Created new_id now)
      \<and> 1 - cosine_distance P (get_embedding P (arg_content first)) (get_embedding P dup_text)
           > dedup_threshold ?a2
      \<and> (\<forall>r\<in>set (memories d). \<not> (agent_id r = arg_agent_id first \<and> \<not> is_deleted r
             \<and> similarity P (get_embedding P dup_text) r > dedup_threshold ?a2))"
  then have st: "store_memory P now new_id first d = Inr (mid, Created new_id now)"
    and sm: "1 - cosine_distance P (get_embedding P (arg_content first)) (get_embedding P dup_text)
           > dedup_threshold ?a2"
    and none: "\<forall>r\<in>set (memories d). \<not> (agent_id r = arg_agent_id first \<and> \<not> is_deleted r
             \<and> similarity P (get_embedding P dup_text) r > dedup_threshold ?a2)"
    by blast+
  from store_memory_Created[OF st] obtain imp tps where
    mid: "mid = d\<lparr>memories := memories d @
            [inserted_row now new_id (arg_agent_id first) (arg_content first)
               (get_embedding P (arg_content first)) (arg_memory_type first) imp tps
               (arg_event_date first) (arg_expires_at first) (arg_source_channel first)
               (arg_source_session first)]\<rparr>"
    and fresh: "new_id \<notin> mem_id ` set (memories d)" by blast
  define row where "row = inserted_row now new_id (arg_agent_id first) (arg_content first)
               (get_embedding P (arg_content first)) (arg_memory_type first) imp tps
               (arg_event_date first) (arg_expires_at first) (arg_source_channel first)
               (arg_source_session first)"
  have ag: "arg_agent_id ?a2 = arg_agent_id first" and ct: "arg_content ?a2 = dup_text"
    and nd: "\<not> skip_dedup ?a2"
    by (simp_all add: store_defaults_def)
  have r: "mem_id row = new_id" "agent_id row = arg_agent_id ?a2" "\<not> is_deleted row"
      "access_count row = 0" "stability row = 0.3" "last_accessed row = now"
    and rc: "content row = arg_content first" and re: "embedding row = get_embedding P (arg_content first)"
    by (simp_all add: row_def inserted_row_def ag)
  have sim: "similarity P (get_embedding P (arg_content ?a2)) row > dedup_threshold ?a2"
    using sm unfolding similarity_def re ct .
  have none': "\<forall>m\<in>set (memories d). \<not> (agent_id m = arg_agent_id ?a2 \<and> \<not> is_deleted m
                 \<and> similarity P (get_embedding P (arg_content ?a2)) m > dedup_threshold ?a2)"
    using none unfolding ag ct .
  have mid': "mid = \<lparr>memories = memories d @ [row], memory_links = memory_links d\<rparr>"
    unfolding mid row_def by simp
  have s2: "store_memory P now other_id ?a2 mid
         = Inr (\<lparr>memories = memories d @ [row\<lparr>access_count := 1\<rparr>], memory_links = memory_links d\<rparr>,
                Reinforced new_id (content row) (similarity P (get_embedding P (arg_content ?a2)) row))"
    unfolding mid' by (rule store_duplicate_of_last[OF r nd fresh sim none'])
  have s2': "store_memory P now other_id ?a2 mid
         = Inr (mid\<lparr>memories := memories d @ [row\<lparr>access_count := 1\<rparr>]\<rparr>,
                     Reinforced new_id (arg_content first)
                       (1 - cosine_distance P (get_embedding P (arg_content first))
                              (get_embedding P dup_text)))"
    unfolding s2 by (simp add: mid' rc similarity_def re ct)
  have m1: "memories mid = memories d @ [row]" by (simp add: mid')
  show "\<exists>row. memories mid = memories d @ [row] \<and> mem_id row = new_id
          \<and> access_count row = 0 \<and> stability row = 0.3
          \<and> store_memory P now other_id ?a2 mid
              = Inr (mid\<lparr>memories := memories d @ [row\<lparr>access_count := 1\<rparr>]\<rparr>,
                     Reinforced new_id (arg_content first)
                       (1 - cosine_distance P (get_embedding P (arg_content first))
                              (get_embedding P dup_text)))
          \<and> length (memories d @ [row\<lparr>access_count := 1\<rparr>]) = length (memories mid)
          \<and> access_count (row\<lparr>access_count := 1\<rparr>) = 1
          \<and> stability (row\<lparr>access_count := 1\<rparr>) = 0.3"
    apply (rule exI[of _ row])
    using m1 r s2' by simp
qed

theorem store_memory_dedup_witness:
  "(\<exists>d2 s. store_memory example_ports 0 2 (store_defaults ''agent'' ''user prefers dark mode.'')
       \<lparr>memories = [inserted_row 0 1 ''agent'' ''user prefers dark mode'' [22] ''episodic''
                           0.5 [''ui''] None None None None],
        memory_links = []\<rparr>
      = Inr (d2, Reinforced 1 ''user prefers dark mode'' s)
      \<and> map mem_id (memories d2) = [1])
   \<and> (\<exists>row. store_memory example_ports 0 1
          ((store_defaults ''agent'' ''user prefers dark mode'')
             \<lparr>arg_importance := Some 0.5, arg_topics := Some [''ui'']\<rparr>)
          \<lparr>memories = [], memory_links = []\<rparr>
        = Inr (\<lparr>memories = [row], memory_links = []\<rparr>, Created 1 0)
      \<and> store_memory example_ports 0 2 (store_defaults ''agent'' ''user prefers dark mode.'')
          \<lparr>memories = [row], memory_links = []\<rparr>
        = Inr (\<lparr>memories = [row\<lparr>access_count := 1\<rparr>], memory_links = []\<rparr>,
               Reinforced 1 ''user prefers dark mode'' (99 / 100))
      \<and> access_count (row\<lparr>access_count := 1\<rparr>) = 1
      \<and> stability (row\<lparr>access_count := 1\<rparr>) = 0.3)"
proof -
  let ?row = "inserted_row 0 1 ''agent'' ''user prefers dark mode'' [22::real] ''episodic''
                           0.5 [''ui''] None None None None"
  let ?a1 = "(store_defaults ''agent'' ''user prefers dark mode'')
             \<lparr>arg_importance := Some 0.5, arg_topics := Some [''ui'']\<rparr>"
  let ?a2 = "store_defaults ''agent'' ''user prefers dark mode.''"
  let ?d0 = "\<lparr>memories = [], memory_links = []\<rparr> :: real list db"
  let ?d1 = "\<lparr>memories = [?row], memory_links = []\<rparr>"
  have first: "store_memory example_ports 0 1 ?a1 ?d0 = Inr (?d1, Created 1 0)"
    by (simp add: store_memory_def store_defaults_def dedup_query_def insert_memory_def
        too_long_def Let_def example_ports_def inserted_row_def)
  have h1: "\<not> skip_dedup ?a2 \<and> ?row \<in> set (memories ?d1) \<and> agent_id ?row = arg_agent_id ?a2
      \<and> \<not> is_deleted ?row
      \<and> similarity example_ports (get_embedding example_ports (arg_content ?a2)) ?row
           > dedup_threshold ?a2
      \<and> distinct (map mem_id (memories ?d1))
      \<and> (\<forall>r\<in>set (memories ?d1). 0 \<le> stability r \<and> access_count r < 2147483647
                \<and> last_accessed r \<le> 0)"
    by (simp add: store_defaults_def inserted_row_def example_similarity)
  have h2: "store_memory example_ports 0 1 ?a1 ?d0 = Inr (?d1, Created 1 0)
      \<and> 1 - cosine_distance example_ports (get_embedding example_ports (arg_content ?a1))
             (get_embedding example_ports ''user prefers dark mode.'')
           > dedup_threshold (store_defaults (arg_agent_id ?a1) ''user prefers dark mode.'')
      \<and> (\<forall>r\<in>set (memories ?d0). \<not> (agent_id r = arg_agent_id ?a1 \<and> \<not> is_deleted r
             \<and> similarity example_ports (get_embedding example_ports ''user prefers dark mode.'') r
                  > dedup_threshold (store_defaults (arg_agent_id ?a1) ''user prefers dark mode.'')))"
    using first by (simp add: store_defaults_def example_ports_def)
  note inst1 = store_memory_dedup[where a = ?a2 and m = ?row and d = ?d1 and P = example_ports
      and now = 0 and new_id = 2]
  from inst1 h1 obtain w d' where
    s: "store_memory example_ports 0 2 ?a2 ?d1
          = Inr (d', Reinforced (mem_id w) (content w)
                   (similarity example_ports (get_embedding example_ports (arg_content ?a2)) w))"
    and w: "w \<in> set (memories ?d1)"
    and ids: "map mem_id (memories d') = map mem_id (memories ?d1)"
    by blast
  from w have "w = ?row" by simp
  with s ids have p1: "\<exists>d2 s. store_memory example_ports 0 2 ?a2 ?d1
      = Inr (d2, Reinforced 1 ''user prefers dark mode'' s) \<and> map mem_id (memories d2) = [1]"
    by (simp add: inserted_row_def)
  note inst2 = store_memory_dedup[where first = ?a1 and d = ?d0 and mid = ?d1
      and P = example_ports and now = 0 and new_id = 1 and dup_text = "''user prefers dark mode.''"
      and other_id = 2]
  from inst2 h2 obtain row where
    m: "memories ?d1 = memories ?d0 @ [row]"
    and s2: "store_memory example_ports 0 2 (store_defaults (arg_agent_id ?a1) ''user prefers dark mode.'') ?d1
              = Inr (?d1\<lparr>memories := memories ?d0 @ [row\<lparr>access_count := 1\<rparr>]\<rparr>,
                     Reinforced 1 (arg_content ?a1)
                       (1 - cosine_distance example_ports (get_embedding example_ports (arg_content ?a1))
                              (get_embedding example_ports ''user prefers dark mode.'')))"
    and ac: "access_count (row\<lparr>access_count := 1\<rparr>) = 1"
    and sb: "stability (row\<lparr>access_count := 1\<rparr>) = 0.3"
    by blast
  from m have rr: "row = ?row" by simp
  have ag: "arg_agent_id ?a1 = ''agent''" "arg_content ?a1 = ''user prefers dark mode''"
    by (simp_all add: store_defaults_def)
  have cd: "1 - cosine_distance example_ports (get_embedding example_ports ''user prefers dark mode'')
                              (get_embedding example_ports ''user prefers dark mode.'') = 99 / 100"
    by (simp add: example_ports_def)
  have p2: "store_memory example_ports 0 1 ?a1 ?d0 = Inr (\<lparr>memories = [row], memory_links = []\<rparr>, Created 1 0)
      \<and> store_memory example_ports 0 2 ?a2 \<lparr>memories = [row], memory_links = []\<rparr>
        = Inr (\<lparr>memories = [row\<lparr>access_count := 1\<rparr>], memory_links = []\<rparr>,
               Reinforced 1 ''user prefers dark mode'' (99 / 100))
      \<and> access_count (row\<lparr>access_count := 1\<rparr>) = 1
      \<and> stability (row\<lparr>access_count := 1\<rparr>) = 0.3"
    using first s2 ac sb unfolding ag cd rr by simp
  from p1 p2 show ?thesis by blast
qed

text \<open>
  The claim as stated expects \<open>access_count = 2\<close> after the two calls of its scenario; the
  run below ends with the counter at 1.
\<close>

theorem store_twice_access_count_counterexample:
  "store_memory example_ports 0 1
     ((store_defaults ''agent'' ''user prefers dark mode'')
        \<lparr>arg_importance := Some 0.5, arg_topics := Some [''ui'']\<rparr>)
     \<lparr>memories = [], memory_links = []\<rparr>
   = Inr (\<lparr>memories = [inserted_row 0 1 ''agent'' ''user prefers dark mode'' [22] ''episodic''
                           0.5 [''ui''] None None None None],
           memory_links = []\<rparr>, Created 1 0)
   \<and> store_memory example_ports 0 2 (store_defaults ''agent'' ''user prefers dark mode.'')
       \<lparr>memories = [inserted_row 0 1 ''agent'' ''user prefers dark mode'' [22] ''episodic''
                           0.5 [''ui''] None None None None],
        memory_links = []\<rparr>
   = Inr (\<lparr>memories = [(inserted_row 0 1 ''agent'' ''user prefers dark mode'' [22] ''episodic''
                           0.5 [''ui''] None None None None)\<lparr>access_count := 1\<rparr>],
           memory_links = []\<rparr>, Reinforced 1 ''user prefers dark mode'' (99 / 100))
   \<and> access_count ((inserted_row 0 1 ''agent'' ''user prefers dark mode'' [22::real] ''episodic''
                           0.5 [''ui''] None None None None)\<lparr>access_count := 1\<rparr>) \<noteq> 2"
proof -
  let ?row = "inserted_row 0 1 ''agent'' ''user prefers dark mode'' [22::real] ''episodic''
                           0.5 [''ui''] None None None None"
  have a: "store_memory example_ports 0 1
     ((store_defaults ''agent'' ''user prefers dark mode'')
        \<lparr>arg_importance := Some 0.5, arg_topics := Some [''ui'']\<rparr>)
     \<lparr>memories = [], memory_links = []\<rparr>
   = Inr (\<lparr>memories = [?row], memory_links = []\<rparr>, Created 1 0)"
    by (simp add: store_memory_def store_defaults_def dedup_query_def insert_memory_def
        too_long_def Let_def example_ports_def inserted_row_def)
  have b: "store_memory example_ports 0 2 (store_defaults ''agent'' ''user prefers dark mode.'')
       \<lparr>memories = [] @ [?row], memory_links = []\<rparr>
   = Inr (\<lparr>memories = [] @ [?row\<lparr>access_count := 1\<rparr>], memory_links = []\<rparr>,
          Reinforced 1 (content ?row)
            (similarity example_ports
               (get_embedding example_ports (arg_content (store_defaults ''agent'' ''user prefers dark mode.'')))
               ?row))"
    by (rule store_duplicate_of_last)
       (simp_all add: inserted_row_def store_defaults_def example_similarity)
  have c: "access_count (?row\<lparr>access_count := 1\<rparr>) \<noteq> 2" by simp
  from a b c show ?thesis
    by (simp add: example_similarity store_defaults_def inserted_row_def)
qed

section \<open>Properties of the link manager\<close>

text \<open>
  Claim C6. Two memories without a link, \<^verbatim>\<open>link_memories\<close> called twice on the pair with
  its default arguments: the first call inserts both directions at 0.5; the second call
  hands the default \<^verbatim>\<open>strength = 0.5\<close> to \<^verbatim>\<open>strengthen_link\<close> as the increment, so both
  directions end at \<open>min 1 (0.5 + 0.5) = 1\<close>, not at 0.6. The routine \<^verbatim>\<open>strengthen_link\<close>
  with its own default increment 0.1 gives 0.6 on the same table.
\<close>

theorem link_memories_twice_default_strength:
  "link_memories 0 1 2 link_memories_default_strength
     \<lparr>memories = [inserted_row 0 1 ''agent'' ''a'' [1::real] ''episodic'' 0.5 [] None None None None,
                  inserted_row 0 2 ''agent'' ''b'' [1::real] ''episodic'' 0.5 [] None None None None],
      memory_links = []\<rparr>
   = Inr (\<lparr>memories = [inserted_row 0 1 ''agent'' ''a'' [1::real] ''episodic'' 0.5 [] None None None None,
                  inserted_row 0 2 ''agent'' ''b'' [1::real] ''episodic'' 0.5 [] None None None None],
      memory_links =
        [\<lparr>source_id = 1, target_id = 2, strength = 0.5, link_type = ''association'',
          link_created_at = 0, updated_at = 0\<rparr>,
         \<lparr>source_id = 2, target_id = 1, strength = 0.5, link_type = ''association'',
          link_created_at = 0, updated_at = 0\<rparr>]\<rparr>, (1, 2))
   \<and> link_memories 1 1 2 link_memories_default_strength
     \<lparr>memories = [inserted_row 0 1 ''agent'' ''a'' [1::real] ''episodic'' 0.5 [] None None None None,
                  inserted_row 0 2 ''agent'' ''b'' [1::real] ''episodic'' 0.5 [] None None None None],
      memory_links =
        [\<lparr>source_id = 1, target_id = 2, strength = 0.5, link_type = ''association'',
          link_created_at = 0, updated_at = 0\<rparr>,
         \<lparr>source_id = 2, target_id = 1, strength = 0.5, link_type = ''association'',
          link_created_at = 0, updated_at = 0\<rparr>]\<rparr>
   = Inr (\<lparr>memories = [inserted_row 0 1 ''agent'' ''a'' [1::real] ''episodic'' 0.5 [] None None None None,
                  inserted_row 0 2 ''agent'' ''b'' [1::real] ''episodic'' 0.5 [] None None None None],
      memory_links =
        [\<lparr>source_id = 1, target_id = 2, strength = 1, link_type = ''association'',
          link_created_at = 0, updated_at = 1\<rparr>,
         \<lparr>source_id = 2, target_id = 1, strength = 1, link_type = ''association'',
          link_created_at = 0, updated_at = 1\<rparr>]\<rparr>, (1, 2))
   \<and> strengthen_link 1 1 2 strengthen_link_default_increment
     \<lparr>memories = [inserted_row 0 1 ''agent'' ''a'' [1::real] ''episodic'' 0.5 [] None None None None,
                  inserted_row 0 2 ''agent'' ''b'' [1::real] ''episodic'' 0.5 [] None None None None],
      memory_links =
        [\<lparr>source_id = 1, target_id = 2, strength = 0.5, link_type = ''association'',
          link_created_at = 0, updated_at = 0\<rparr>,
         \<lparr>source_id = 2, target_id = 1, strength = 0.5, link_type = ''association'',
          link_created_at = 0, updated_at = 0\<rparr>]\<rparr>
   = Inr \<lparr>memories = [inserted_row 0 1 ''agent'' ''a'' [1::real] ''episodic'' 0.5 [] None None None None,
                  inserted_row 0 2 ''agent'' ''b'' [1::real] ''episodic'' 0.5 [] None None None None],
      memory_links =
        [\<lparr>source_id = 1, target_id = 2, strength = 0.6, link_type = ''association'',
          link_created_at = 0, updated_at = 1\<rparr>,
         \<lparr>source_id = 2, target_id = 1, strength = 0.6, link_type = ''association'',
          link_created_at = 0, updated_at = 1\<rparr>]\<rparr>"
  by (simp add: link_memories_def strengthen_link_def upsert_link_def inserted_row_def
      link_memories_default_strength_def strengthen_link_default_increment_def Let_def)

section \<open>Properties of the read path\<close>

lemma set_distinct_on: "set (distinct_on k xs) \<subseteq> set xs"
  by (induction k xs rule: distinct_on.induct) auto

lemma distinct_on_strict:
  fixes k :: "'a \<Rightarrow> 'b::linorder"
  shows "sorted (map k xs) \<Longrightarrow> sorted_wrt (\<lambda>a b. k a < k b) (distinct_on k xs)"
proof (induction k xs rule: distinct_on.induct)
  case (1 k)
  then show ?case by simp
next
  case (2 k x)
  then show ?case by simp
next
  case (3 k x y ys)
  show ?case
  proof (cases "k x = k y")
    case True
    from "3.prems" have "sorted (map k (x # ys))" by simp
    with "3.IH"(1)[OF True] True show ?thesis by simp
  next
    case False
    from "3.prems" have s: "sorted (map k (y # ys))" and le: "k x \<le> k y"
      and all: "\<forall>z\<in>set ys. k y \<le> k z" by auto
    from False le have lt: "k x < k y" by simp
    have "\<forall>z\<in>set (distinct_on k (y # ys)). k x < k z"
    proof
      fix z assume "z \<in> set (distinct_on k (y # ys))"
      with set_distinct_on[of k "y # ys"] have "z = y \<or> z \<in> set ys" by auto
      with lt all show "k x < k z" by auto
    qed
    with "3.IH"(2)[OF False s] False show ?thesis by simp
  qed
qed

lemma eval_rows_Inr:
  "eval_rows f xs = Inr ys \<Longrightarrow> map fst ys = xs \<and> (\<forall>p\<in>set ys. f (fst p) = Inr (snd p))"
proof (induction xs arbitrary: ys)
  case Nil
  then show ?case by simp
next
  case (Cons x xs)
  from Cons.prems obtain a rest where a: "f x = Inr a" and r: "eval_rows f xs = Inr rest"
    and ys: "ys = (x, a) # rest"
    by (auto split: sum.splits)
  from Cons.IH[OF r] a ys show ?case by simp
qed

lemma eval_rows_succeeds:
  "\<forall>x\<in>set xs. \<exists>a. f x = Inr a \<Longrightarrow> \<exists>ys. eval_rows f xs = Inr ys"
  by (induction xs) auto

lemma primary_query_set:
  assumes "primary_query P now agent v min_retention memory_types limit ms = Inr rows"
    and "mr \<in> set rows"
  shows "fst mr \<in> set ms \<and> agent_id (fst mr) = agent \<and> \<not> is_deleted (fst mr)
         \<and> retention_of now (fst mr) = Inr (snd mr) \<and> snd mr > min_retention
         \<and> (memory_types = [] \<or> memory_type (fst mr) \<in> set memory_types)"
proof -
  let ?c = "filter (\<lambda>m. agent_id m = agent \<and> \<not> is_deleted m
                          \<and> (memory_types = [] \<or> memory_type m \<in> set memory_types)) ms"
  from assms(1) obtain ev where ev: "eval_rows (retention_of now) ?c = Inr ev"
    and rows: "rows = take limit (sort_key (\<lambda>mr. - (similarity P v (fst mr) * snd mr))
                                    (filter (\<lambda>mr. snd mr > min_retention) ev))"
    unfolding primary_query_def by (auto split: sum.splits)
  from assms(2) have "mr \<in> set (sort_key (\<lambda>mr. - (similarity P v (fst mr) * snd mr))
                                    (filter (\<lambda>mr. snd mr > min_retention) ev))"
    unfolding rows by (rule in_set_takeD)
  then have in_ev: "mr \<in> set ev" and gt: "snd mr > min_retention" by simp_all
  from eval_rows_Inr[OF ev] have fs: "map fst ev = ?c"
    and val: "\<forall>p\<in>set ev. retention_of now (fst p) = Inr (snd p)" by simp_all
  from in_ev have "fst mr \<in> set (map fst ev)" by simp
  then have "fst mr \<in> set ?c" unfolding fs .
  with val in_ev gt show ?thesis by simp
qed

lemma primary_query_sorted:
  assumes "primary_query P now agent v min_retention memory_types limit ms = Inr rows"
  shows "sorted_wrt (\<lambda>a b. similarity P v (fst a) * snd a \<ge> similarity P v (fst b) * snd b) rows"
proof -
  let ?f = "\<lambda>mr :: 'a memory \<times> real. - (similarity P v (fst mr) * snd mr)"
  from assms obtain ev where
    rows: "rows = take limit (sort_key ?f (filter (\<lambda>mr. snd mr > min_retention) ev))"
    unfolding primary_query_def by (auto split: sum.splits)
  let ?c = "filter (\<lambda>mr. snd mr > min_retention) ev"
  have "sorted (map ?f (sort_key ?f ?c))" by (rule sorted_sort_key)
  then have "sorted_wrt (\<lambda>a b. ?f a \<le> ?f b) (sort_key ?f ?c)" by (simp only: sorted_map)
  then have "sorted_wrt (\<lambda>a b. ?f a \<le> ?f b) (take limit (sort_key ?f ?c))"
    by (rule sorted_wrt_take)
  then show ?thesis unfolding rows by simp
qed

lemma assoc_rows_set:
  assumes "ml \<in> set (assoc_rows retrieved_ids limit ms ls)"
  shows "fst ml \<in> set ms \<and> snd ml \<in> set ls \<and> mem_id (fst ml) = target_id (snd ml)
         \<and> source_id (snd ml) \<in> set retrieved_ids \<and> mem_id (fst ml) \<notin> set retrieved_ids
         \<and> \<not> is_deleted (fst ml) \<and> strength (snd ml) > 0.3"
proof -
  let ?c = "filter (\<lambda>ml. mem_id (fst ml) = target_id (snd ml)
                             \<and> source_id (snd ml) \<in> set retrieved_ids
                             \<and> mem_id (fst ml) \<notin> set retrieved_ids
                             \<and> \<not> is_deleted (fst ml)
                             \<and> strength (snd ml) > 0.3)
                   (List.product ms ls)"
  from assms have "ml \<in> set (distinct_on (\<lambda>ml. mem_id (fst ml))
          (sort_key (\<lambda>ml. mem_id (fst ml)) (sort_key (\<lambda>ml. - strength (snd ml)) ?c)))"
    unfolding assoc_rows_def by (rule in_set_takeD)
  then have "ml \<in> set (sort_key (\<lambda>ml. mem_id (fst ml))
       (sort_key (\<lambda>ml. - strength (snd ml)) ?c))" by (rule subsetD[OF set_distinct_on])
  then have "ml \<in> set ?c" by (simp only: set_sort)
  then show ?thesis by (auto simp: mem_Times_iff)
qed

lemma assoc_rows_sorted:
  "sorted_wrt (\<lambda>a b. mem_id (fst a) < mem_id (fst b)) (assoc_rows retrieved_ids limit ms ls)"
  unfolding assoc_rows_def
  by (rule sorted_wrt_take, rule distinct_on_strict, rule sorted_sort_key)

lemma assoc_query_Inr:
  assumes "assoc_query now retrieved_ids limit ms ls = Inr rows"
  shows "map fst rows = assoc_rows retrieved_ids limit ms ls"
    and "\<forall>p\<in>set rows. retention_of now (fst (fst p)) = Inr (snd p)"
  using eval_rows_Inr[OF assms[unfolded assoc_query_def]] by simp_all

lemma update_rows_untouched:
  assumes "update_rows P f rs = Inr rs'"
    and "\<And>r r'. f r = Inr r' \<Longrightarrow> P r' = P r"
    and "m \<in> set rs'" "\<not> P m"
  shows "m \<in> set rs"
  using assms(1,3)
proof (induction rs arbitrary: rs')
  case Nil
  then show ?case by simp
next
  case (Cons r rs)
  from Cons.prems(1) obtain q qs where rs': "rs' = q # qs"
    and q: "(if P r then f r else Inr r) = Inr q" and qs: "update_rows P f rs = Inr qs"
    by (auto split: sum.splits)
  show ?case
  proof (cases "m = q")
    case True
    have "\<not> P r"
    proof
      assume "P r"
      with q have "f r = Inr q" by simp
      from assms(2)[OF this] \<open>P r\<close> True assms(4) show False by simp
    qed
    with q True show ?thesis by simp
  next
    case False
    with Cons.prems(2) rs' have "m \<in> set qs" by simp
    from Cons.IH[OF qs this] show ?thesis by simp
  qed
qed

lemma reinforce_memory_untouched:
  "reinforce_memory now p ms = Inr ms' \<Longrightarrow> m \<in> set ms' \<Longrightarrow> mem_id m \<noteq> p \<Longrightarrow> m \<in> set ms"
  unfolding reinforce_memory_def Let_def
  by (erule update_rows_untouched) (simp_all add: reinforce_set_id)

lemma reinforce_each_untouched:
  "reinforce_each now ids ms = Inr ms' \<Longrightarrow> m \<in> set ms' \<Longrightarrow> mem_id m \<notin> set ids \<Longrightarrow> m \<in> set ms"
proof (induction ids arbitrary: ms)
  case Nil
  then show ?case by simp
next
  case (Cons i ids)
  from Cons.prems(1) obtain ms1 where a: "reinforce_memory now i ms = Inr ms1"
    and b: "reinforce_each now ids ms1 = Inr ms'"
    by (auto split: sum.splits)
  from Cons.prems(3) have "mem_id m \<notin> set ids" "mem_id m \<noteq> i" by auto
  with Cons.IH[OF b Cons.prems(2)] reinforce_memory_untouched[OF a] show ?case by blast
qed

lemma exp_minus_100: "exp (- 100 :: real) < 1 / 20"
proof -
  have "1 + 100 \<le> exp (100 :: real)" by (rule exp_ge_add_one_self)
  then have "inverse (exp (100 :: real)) \<le> inverse 101"
    by (intro le_imp_inverse_le) simp_all
  then show ?thesis by (simp add: exp_minus)
qed

lemma retrieve_memories_Inr:
  fixes d :: "'v db"
  assumes "retrieve_memories P now agent query limit include_associations min_retention
             memory_types d = Inr (d', res)"
  shows "\<exists>mems ms1 assocs.
           primary_query P now agent (get_embedding P query) min_retention memory_types
             (nat limit) (memories d) = Inr mems
         \<and> reinforce_each now (map (\<lambda>mr. mem_id (fst mr)) mems) (memories d) = Inr ms1
         \<and> (if include_associations \<and> map (\<lambda>mr. mem_id (fst mr)) mems \<noteq> []
             then assoc_query now (map (\<lambda>mr. mem_id (fst mr)) mems) (nat limit) ms1
                    (memory_links d)
             else Inr []) = Inr assocs
         \<and> res_memories res = map (primary_row_of P (get_embedding P query)) mems
         \<and> res_associations res = map assoc_row_of assocs"
proof -
  define v where "v = get_embedding P query"
  define pq where "pq = primary_query P now agent v min_retention memory_types (nat limit)
                          (memories d)"
  define aq where "aq = (\<lambda>(mems :: ('v memory \<times> real) list) (ms1 :: 'v memory list).
                      if include_associations \<and> map (\<lambda>mr. mem_id (fst mr)) mems \<noteq> []
                      then assoc_query now (map (\<lambda>mr. mem_id (fst mr)) mems) (nat limit) ms1
                             (memory_links d)
                      else Inr [])"
  have eq: "retrieve_memories P now agent query limit include_associations min_retention
             memory_types d =
      (if limit < 0 then Inl InvalidRowCountInLimit
       else case pq of
          Inl e \<Rightarrow> Inl e
        | Inr mems \<Rightarrow>
           (case reinforce_each now (map (\<lambda>mr. mem_id (fst mr)) mems) (memories d) of
              Inl e \<Rightarrow> Inl e
            | Inr ms1 \<Rightarrow>
               (case aq mems ms1 of
                  Inl e \<Rightarrow> Inl e
                | Inr associations \<Rightarrow>
                   (case reinforce_each now
                           (map (\<lambda>mlr. mem_id (fst (fst mlr))) associations) ms1 of
                      Inl e \<Rightarrow> Inl e
                    | Inr ms2 \<Rightarrow>
                        Inr (d\<lparr>memories := ms2\<rparr>,
                         \<lparr>res_memories = map (primary_row_of P v) mems,
                          res_associations = map assoc_row_of associations,
                          res_query = query,
                          retrieved_count = length mems,
                          association_count = length associations\<rparr>)))))"
    unfolding retrieve_memories_def Let_def pq_def aq_def v_def by (rule refl)
  from assms have a: "(if limit < 0 then Inl InvalidRowCountInLimit
       else case pq of
          Inl e \<Rightarrow> Inl e
        | Inr mems \<Rightarrow>
           (case reinforce_each now (map (\<lambda>mr. mem_id (fst mr)) mems) (memories d) of
              Inl e \<Rightarrow> Inl e
            | Inr ms1 \<Rightarrow>
               (case aq mems ms1 of
                  Inl e \<Rightarrow> Inl e
                | Inr associations \<Rightarrow>
                   (case reinforce_each now
                           (map (\<lambda>mlr. mem_id (fst (fst mlr))) associations) ms1 of
                      Inl e \<Rightarrow> Inl e
                    | Inr ms2 \<Rightarrow>
                        Inr (d\<lparr>memories := ms2\<rparr>,
                         \<lparr>res_memories = map (primary_row_of P v) mems,
                          res_associations = map assoc_row_of associations,
                          res_query = query,
                          retrieved_count = length mems,
                          association_count = length associations\<rparr>))))) = Inr (d', res)"
    by (simp only: eq)
  then have nn: "\<not> limit < 0" by (cases "limit < 0") simp_all
  show ?thesis
  proof (cases pq)
    case (Inl e)
    with a nn show ?thesis by simp
  next
    case p: (Inr mems)
    show ?thesis
    proof (cases "reinforce_each now (map (\<lambda>mr. mem_id (fst mr)) mems) (memories d)")
      case (Inl e)
      with a nn p show ?thesis by simp
    next
      case r1: (Inr ms1)
      show ?thesis
      proof (cases "aq mems ms1")
        case (Inl e)
        with a nn p r1 show ?thesis by simp
      next
        case q: (Inr assocs)
        show ?thesis
        proof (cases "reinforce_each now (map (\<lambda>mlr. mem_id (fst (fst mlr))) assocs) ms1")
          case (Inl e)
          with a nn p r1 q show ?thesis by simp
        next
          case r2: (Inr ms2)
          with a nn p r1 q
          have rr: "res_memories res = map (primary_row_of P v) mems"
            "res_associations res = map assoc_row_of assocs"
            by auto
          show ?thesis
            apply (rule exI[of _ mems], rule exI[of _ ms1], rule exI[of _ assocs])
            apply (intro conjI)
                apply (rule p[unfolded pq_def v_def])
               apply (rule r1)
              apply (rule q[unfolded aq_def])
             apply (rule rr(1)[unfolded v_def])
            apply (rule rr(2))
            done
        qed
      qed
    qed
  qed
qed

text \<open>Two runs of the read path, evaluated step by step.\<close>

lemma retention_of_fresh:
  "last_accessed m = now \<Longrightarrow> retention_of now m = Inr 1"
  using calculate_retention_in_range(1)[of now now "stability m" "importance m"]
  by (simp add: retention_of_def)

lemma retention_of_example_old:
  "retention_of 155520000
     (inserted_row 0 i agent text v mtype 0.5 tps ev ex chan sess) = Inr (exp (- 100))"
proof -
  have c: "max 0 (min 1 (exp (- 100 :: real))) = exp (- 100)" by (simp add: max_def min_def)
  have x: "- ((155520000 - 0) / 86400) / max 1 (0.3 * (1 + 2 * 0.5) * 30) = (- 100 :: real)"
    by simp
  have "calculate_retention 155520000 0.3 0.5 0 = Inr (exp (- 100))"
    using calculate_retention_in_range(1)[of 155520000 0 "0.3" "0.5"] unfolding x c by simp
  then show ?thesis
    by (simp add: retention_of_def inserted_row_def)
qed

lemma retrieve_low_retention_run:
  "retrieve_memories example_ports 155520000 ''agent'' ''q'' 5 True 0.2 []
     \<lparr>memories =
        [inserted_row 155520000 1 ''agent'' ''alpha'' [5] ''episodic'' 0.5 [] None None None None,
         inserted_row 0 2 ''agent'' ''beta'' [4] ''episodic'' 0.5 [] None None None None],
      memory_links =
        [\<lparr>source_id = 1, target_id = 2, strength = 0.6, link_type = ''association'',
          link_created_at = 0, updated_at = 0\<rparr>]\<rparr>
   = Inr (\<lparr>memories =
        [(inserted_row 155520000 1 ''agent'' ''alpha'' [5] ''episodic'' 0.5 [] None None None None)
           \<lparr>access_count := 1\<rparr>,
         (inserted_row 0 2 ''agent'' ''beta'' [4] ''episodic'' 0.5 [] None None None None)
           \<lparr>last_accessed := 155520000, access_count := 1, stability := 0.5\<rparr>],
      memory_links =
        [\<lparr>source_id = 1, target_id = 2, strength = 0.6, link_type = ''association'',
          link_created_at = 0, updated_at = 0\<rparr>]\<rparr>,
      \<lparr>res_memories =
         [\<lparr>r_id = 1, r_content = ''alpha'', r_memory_type = ''episodic'', r_topics = [],
           r_importance = 0.5, r_stability = 0.3, r_created_at = 155520000,
           r_event_date = None, r_last_accessed = 155520000, r_access_count = 0,
           r_similarity = 0.96, r_retention = 1\<rparr>],
       res_associations =
         [\<lparr>a_id = 2, a_content = ''beta'', a_memory_type = ''episodic'', a_topics = [],
           a_importance = 0.5, a_link_strength = 0.6, a_retention = exp (- 100)\<rparr>],
       res_query = ''q'', retrieved_count = 1, association_count = 1\<rparr>)"
proof -
  define now :: real where "now = 155520000"
  define m1 where "m1 = inserted_row (155520000 :: real) 1 ''agent'' ''alpha'' [5::real] ''episodic'' 0.5 [] None None None None"
  define m2 where "m2 = inserted_row (0 :: real) 2 ''agent'' ''beta'' [4::real] ''episodic'' 0.5 [] None None None None"
  define l where "l = \<lparr>source_id = 1, target_id = 2, strength = 0.6, link_type = ''association'',
          link_created_at = 0, updated_at = 0\<rparr>"
  define old :: real where "old = exp (- 100)"
  have r1: "retention_of now m1 = Inr 1"
    by (rule retention_of_fresh) (simp add: m1_def now_def inserted_row_def)
  have r2: "retention_of now m2 = Inr old"
    unfolding m2_def now_def old_def by (rule retention_of_example_old)
  have lt: "\<not> (0.2 < old)" using exp_minus_100 by (simp add: old_def)
  have f1: "mem_id m1 = 1" "agent_id m1 = ''agent''" "\<not> is_deleted m1"
    "access_count m1 = 0" "stability m1 = 0.3" "last_accessed m1 = now"
    by (simp_all add: m1_def now_def inserted_row_def)
  have f2: "mem_id m2 = 2" "agent_id m2 = ''agent''" "\<not> is_deleted m2"
    "access_count m2 = 0" "stability m2 = 0.3" "last_accessed m2 = 0"
    by (simp_all add: m2_def inserted_row_def)
  have fl: "source_id l = 1" "target_id l = 2" "strength l = 0.6"
    by (simp_all add: l_def)
  define mr :: real where "mr = 0.2"
  have pq: "primary_query example_ports now ''agent'' (get_embedding example_ports ''q'') mr [] 5
              [m1, m2] = Inr [(m1, 1)]"
    using lt by (simp add: primary_query_def r1 r2 f1 f2 mr_def)
  have e1: "m1\<lparr>last_accessed := now, access_count := 1, stability := 3 / 10\<rparr> = m1\<lparr>access_count := 1\<rparr>"
    using f1 by simp
  have re1: "reinforce_each now [mem_id m1] [m1, m2] = Inr [m1\<lparr>access_count := 1\<rparr>, m2]"
    by (simp add: reinforce_memory_def reinforce_set_def LEAST_sql_def f1 f2 e1)
  have ar0: "assoc_rows [mem_id m1] 5 [m1\<lparr>access_count := 1\<rparr>, m2] [l] = [(m2, l)]"
    by (simp add: assoc_rows_def f1 f2 fl)
  have aq: "assoc_query now [mem_id m1] 5 [m1\<lparr>access_count := 1\<rparr>, m2] [l] = Inr [((m2, l), old)]"
    by (simp add: assoc_query_def ar0 r2)
  have re2: "reinforce_each now [mem_id m2] [m1\<lparr>access_count := 1\<rparr>, m2]
      = Inr [m1\<lparr>access_count := 1\<rparr>,
             m2\<lparr>last_accessed := now, access_count := 1, stability := 0.5\<rparr>]"
    by (simp add: reinforce_memory_def reinforce_set_def LEAST_sql_def f1 f2 now_def)
  have pr: "primary_row_of example_ports (get_embedding example_ports ''q'') (m1, 1)
       = \<lparr>r_id = 1, r_content = ''alpha'', r_memory_type = ''episodic'', r_topics = [],
           r_importance = 0.5, r_stability = 0.3, r_created_at = 155520000,
           r_event_date = None, r_last_accessed = 155520000, r_access_count = 0,
           r_similarity = 0.96, r_retention = 1\<rparr>"
    by (simp add: primary_row_of_def example_similarity) (simp add: m1_def inserted_row_def)
  have ar: "assoc_row_of ((m2, l), old)
       = \<lparr>a_id = 2, a_content = ''beta'', a_memory_type = ''episodic'', a_topics = [],
           a_importance = 0.5, a_link_strength = 0.6, a_retention = exp (- 100)\<rparr>"
    by (simp add: assoc_row_of_def old_def) (simp add: m2_def l_def inserted_row_def)
  have run: "retrieve_memories example_ports now ''agent'' ''q'' 5 True mr []
     \<lparr>memories = [m1, m2], memory_links = [l]\<rparr>
   = Inr (\<lparr>memories = [m1\<lparr>access_count := 1\<rparr>,
             m2\<lparr>last_accessed := now, access_count := 1, stability := 0.5\<rparr>],
           memory_links = [l]\<rparr>,
      \<lparr>res_memories = [primary_row_of example_ports (get_embedding example_ports ''q'') (m1, 1)],
       res_associations = [assoc_row_of ((m2, l), old)],
       res_query = ''q'', retrieved_count = 1, association_count = 1\<rparr>)"
    by (simp add: retrieve_memories_def Let_def pq re1 aq re2 del: reinforce_each.simps)
  show ?thesis
    using run unfolding pr ar unfolding m1_def m2_def l_def now_def mr_def by simp
qed

lemma retrieve_typed_run:
  "retrieve_memories example_ports 0 ''agent'' ''q'' 5 True 0.2 [''semantic'']
     \<lparr>memories =
        [inserted_row 0 1 ''agent'' ''alpha'' [5] ''semantic'' 0.5 [] None None None None,
         inserted_row 0 2 ''agent'' ''beta'' [4] ''episodic'' 0.5 [] None None None None,
         inserted_row 0 3 ''agent'' ''gamma'' [5] ''episodic'' 0.5 [] None None None None,
         inserted_row 0 4 ''agent'' ''delta'' [1] ''semantic'' 0.5 [] None None None None],
      memory_links =
        [\<lparr>source_id = 1, target_id = 2, strength = 0.4, link_type = ''association'',
          link_created_at = 0, updated_at = 0\<rparr>,
         \<lparr>source_id = 1, target_id = 3, strength = 0.9, link_type = ''association'',
          link_created_at = 0, updated_at = 0\<rparr>]\<rparr>
   = Inr (\<lparr>memories =
        [(inserted_row 0 1 ''agent'' ''alpha'' [5] ''semantic'' 0.5 [] None None None None)
           \<lparr>access_count := 1\<rparr>,
         (inserted_row 0 2 ''agent'' ''beta'' [4] ''episodic'' 0.5 [] None None None None)
           \<lparr>access_count := 1\<rparr>,
         (inserted_row 0 3 ''agent'' ''gamma'' [5] ''episodic'' 0.5 [] None None None None)
           \<lparr>access_count := 1\<rparr>,
         (inserted_row 0 4 ''agent'' ''delta'' [1] ''semantic'' 0.5 [] None None None None)
           \<lparr>access_count := 1\<rparr>],
      memory_links =
        [\<lparr>source_id = 1, target_id = 2, strength = 0.4, link_type = ''association'',
          link_created_at = 0, updated_at = 0\<rparr>,
         \<lparr>source_id = 1, target_id = 3, strength = 0.9, link_type = ''association'',
          link_created_at = 0, updated_at = 0\<rparr>]\<rparr>,
      \<lparr>res_memories =
         [\<lparr>r_id = 4, r_content = ''delta'', r_memory_type = ''semantic'', r_topics = [],
           r_importance = 0.5, r_stability = 0.3, r_created_at = 0,
           r_event_date = None, r_last_accessed = 0, r_access_count = 0,
           r_similarity = 1, r_retention = 1\<rparr>,
          \<lparr>r_id = 1, r_content = ''alpha'', r_memory_type = ''semantic'', r_topics = [],
           r_importance = 0.5, r_stability = 0.3, r_created_at = 0,
           r_event_date = None, r_last_accessed = 0, r_access_count = 0,
           r_similarity = 0.96, r_retention = 1\<rparr>],
       res_associations =
         [\<lparr>a_id = 2, a_content = ''beta'', a_memory_type = ''episodic'', a_topics = [],
           a_importance = 0.5, a_link_strength = 0.4, a_retention = 1\<rparr>,
          \<lparr>a_id = 3, a_content = ''gamma'', a_memory_type = ''episodic'', a_topics = [],
           a_importance = 0.5, a_link_strength = 0.9, a_retention = 1\<rparr>],
       res_query = ''q'', retrieved_count = 2, association_count = 2\<rparr>)"
proof -
  define now :: real where "now = 0"
  define mr :: real where "mr = 0.2"
  define m1 where "m1 = inserted_row (0 :: real) 1 ''agent'' ''alpha'' [5::real] ''semantic'' 0.5 [] None None None None"
  define m2 where "m2 = inserted_row (0 :: real) 2 ''agent'' ''beta'' [4::real] ''episodic'' 0.5 [] None None None None"
  define m3 where "m3 = inserted_row (0 :: real) 3 ''agent'' ''gamma'' [5::real] ''episodic'' 0.5 [] None None None None"
  define m4 where "m4 = inserted_row (0 :: real) 4 ''agent'' ''delta'' [1::real] ''semantic'' 0.5 [] None None None None"
  define l2 where "l2 = \<lparr>source_id = 1, target_id = 2, strength = 0.4, link_type = ''association'',
          link_created_at = 0, updated_at = 0\<rparr>"
  define l3 where "l3 = \<lparr>source_id = 1, target_id = 3, strength = 0.9, link_type = ''association'',
          link_created_at = 0, updated_at = 0\<rparr>"
  define v where "v = get_embedding example_ports ''q''"
  have f1: "mem_id m1 = 1" "agent_id m1 = ''agent''" "\<not> is_deleted m1" "memory_type m1 = ''semantic''"
    "access_count m1 = 0" "stability m1 = 0.3" "last_accessed m1 = now"
    by (simp_all add: m1_def now_def inserted_row_def)
  have f2: "mem_id m2 = 2" "agent_id m2 = ''agent''" "\<not> is_deleted m2" "memory_type m2 = ''episodic''"
    "access_count m2 = 0" "stability m2 = 0.3" "last_accessed m2 = now"
    by (simp_all add: m2_def now_def inserted_row_def)
  have f3: "mem_id m3 = 3" "agent_id m3 = ''agent''" "\<not> is_deleted m3" "memory_type m3 = ''episodic''"
    "access_count m3 = 0" "stability m3 = 0.3" "last_accessed m3 = now"
    by (simp_all add: m3_def now_def inserted_row_def)
  have f4: "mem_id m4 = 4" "agent_id m4 = ''agent''" "\<not> is_deleted m4" "memory_type m4 = ''semantic''"
    "access_count m4 = 0" "stability m4 = 0.3" "last_accessed m4 = now"
    by (simp_all add: m4_def now_def inserted_row_def)
  have fl: "source_id l2 = 1" "target_id l2 = 2" "strength l2 = 0.4"
    "source_id l3 = 1" "target_id l3 = 3" "strength l3 = 0.9"
    by (simp_all add: l2_def l3_def)
  have r: "retention_of now m1 = Inr 1" "retention_of now m2 = Inr 1" "retention_of now m3 = Inr 1"
    "retention_of now m4 = Inr 1"
    by (rule retention_of_fresh, rule f1 f2 f3 f4)+
  have r': "retention_of now (m \<lparr>access_count := 1\<rparr>) = retention_of now m" for m :: "real list memory"
    by (simp add: retention_of_def)
  have s: "similarity example_ports v m1 = 0.96" "similarity example_ports v m4 = 1"
    unfolding v_def by (simp_all add: example_similarity m1_def m4_def inserted_row_def)
  have pq: "primary_query example_ports now ''agent'' v mr [''semantic''] 5 [m1, m2, m3, m4]
              = Inr [(m4, 1), (m1, 1)]"
    by (simp add: primary_query_def r s f1 f2 f3 f4 mr_def)
  have e: "\<And>m::real list memory. last_accessed m = now \<Longrightarrow> stability m = 0.3 \<Longrightarrow>
       m\<lparr>last_accessed := now, access_count := 1, stability := 3 / 10\<rparr> = m\<lparr>access_count := 1\<rparr>"
    by simp
  have re1: "reinforce_each now [mem_id m4, mem_id m1] [m1, m2, m3, m4]
      = Inr [m1\<lparr>access_count := 1\<rparr>, m2, m3, m4\<lparr>access_count := 1\<rparr>]"
    by (simp add: reinforce_memory_def reinforce_set_def LEAST_sql_def f1 f2 f3 f4 e)
  have ar0: "assoc_rows [mem_id m4, mem_id m1] 5
              [m1\<lparr>access_count := 1\<rparr>, m2, m3, m4\<lparr>access_count := 1\<rparr>] [l2, l3]
            = [(m2, l2), (m3, l3)]"
    by (simp add: assoc_rows_def f1 f2 f3 f4 fl)
  have aq: "assoc_query now [mem_id m4, mem_id m1] 5
              [m1\<lparr>access_count := 1\<rparr>, m2, m3, m4\<lparr>access_count := 1\<rparr>] [l2, l3]
            = Inr [((m2, l2), 1), ((m3, l3), 1)]"
    by (simp add: assoc_query_def ar0 r)
  have re2: "reinforce_each now [mem_id m2, mem_id m3]
               [m1\<lparr>access_count := 1\<rparr>, m2, m3, m4\<lparr>access_count := 1\<rparr>]
      = Inr [m1\<lparr>access_count := 1\<rparr>, m2\<lparr>access_count := 1\<rparr>, m3\<lparr>access_count := 1\<rparr>,
             m4\<lparr>access_count := 1\<rparr>]"
    by (simp add: reinforce_memory_def reinforce_set_def LEAST_sql_def f1 f2 f3 f4 e)
  have pr: "primary_row_of example_ports v (m4, 1)
       = \<lparr>r_id = 4, r_content = ''delta'', r_memory_type = ''semantic'', r_topics = [],
           r_importance = 0.5, r_stability = 0.3, r_created_at = 0,
           r_event_date = None, r_last_accessed = 0, r_access_count = 0,
           r_similarity = 1, r_retention = 1\<rparr>"
    "primary_row_of example_ports v (m1, 1)
       = \<lparr>r_id = 1, r_content = ''alpha'', r_memory_type = ''semantic'', r_topics = [],
           r_importance = 0.5, r_stability = 0.3, r_created_at = 0,
           r_event_date = None, r_last_accessed = 0, r_access_count = 0,
           r_similarity = 0.96, r_retention = 1\<rparr>"
    by (simp_all add: primary_row_of_def s) (simp_all add: m1_def m4_def inserted_row_def)
  have ar: "assoc_row_of ((m2, l2), 1)
       = \<lparr>a_id = 2, a_content = ''beta'', a_memory_type = ''episodic'', a_topics = [],
           a_importance = 0.5, a_link_strength = 0.4, a_retention = 1\<rparr>"
    "assoc_row_of ((m3, l3), 1)
       = \<lparr>a_id = 3, a_content = ''gamma'', a_memory_type = ''episodic'', a_topics = [],
           a_importance = 0.5, a_link_strength = 0.9, a_retention = 1\<rparr>"
    by (simp_all add: assoc_row_of_def) (simp_all add: m2_def m3_def l2_def l3_def inserted_row_def)
  have run: "retrieve_memories example_ports now ''agent'' ''q'' 5 True mr [''semantic'']
     \<lparr>memories = [m1, m2, m3, m4], memory_links = [l2, l3]\<rparr>
   = Inr (\<lparr>memories = [m1\<lparr>access_count := 1\<rparr>, m2\<lparr>access_count := 1\<rparr>,
                        m3\<lparr>access_count := 1\<rparr>, m4\<lparr>access_count := 1\<rparr>],
           memory_links = [l2, l3]\<rparr>,
      \<lparr>res_memories = [primary_row_of example_ports v (m4, 1), primary_row_of example_ports v (m1, 1)],
       res_associations = [assoc_row_of ((m2, l2), 1), assoc_row_of ((m3, l3), 1)],
       res_query = ''q'', retrieved_count = 2, association_count = 2\<rparr>)"
    by (simp add: retrieve_memories_def Let_def v_def[symmetric] pq re1 aq re2
          del: reinforce_each.simps)
  show ?thesis
    using run unfolding pr ar unfolding m1_def m2_def m3_def m4_def l2_def l3_def now_def mr_def
    by simp
qed

text \<open>
  A run on a store whose only memory, of importance 0, was last accessed 10000 days before
  the query: \<^verbatim>\<open>EXP\<close> underflows on it, and the search fails.
\<close>

lemma retention_of_example_ancient:
  "retention_of 864000000
     (inserted_row 0 i agent text v mtype 0 tps ev ex chan sess) = Inl NumericValueOutOfRange"
proof -
  have u: "float8_underflows (exp (- (10000 / 9)))"
    by (rule float8_exp_underflows) simp
  have x: "- ((864000000 - 0) / 86400) / 9 = (- (10000 / 9) :: real)" by simp
  have "calculate_retention 864000000 0.3 0 0 = Inl NumericValueOutOfRange"
    unfolding calculate_retention_def Let_def EXP_sql_def using u by (simp add: x)
  then show ?thesis
    by (simp add: retention_of_def inserted_row_def)
qed

lemma retrieve_underflow_run:
  "retrieve_memories example_ports 864000000 ''agent'' ''q'' 5 True 0.2 [] ancient_db
   = Inl NumericValueOutOfRange"
proof -
  define A :: "real list memory" where
    "A = inserted_row 0 1 ''agent'' ''old'' [3] ''episodic'' 0 [] None None None None"
  have fa: "agent_id A = ''agent''" "\<not> is_deleted A" "\<not> is_summary A"
    by (simp_all add: A_def inserted_row_def)
  have ra: "retention_of 864000000 A = Inl NumericValueOutOfRange"
    unfolding A_def by (rule retention_of_example_ancient)
  have "retrieve_memories example_ports 864000000 ''agent'' ''q'' 5 True 0.2 []
          \<lparr>memories = [A], memory_links = []\<rparr>
        = Inl NumericValueOutOfRange"
    by (simp add: retrieve_memories_def primary_query_def fa ra)
  then show ?thesis unfolding A_def ancient_db_def .
qed

text \<open>
  Claim C3, as amended. Every primary memory of a result is a stored memory of the agent
  with \<open>is_deleted = false\<close> and a retention strictly above \<open>min_retention\<close> at the time of
  the query. Every association memory is a stored memory with \<open>is_deleted = false\<close> that is
  not among the primaries and is the target of a link of strength above 0.3 from a primary;
  the association query has no retention filter, so nothing bounds its retention.
\<close>

theorem retrieve_memories_filter:
  fixes d :: "'v db"
  assumes "retrieve_memories P now agent query limit include_associations min_retention
             memory_types d = Inr (d', res)"
  shows "(\<forall>r\<in>set (res_memories res). \<exists>m\<in>set (memories d).
            r = primary_row_of P (get_embedding P query) (m, r_retention r)
            \<and> agent_id m = agent \<and> \<not> is_deleted m
            \<and> retention_of now m = Inr (r_retention r) \<and> min_retention < r_retention r)
       \<and> (\<forall>a\<in>set (res_associations res). \<exists>m\<in>set (memories d). \<exists>l\<in>set (memory_links d).
            a = assoc_row_of ((m, l), a_retention a) \<and> \<not> is_deleted m
            \<and> retention_of now m = Inr (a_retention a)
            \<and> mem_id m \<notin> r_id ` set (res_memories res)
            \<and> source_id l \<in> r_id ` set (res_memories res)
            \<and> target_id l = mem_id m \<and> 0.3 < strength l)"
proof -
  let ?v = "get_embedding P query"
  from retrieve_memories_Inr[OF assms] obtain mems :: "('v memory \<times> real) list"
    and ms1 :: "'v memory list" and assocs :: "(('v memory \<times> link) \<times> real) list" where
    pq: "primary_query P now agent ?v min_retention memory_types (nat limit) (memories d)
           = Inr mems"
    and r1: "reinforce_each now (map (\<lambda>mr. mem_id (fst mr)) mems) (memories d) = Inr ms1"
    and aq: "(if include_associations \<and> map (\<lambda>mr. mem_id (fst mr)) mems \<noteq> []
              then assoc_query now (map (\<lambda>mr. mem_id (fst mr)) mems) (nat limit) ms1
                     (memory_links d)
              else Inr []) = Inr assocs"
    and rm: "res_memories res = map (primary_row_of P ?v) mems"
    and ra: "res_associations res = map assoc_row_of assocs"
    by (elim exE conjE) (rule that, assumption+)
  define ids where "ids = map (\<lambda>mr. mem_id (fst mr)) mems"
  have ids: "r_id ` set (res_memories res) = set ids"
    unfolding rm ids_def by (simp add: image_image primary_row_of_def)
  have p: "\<forall>r\<in>set (res_memories res). \<exists>m\<in>set (memories d).
            r = primary_row_of P ?v (m, r_retention r)
            \<and> agent_id m = agent \<and> \<not> is_deleted m
            \<and> retention_of now m = Inr (r_retention r) \<and> min_retention < r_retention r"
  proof
    fix r assume "r \<in> set (res_memories res)"
    then obtain mr where mr: "mr \<in> set mems" and r: "r = primary_row_of P ?v mr"
      unfolding rm by auto
    have rr: "r_retention r = snd mr" by (simp add: r primary_row_of_def)
    from primary_query_set[OF pq mr]
    have "fst mr \<in> set (memories d)" "agent_id (fst mr) = agent" "\<not> is_deleted (fst mr)"
      "retention_of now (fst mr) = Inr (snd mr)" "min_retention < snd mr" by simp_all
    moreover have "r = primary_row_of P ?v (fst mr, r_retention r)" unfolding rr using r by simp
    ultimately show "\<exists>m\<in>set (memories d).
            r = primary_row_of P ?v (m, r_retention r)
            \<and> agent_id m = agent \<and> \<not> is_deleted m
            \<and> retention_of now m = Inr (r_retention r) \<and> min_retention < r_retention r"
      unfolding rr by blast
  qed
  have a: "\<forall>a\<in>set (res_associations res). \<exists>m\<in>set (memories d). \<exists>l\<in>set (memory_links d).
            a = assoc_row_of ((m, l), a_retention a) \<and> \<not> is_deleted m
            \<and> retention_of now m = Inr (a_retention a)
            \<and> mem_id m \<notin> r_id ` set (res_memories res)
            \<and> source_id l \<in> r_id ` set (res_memories res)
            \<and> target_id l = mem_id m \<and> 0.3 < strength l"
  proof
    fix a assume ain: "a \<in> set (res_associations res)"
    then obtain mlr where mlr: "mlr \<in> set assocs" and am: "a = assoc_row_of mlr"
      unfolding ra by auto
    have ne: "assocs \<noteq> []" using mlr by auto
    have q: "assoc_query now ids (nat limit) ms1 (memory_links d) = Inr assocs"
    proof (cases "include_associations \<and> map (\<lambda>mr. mem_id (fst mr)) mems \<noteq> []")
      case True
      with aq show ?thesis unfolding ids_def by simp
    next
      case False
      with aq have "assocs = []" by (simp only: if_False sum.inject)
      with ne show ?thesis by contradiction
    qed
    note qs = assoc_query_Inr[OF q]
    have ar: "a_retention a = snd mlr" by (simp add: am assoc_row_of_def)
    from mlr have "fst mlr \<in> set (map fst assocs)" by simp
    then have row: "fst mlr \<in> set (assoc_rows ids (nat limit) ms1 (memory_links d))"
      unfolding qs(1) .
    note w = assoc_rows_set[OF row]
    from qs(2) mlr have val: "retention_of now (fst (fst mlr)) = Inr (snd mlr)" by blast
    from w have nin: "mem_id (fst (fst mlr)) \<notin> set ids" by blast
    from w have "fst (fst mlr) \<in> set ms1" by blast
    from reinforce_each_untouched[OF r1[folded ids_def] this nin]
    have ind: "fst (fst mlr) \<in> set (memories d)" .
    have "a = assoc_row_of ((fst (fst mlr), snd (fst mlr)), a_retention a)"
      unfolding ar using am by simp
    moreover from w have "snd (fst mlr) \<in> set (memory_links d)" "\<not> is_deleted (fst (fst mlr))"
      "source_id (snd (fst mlr)) \<in> set ids" "target_id (snd (fst mlr)) = mem_id (fst (fst mlr))"
      "0.3 < strength (snd (fst mlr))" by (blast, blast, blast, simp, blast)
    ultimately show "\<exists>m\<in>set (memories d). \<exists>l\<in>set (memory_links d).
            a = assoc_row_of ((m, l), a_retention a) \<and> \<not> is_deleted m
            \<and> retention_of now m = Inr (a_retention a)
            \<and> mem_id m \<notin> r_id ` set (res_memories res)
            \<and> source_id l \<in> r_id ` set (res_memories res)
            \<and> target_id l = mem_id m \<and> 0.3 < strength l"
      using ind nin val unfolding ids ar by blast
  qed
  from p a show ?thesis by blast
qed

theorem retrieve_memories_filter_witness:
  "\<exists>d' res. retrieve_memories example_ports 155520000 ''agent'' ''q'' 5 True 0.2 []
               low_retention_db = Inr (d', res)
     \<and> (\<exists>r. res_memories res = [r]
          \<and> (\<exists>m\<in>set (memories low_retention_db).
                r = primary_row_of example_ports (get_embedding example_ports ''q'')
                      (m, r_retention r)
                \<and> agent_id m = ''agent'' \<and> \<not> is_deleted m
                \<and> retention_of 155520000 m = Inr (r_retention r) \<and> 0.2 < r_retention r))
     \<and> (\<exists>a. res_associations res = [a]
          \<and> (\<exists>m\<in>set (memories low_retention_db). \<exists>l\<in>set (memory_links low_retention_db).
                a = assoc_row_of ((m, l), a_retention a) \<and> \<not> is_deleted m
                \<and> retention_of 155520000 m = Inr (a_retention a)
                \<and> source_id l \<in> r_id ` set (res_memories res)
                \<and> target_id l = mem_id m \<and> 0.3 < strength l))"
proof -
  note run = retrieve_low_retention_run[folded low_retention_db_def]
  note t = retrieve_memories_filter[OF run]
  let ?r = "\<lparr>r_id = 1, r_content = ''alpha'', r_memory_type = ''episodic'', r_topics = [],
           r_importance = 0.5, r_stability = 0.3, r_created_at = 155520000,
           r_event_date = None, r_last_accessed = 155520000, r_access_count = 0,
           r_similarity = 0.96, r_retention = 1\<rparr>"
  let ?a = "\<lparr>a_id = 2, a_content = ''beta'', a_memory_type = ''episodic'', a_topics = [],
           a_importance = 0.5, a_link_strength = 0.6, a_retention = exp (- 100)\<rparr>"
  from t have p: "\<exists>m\<in>set (memories low_retention_db).
            ?r = primary_row_of example_ports (get_embedding example_ports ''q'')
                   (m, r_retention ?r)
            \<and> agent_id m = ''agent'' \<and> \<not> is_deleted m
            \<and> retention_of 155520000 m = Inr (r_retention ?r) \<and> 0.2 < r_retention ?r"
    by (elim conjE) (erule bspec, simp)
  from t have "\<exists>m\<in>set (memories low_retention_db). \<exists>l\<in>set (memory_links low_retention_db).
            ?a = assoc_row_of ((m, l), a_retention ?a) \<and> \<not> is_deleted m
            \<and> retention_of 155520000 m = Inr (a_retention ?a)
            \<and> mem_id m \<notin> r_id ` set [?r]
            \<and> source_id l \<in> r_id ` set [?r]
            \<and> target_id l = mem_id m \<and> 0.3 < strength l"
    by (elim conjE) (drule bspec[where x = ?a], simp, simp)
  then have a: "\<exists>m\<in>set (memories low_retention_db). \<exists>l\<in>set (memory_links low_retention_db).
            ?a = assoc_row_of ((m, l), a_retention ?a) \<and> \<not> is_deleted m
            \<and> retention_of 155520000 m = Inr (a_retention ?a)
            \<and> source_id l \<in> r_id ` set [?r]
            \<and> target_id l = mem_id m \<and> 0.3 < strength l"
    by blast
  show ?thesis
    apply (rule exI, rule exI, rule conjI, rule run)
    using p a by simp
qed

text \<open>
  The claim as stated bounds the retention of the associations too. In the run below the
  only association has retention \<open>exp (- 100)\<close>, below the \<open>min_retention\<close> 0.2 of the call.
\<close>

theorem retrieve_association_retention_counterexample:
  "map_sum id (res_associations \<circ> snd)
     (retrieve_memories example_ports 155520000 ''agent'' ''q'' 5 True 0.2 [] low_retention_db)
   = Inr [\<lparr>a_id = 2, a_content = ''beta'', a_memory_type = ''episodic'', a_topics = [],
           a_importance = 0.5, a_link_strength = 0.6, a_retention = exp (- 100)\<rparr>]
   \<and> exp (- 100) < (0.2 :: real)"
proof -
  have "exp (- 100) < (0.2 :: real)" using exp_minus_100 by simp
  then show ?thesis
    unfolding retrieve_low_retention_run[folded low_retention_db_def] by simp
qed

text \<open>
  Claim C4, as amended. The primary results are ordered by similarity times retention,
  descending (the query names no further key, so nothing is promised among equal products).
  The association results are ordered by memory identifier, ascending, each memory once.
\<close>

theorem retrieve_memories_order:
  fixes d :: "'v db"
  assumes "retrieve_memories P now agent query limit include_associations min_retention
             memory_types d = Inr (d', res)"
  shows "sorted_wrt (\<lambda>a b. r_similarity b * r_retention b \<le> r_similarity a * r_retention a)
           (res_memories res)
       \<and> sorted_wrt (\<lambda>a b. a_id a < a_id b) (res_associations res)"
proof -
  let ?v = "get_embedding P query"
  from retrieve_memories_Inr[OF assms] obtain mems :: "('v memory \<times> real) list"
    and ms1 :: "'v memory list" and assocs :: "(('v memory \<times> link) \<times> real) list" where
    pq: "primary_query P now agent ?v min_retention memory_types (nat limit) (memories d)
           = Inr mems"
    and aq: "(if include_associations \<and> map (\<lambda>mr. mem_id (fst mr)) mems \<noteq> []
              then assoc_query now (map (\<lambda>mr. mem_id (fst mr)) mems) (nat limit) ms1
                     (memory_links d)
              else Inr []) = Inr assocs"
    and rm: "res_memories res = map (primary_row_of P ?v) mems"
    and ra: "res_associations res = map assoc_row_of assocs"
    by (elim exE conjE) (rule that, assumption+)
  have "sorted_wrt (\<lambda>a b. similarity P ?v (fst a) * snd a \<ge> similarity P ?v (fst b) * snd b) mems"
    using pq by (rule primary_query_sorted)
  then have 1: "sorted_wrt (\<lambda>a b. r_similarity b * r_retention b \<le> r_similarity a * r_retention a)
           (res_memories res)"
    unfolding rm by (simp add: sorted_wrt_map primary_row_of_def)
  have 2: "sorted_wrt (\<lambda>a b. a_id a < a_id b) (res_associations res)"
  proof (cases "include_associations \<and> map (\<lambda>mr. mem_id (fst mr)) mems \<noteq> []")
    case True
    with aq have q: "assoc_query now (map (\<lambda>mr. mem_id (fst mr)) mems) (nat limit) ms1
                       (memory_links d) = Inr assocs" by simp
    have "sorted_wrt (\<lambda>a b. mem_id (fst a) < mem_id (fst b)) (map fst assocs)"
      unfolding assoc_query_Inr(1)[OF q] by (rule assoc_rows_sorted)
    then show ?thesis unfolding ra
      by (simp add: sorted_wrt_map assoc_row_of_def)
  next
    case False
    with aq have "assocs = []" by (simp only: if_False sum.inject)
    then show ?thesis unfolding ra by simp
  qed
  from 1 2 show ?thesis by blast
qed

theorem retrieve_memories_order_witness:
  "\<exists>d' res. retrieve_memories example_ports 0 ''agent'' ''q'' 5 True 0.2 [''semantic''] typed_db
               = Inr (d', res)
     \<and> map r_id (res_memories res) = [4, 1]
     \<and> sorted_wrt (\<lambda>a b. r_similarity b * r_retention b \<le> r_similarity a * r_retention a)
          (res_memories res)
     \<and> map a_id (res_associations res) = [2, 3]
     \<and> sorted_wrt (\<lambda>a b. a_id a < a_id b) (res_associations res)"
proof -
  note run = retrieve_typed_run[folded typed_db_def]
  note t = retrieve_memories_order[OF run]
  show ?thesis
    apply (rule exI, rule exI, rule conjI, rule run)
    using t by simp
qed

text \<open>
  The claim as stated orders the associations by link strength, descending. In the run
  below they come in the order of their identifiers 2, 3, with strengths 0.4 before 0.9.
\<close>

theorem retrieve_association_order_counterexample:
  "map_sum id (map a_id \<circ> res_associations \<circ> snd)
     (retrieve_memories example_ports 0 ''agent'' ''q'' 5 True 0.2 [''semantic''] typed_db)
   = Inr [2, 3]
   \<and> map_sum id (map a_link_strength \<circ> res_associations \<circ> snd)
     (retrieve_memories example_ports 0 ''agent'' ''q'' 5 True 0.2 [''semantic''] typed_db)
   = Inr [0.4, 0.9]"
  unfolding retrieve_typed_run[folded typed_db_def] by simp

section \<open>Properties of the consolidation\<close>

lemma update_rows_Inr:
  "update_rows P f rs = Inr rs' \<Longrightarrow>
   length rs' = length rs
   \<and> (\<forall>k<length rs. if P (rs ! k) then f (rs ! k) = Inr (rs' ! k) else rs' ! k = rs ! k)"
proof (induction rs arbitrary: rs')
  case Nil
  then show ?case by simp
next
  case (Cons r rs)
  from Cons.prems obtain q qs where rs': "rs' = q # qs"
    and q: "(if P r then f r else Inr r) = Inr q" and qs: "update_rows P f rs = Inr qs"
    by (auto split: sum.splits)
  from Cons.IH[OF qs] have l: "length qs = length rs"
    and ih: "\<forall>k<length rs. if P (rs ! k) then f (rs ! k) = Inr (qs ! k) else qs ! k = rs ! k"
    by simp_all
  have "(if P ((r # rs) ! k) then f ((r # rs) ! k) = Inr ((q # qs) ! k)
         else (q # qs) ! k = (r # rs) ! k)" if "k < length (r # rs)" for k
  proof (cases k)
    case 0
    with q show ?thesis by (simp split: if_splits)
  next
    case (Suc j)
    with that ih show ?thesis by simp
  qed
  with l show ?case unfolding rs' by simp
qed

text \<open>What a sweep that returns has done, row by row.\<close>

lemma soft_delete_dormant_rows:
  assumes "soft_delete_dormant now agent ms = Inr ms'"
  shows "length ms' = length ms"
    and "\<forall>k<length ms.
           ms' ! k =
             (ms ! k)\<lparr>is_deleted :=
                is_deleted (ms ! k)
                \<or> (agent_id (ms ! k) = agent \<and> \<not> is_summary (ms ! k)
                    \<and> last_accessed (ms ! k) < now - 30 * 86400
                    \<and> (\<exists>\<rho>. calculate_retention now (stability (ms ! k)) (importance (ms ! k))
                               (last_accessed (ms ! k)) = Inr \<rho> \<and> \<rho> < 0.05))\<rparr>"
    and "\<forall>k<length ms. is_summary (ms ! k) \<longrightarrow> ms' ! k = ms ! k"
proof -
  let ?P = "\<lambda>m :: 'a memory. agent_id m = agent \<and> \<not> is_deleted m \<and> \<not> is_summary m
                      \<and> last_accessed m < now - 30 * 86400"
  let ?f = "\<lambda>m :: 'a memory. case retention_of now m of
               Inl e \<Rightarrow> Inl e
             | Inr r \<Rightarrow> Inr (if r < 0.05 then m\<lparr>is_deleted := True\<rparr> else m)"
  from update_rows_Inr[OF assms[unfolded soft_delete_dormant_def]]
  have l: "length ms' = length ms"
    and u: "\<forall>k<length ms. if ?P (ms ! k) then ?f (ms ! k) = Inr (ms' ! k) else ms' ! k = ms ! k"
    by simp_all
  show "length ms' = length ms" by (rule l)
  have e: "m\<lparr>is_deleted := is_deleted m\<rparr> = m" for m :: "'a memory" by simp
  show "\<forall>k<length ms.
           ms' ! k =
             (ms ! k)\<lparr>is_deleted :=
                is_deleted (ms ! k)
                \<or> (agent_id (ms ! k) = agent \<and> \<not> is_summary (ms ! k)
                    \<and> last_accessed (ms ! k) < now - 30 * 86400
                    \<and> (\<exists>\<rho>. calculate_retention now (stability (ms ! k)) (importance (ms ! k))
                               (last_accessed (ms ! k)) = Inr \<rho> \<and> \<rho> < 0.05))\<rparr>"
  proof (intro allI impI)
    fix k assume k: "k < length ms"
    define m where "m = ms ! k"
    from u k have c: "if ?P m then ?f m = Inr (ms' ! k) else ms' ! k = m"
      unfolding m_def by blast
    show "ms' ! k =
             (ms ! k)\<lparr>is_deleted :=
                is_deleted (ms ! k)
                \<or> (agent_id (ms ! k) = agent \<and> \<not> is_summary (ms ! k)
                    \<and> last_accessed (ms ! k) < now - 30 * 86400
                    \<and> (\<exists>\<rho>. calculate_retention now (stability (ms ! k)) (importance (ms ! k))
                               (last_accessed (ms ! k)) = Inr \<rho> \<and> \<rho> < 0.05))\<rparr>"
      unfolding m_def[symmetric]
    proof (cases "?P m")
      case False
      with c have "ms' ! k = m" by simp
      moreover from False have "(is_deleted m
                \<or> (agent_id m = agent \<and> \<not> is_summary m
                    \<and> last_accessed m < now - 30 * 86400
                    \<and> (\<exists>\<rho>. calculate_retention now (stability m) (importance m)
                               (last_accessed m) = Inr \<rho> \<and> \<rho> < 0.05))) = is_deleted m"
        by blast
      ultimately show "ms' ! k = m\<lparr>is_deleted :=
                is_deleted m
                \<or> (agent_id m = agent \<and> \<not> is_summary m
                    \<and> last_accessed m < now - 30 * 86400
                    \<and> (\<exists>\<rho>. calculate_retention now (stability m) (importance m)
                               (last_accessed m) = Inr \<rho> \<and> \<rho> < 0.05))\<rparr>"
        by (simp only: e)
    next
      case True
      with c have f: "?f m = Inr (ms' ! k)" by simp
      then obtain r where r: "retention_of now m = Inr r"
        and v: "ms' ! k = (if r < 0.05 then m\<lparr>is_deleted := True\<rparr> else m)"
        by (auto split: sum.splits)
      from r have "(\<exists>\<rho>. calculate_retention now (stability m) (importance m)
                               (last_accessed m) = Inr \<rho> \<and> \<rho> < 0.05) = (r < 0.05)"
        by (auto simp: retention_of_def)
      with True have "(is_deleted m
                \<or> (agent_id m = agent \<and> \<not> is_summary m
                    \<and> last_accessed m < now - 30 * 86400
                    \<and> (\<exists>\<rho>. calculate_retention now (stability m) (importance m)
                               (last_accessed m) = Inr \<rho> \<and> \<rho> < 0.05))) = (r < 0.05)"
        by blast
      moreover from True have "m\<lparr>is_deleted := False\<rparr> = m" by simp
      ultimately show "ms' ! k = m\<lparr>is_deleted :=
                is_deleted m
                \<or> (agent_id m = agent \<and> \<not> is_summary m
                    \<and> last_accessed m < now - 30 * 86400
                    \<and> (\<exists>\<rho>. calculate_retention now (stability m) (importance m)
                               (last_accessed m) = Inr \<rho> \<and> \<rho> < 0.05))\<rparr>"
        using v by (cases "r < 0.05") simp_all
    qed
  qed
  show "\<forall>k<length ms. is_summary (ms ! k) \<longrightarrow> ms' ! k = ms ! k"
    using u by auto
qed

lemma soft_delete_dormant_succeeds:
  assumes "\<forall>m\<in>set ms. agent_id m = agent \<and> \<not> is_deleted m \<and> \<not> is_summary m
                        \<and> last_accessed m < now - 30 * 86400
                     \<longrightarrow> (\<exists>\<rho>. retention_of now m = Inr \<rho>)"
  shows "\<exists>ms'. soft_delete_dormant now agent ms = Inr ms'"
  unfolding soft_delete_dormant_def
  by (rule update_rows_succeeds) (use assms in auto)

lemma soft_delete_dormant_same:
  assumes "soft_delete_dormant now agent ms = Inr ms'"
  shows "map mem_id ms' = map mem_id ms" "map summarizes ms' = map summarizes ms"
    "map is_summary ms' = map is_summary ms"
proof -
  note r = soft_delete_dormant_rows[OF assms]
  have "mem_id (ms' ! k) = mem_id (ms ! k) \<and> summarizes (ms' ! k) = summarizes (ms ! k)
        \<and> is_summary (ms' ! k) = is_summary (ms ! k)" if "k < length ms" for k
    using r(2) that by simp
  then show "map mem_id ms' = map mem_id ms" "map summarizes ms' = map summarizes ms"
    "map is_summary ms' = map is_summary ms"
    using r(1) by (simp_all add: list_eq_iff_nth_eq)
qed

lemma soft_delete_dormant_set:
  assumes "soft_delete_dormant now agent ms = Inr ms'" and "r \<in> set ms'"
  shows "\<exists>m\<in>set ms. mem_id r = mem_id m \<and> summarizes r = summarizes m
           \<and> is_summary r = is_summary m"
proof -
  note w = soft_delete_dormant_rows[OF assms(1)]
  from assms(2) obtain k where k: "k < length ms'" and r: "r = ms' ! k"
    by (auto simp: in_set_conv_nth)
  from k w(1) have k': "k < length ms" by simp
  with w(2) r have "mem_id r = mem_id (ms ! k) \<and> summarizes r = summarizes (ms ! k)
           \<and> is_summary r = is_summary (ms ! k)" by simp
  moreover from k' have "ms ! k \<in> set ms" by simp
  ultimately show ?thesis by blast
qed

lemma soft_delete_dormant_ids:
  "soft_delete_dormant now agent ms = Inr ms' \<Longrightarrow> map mem_id ms' = map mem_id ms"
  by (rule soft_delete_dormant_same)

lemma store_memory_skip_dedup:
  assumes "skip_dedup a" and "store_memory P now new_id a d = Inr (d', r)"
  shows "\<exists>row. d' = d\<lparr>memories := memories d @ [row]\<rparr> \<and> r = Created new_id now
          \<and> mem_id row = new_id \<and> summarizes row = [] \<and> \<not> is_summary row
          \<and> \<not> is_deleted row \<and> new_id \<notin> mem_id ` set (memories d)"
proof -
  define imp where "imp = (if auto_score_importance a \<and> arg_importance a = None
                 then score_importance P (arg_content a)
                 else (case arg_importance a of None \<Rightarrow> 0.5 | Some i \<Rightarrow> i))"
  define tps where "tps = (if auto_extract_topics a \<and> (arg_topics a = None \<or> arg_topics a = Some [])
                 then extract_topics P (arg_content a) 5
                 else (case arg_topics a of None \<Rightarrow> [] | Some ts \<Rightarrow> ts))"
  define row where "row = inserted_row now new_id (arg_agent_id a) (arg_content a)
               (get_embedding P (arg_content a)) (arg_memory_type a) imp tps
               (arg_event_date a) (arg_expires_at a) (arg_source_channel a)
               (arg_source_session a)"
  have n: "(if skip_dedup a then None
              else dedup_query P (arg_agent_id a) (get_embedding P (arg_content a))
                     (dedup_threshold a) (memories d)) = None"
    using assms(1) by simp
  have st: "store_memory P now new_id a d =
      (case insert_memory row (memories d) of
         Inl e \<Rightarrow> Inl e
       | Inr ms' \<Rightarrow> Inr (d\<lparr>memories := ms'\<rparr>, Created new_id now))"
    unfolding store_memory_def Let_def n row_def imp_def tps_def by simp
  have id: "mem_id row = new_id" "summarizes row = []" "\<not> is_summary row" "\<not> is_deleted row"
    by (simp_all add: row_def inserted_row_def)
  show ?thesis
  proof (cases "insert_memory row (memories d)")
    case (Inl e)
    with st assms(2) show ?thesis by simp
  next
    case (Inr ms')
    with st assms(2) have r: "d' = d\<lparr>memories := ms'\<rparr>" "r = Created new_id now" by simp_all
    from insert_memory_Inr[OF Inr] id
    have "ms' = memories d @ [row]" "new_id \<notin> mem_id ` set (memories d)" by simp_all
    with r id show ?thesis by blast
  qed
qed

lemma mark_summarized_ids: "map mem_id (mark_summarized ids ms) = map mem_id ms"
  by (simp add: mark_summarized_def comp_def)

lemma mark_summarized_set:
  "r \<in> set (mark_summarized ids ms) \<Longrightarrow>
   \<exists>m\<in>set ms. mem_id r = mem_id m \<and> summarizes r = summarizes m
      \<and> (is_summary m \<or> mem_id m \<in> set ids \<longrightarrow> is_summary r)"
  by (auto simp: mark_summarized_def)

lemma mark_summarized_Nil: "mark_summarized [] ms = ms"
  by (simp add: mark_summarized_def)

lemma mark_summarized_append:
  "mark_summarized ids (xs @ ys) = mark_summarized ids xs @ mark_summarized ids ys"
  by (simp add: mark_summarized_def)

lemma mark_summarized_twice:
  "mark_summarized b (mark_summarized a ms) = mark_summarized (a @ b) ms"
  by (induction ms) (auto simp: mark_summarized_def)

lemma mark_summarized_fresh:
  "\<forall>r\<in>set rs. mem_id r \<notin> set ids \<Longrightarrow> mark_summarized ids rs = rs"
  by (induction rs) (auto simp: mark_summarized_def)

lemma ids_of_map: "mem_id ` set ms = set (map mem_id ms)"
  by simp

text \<open>One round of the loop, seen from the consolidating transaction.\<close>

lemma compress_round:
  fixes view :: "'v memory list"
  assumes fresh: "mem_id row \<notin> mem_id ` set view"
    and row: "summarizes row = []"
    and ex: "set ids \<subseteq> mem_id ` set view"
  defines "view1 \<equiv> mark_summarized ids (view @ [row])"
  shows "map mem_id view1 = map mem_id view @ [mem_id row]"
    and "mem_id row \<in> mem_id ` set view1 \<and> (\<forall>r\<in>set view1. mem_id r = mem_id row \<longrightarrow> summarizes r = [])"
    and "\<forall>i\<in>set ids. i \<in> mem_id ` set view1 \<and> (\<forall>r\<in>set view1. mem_id r = i \<longrightarrow> is_summary r)"
    and "\<And>s. s \<in> mem_id ` set view \<and> (\<forall>r\<in>set view. mem_id r = s \<longrightarrow> summarizes r = [])
          \<Longrightarrow> s \<in> mem_id ` set view1 \<and> (\<forall>r\<in>set view1. mem_id r = s \<longrightarrow> summarizes r = [])"
    and "\<And>i. i \<in> mem_id ` set view \<and> (\<forall>r\<in>set view. mem_id r = i \<longrightarrow> is_summary r)
          \<Longrightarrow> i \<in> mem_id ` set view1 \<and> (\<forall>r\<in>set view1. mem_id r = i \<longrightarrow> is_summary r)"
proof -
  show a: "map mem_id view1 = map mem_id view @ [mem_id row]"
    by (simp add: view1_def mark_summarized_ids)
  then have ids1: "mem_id ` set view1 = insert (mem_id row) (mem_id ` set view)"
    unfolding ids_of_map by simp
  have src: "\<exists>m\<in>set (view @ [row]). mem_id r = mem_id m \<and> summarizes r = summarizes m
      \<and> (is_summary m \<or> mem_id m \<in> set ids \<longrightarrow> is_summary r)" if "r \<in> set view1" for r
    using that unfolding view1_def by (rule mark_summarized_set)
  show "mem_id row \<in> mem_id ` set view1 \<and> (\<forall>r\<in>set view1. mem_id r = mem_id row \<longrightarrow> summarizes r = [])"
  proof (intro conjI ballI impI)
    show "mem_id row \<in> mem_id ` set view1" unfolding ids1 by simp
  next
    fix r assume "r \<in> set view1" "mem_id r = mem_id row"
    with src[of r] fresh row show "summarizes r = []" by auto
  qed
  show "\<forall>i\<in>set ids. i \<in> mem_id ` set view1 \<and> (\<forall>r\<in>set view1. mem_id r = i \<longrightarrow> is_summary r)"
  proof (intro conjI ballI impI)
    fix i assume "i \<in> set ids"
    with ex show "i \<in> mem_id ` set view1" unfolding ids1 by auto
  next
    fix i r assume "i \<in> set ids" "r \<in> set view1" "mem_id r = i"
    with src[of r] show "is_summary r" by auto
  qed
  show "s \<in> mem_id ` set view1 \<and> (\<forall>r\<in>set view1. mem_id r = s \<longrightarrow> summarizes r = [])"
    if h: "s \<in> mem_id ` set view \<and> (\<forall>r\<in>set view. mem_id r = s \<longrightarrow> summarizes r = [])" for s
  proof (intro conjI ballI impI)
    show "s \<in> mem_id ` set view1" using h unfolding ids1 by simp
  next
    fix r assume "r \<in> set view1" "mem_id r = s"
    with src[of r] h row show "summarizes r = []" by auto
  qed
  show "i \<in> mem_id ` set view1 \<and> (\<forall>r\<in>set view1. mem_id r = i \<longrightarrow> is_summary r)"
    if h: "i \<in> mem_id ` set view \<and> (\<forall>r\<in>set view. mem_id r = i \<longrightarrow> is_summary r)" for i
  proof (intro conjI ballI impI)
    show "i \<in> mem_id ` set view1" using h unfolding ids1 by simp
  next
    fix r assume r: "r \<in> set view1" "mem_id r = i"
    have "i \<noteq> mem_id row"
    proof
      assume "i = mem_id row"
      with h have "mem_id row \<in> mem_id ` set view" by simp
      with fresh show False by contradiction
    qed
    with src[of r] r h show "is_summary r" by auto
  qed
qed

lemma compress_groups_result:
  fixes view comm :: "'v db"
  assumes run: "compress_groups P gen agent groups view comm acc = Inr (view', comm_end, acc')"
    and same: "map mem_id (memories view) = map mem_id (memories comm)"
    and known: "\<forall>tg\<in>set groups. f_id ` set (snd tg) \<subseteq> mem_id ` set (memories view)"
  shows "\<exists>new rows. acc' = acc @ new
          \<and> map c_topic new = map fst (filter (\<lambda>tg. 3 \<le> length (snd tg)) groups)
          \<and> map mem_id (memories view') = map mem_id (memories view) @ rows
          \<and> memory_links view' = memory_links view
          \<and> (\<forall>e\<in>set new.
                (c_summary_id e \<in> mem_id ` set (memories view')
                 \<and> (\<forall>r\<in>set (memories view'). mem_id r = c_summary_id e \<longrightarrow> summarizes r = []))
                \<and> 3 \<le> length (c_original_ids e) \<and> c_count e = length (c_original_ids e)
                \<and> (\<forall>i\<in>set (c_original_ids e).
                      i \<in> mem_id ` set (memories view')
                      \<and> (\<forall>r\<in>set (memories view'). mem_id r = i \<longrightarrow> is_summary r)))
          \<and> (\<forall>s. s \<in> mem_id ` set (memories view)
                    \<and> (\<forall>r\<in>set (memories view). mem_id r = s \<longrightarrow> summarizes r = [])
                 \<longrightarrow> s \<in> mem_id ` set (memories view')
                    \<and> (\<forall>r\<in>set (memories view'). mem_id r = s \<longrightarrow> summarizes r = []))
          \<and> (\<forall>i. i \<in> mem_id ` set (memories view)
                    \<and> (\<forall>r\<in>set (memories view). mem_id r = i \<longrightarrow> is_summary r)
                 \<longrightarrow> i \<in> mem_id ` set (memories view')
                    \<and> (\<forall>r\<in>set (memories view'). mem_id r = i \<longrightarrow> is_summary r))"
proof -
  define Pp where "Pp = (\<lambda>(ms :: 'v memory list) s.
      s \<in> mem_id ` set ms \<and> (\<forall>r\<in>set ms. mem_id r = s \<longrightarrow> summarizes r = []))"
  define Qq where "Qq = (\<lambda>(ms :: 'v memory list) i.
      i \<in> mem_id ` set ms \<and> (\<forall>r\<in>set ms. mem_id r = i \<longrightarrow> is_summary r))"
  define good where "good = (\<lambda>(e :: compressed_entry) (ms :: 'v memory list).
      Pp ms (c_summary_id e) \<and> 3 \<le> length (c_original_ids e)
      \<and> c_count e = length (c_original_ids e) \<and> (\<forall>i\<in>set (c_original_ids e). Qq ms i))"
  have main: "\<exists>new rows. acc' = acc @ new
          \<and> map c_topic new = map fst (filter (\<lambda>tg. 3 \<le> length (snd tg)) groups)
          \<and> map mem_id (memories view') = map mem_id (memories view) @ rows
          \<and> memory_links view' = memory_links view
          \<and> (\<forall>e\<in>set new. good e (memories view'))
          \<and> (\<forall>s. Pp (memories view) s \<longrightarrow> Pp (memories view') s)
          \<and> (\<forall>i. Qq (memories view) i \<longrightarrow> Qq (memories view') i)"
    using run same known
  proof (induction groups arbitrary: view comm acc)
    case Nil
    then show ?case by simp
  next
    case (Cons tg groups)
    obtain topic group_mems where tg: "tg = (topic, group_mems)" by (cases tg)
    show ?case
    proof (cases "3 \<le> length group_mems")
      case False
      with Cons.prems(1) tg
      have r: "compress_groups P gen agent groups view comm acc = Inr (view', comm_end, acc')" by simp
      from Cons.prems(3) have k: "\<forall>tg\<in>set groups. f_id ` set (snd tg) \<subseteq> mem_id ` set (memories view)"
        by simp
      from Cons.IH[OF r Cons.prems(2) k] False tg show ?thesis by simp
    next
      case True
      define a where "a = (store_defaults agent (summarize_memories P group_mems))
                      \<lparr>arg_memory_type := ''semantic'', arg_importance := Some 0.7,
                       arg_topics := Some [topic], skip_dedup := True\<rparr>"
      define nid where "nid = fst (gen (length acc))"
      define tm where "tm = snd (gen (length acc))"
      have sk: "skip_dedup a" by (simp add: a_def)
      show ?thesis
      proof (cases "store_memory P tm nid a comm")
        case (Inl e)
        with Cons.prems(1) tg True show ?thesis
          by (simp add: Let_def a_def nid_def tm_def)
      next
        case (Inr p)
        obtain comm' stored where p: "p = (comm', stored)" by (cases p)
        from store_memory_skip_dedup[OF sk Inr[unfolded p]] obtain row where
          c': "comm' = comm\<lparr>memories := memories comm @ [row]\<rparr>"
          and st: "stored = Created nid tm"
          and row: "mem_id row = nid" "summarizes row = []"
          and fresh: "nid \<notin> mem_id ` set (memories comm)" by blast
        define ids where "ids = map f_id group_mems"
        define view1 where "view1 = view\<lparr>memories :=
                               mark_summarized ids (memories view @ [row])\<rparr>"
        define e where "e = \<lparr>c_topic = topic, c_count = length group_mems,
                               c_summary_id = nid, c_original_ids = ids\<rparr>"
        have dr: "drop (length (memories comm)) (memories comm') = [row]"
          by (simp add: c')
        from Cons.prems(1) tg True Inr p st dr
        have r: "compress_groups P gen agent groups view1 comm' (acc @ [e]) = Inr (view', comm_end, acc')"
          by (simp add: Let_def a_def[symmetric] nid_def[symmetric] tm_def[symmetric]
                view1_def ids_def e_def)
        have fresh': "mem_id row \<notin> mem_id ` set (memories view)"
          using fresh row Cons.prems(2) unfolding ids_of_map by simp
        have ex: "set ids \<subseteq> mem_id ` set (memories view)"
          using Cons.prems(3) tg by (simp add: ids_def)
        note rd = compress_round[OF fresh' row(2) ex]
        have m1: "memories view1 = mark_summarized ids (memories view @ [row])"
          by (simp add: view1_def)
        have i1: "map mem_id (memories view1) = map mem_id (memories view) @ [nid]"
          using rd(1) row unfolding m1 by simp
        have same1: "map mem_id (memories view1) = map mem_id (memories comm')"
          unfolding i1 c' using Cons.prems(2) row by simp
        have sub: "mem_id ` set (memories view) \<subseteq> mem_id ` set (memories view1)"
          unfolding ids_of_map i1 by auto
        have k1: "\<forall>tg\<in>set groups. f_id ` set (snd tg) \<subseteq> mem_id ` set (memories view1)"
        proof
          fix x assume "x \<in> set groups"
          with Cons.prems(3) have "f_id ` set (snd x) \<subseteq> mem_id ` set (memories view)" by simp
          with sub show "f_id ` set (snd x) \<subseteq> mem_id ` set (memories view1)"
            by (rule subset_trans[rotated])
        qed
        from Cons.IH[OF r same1 k1] obtain new rows where
          n1: "acc' = (acc @ [e]) @ new"
          and n2: "map c_topic new = map fst (filter (\<lambda>tg. 3 \<le> length (snd tg)) groups)"
          and n3: "map mem_id (memories view') = map mem_id (memories view1) @ rows"
          and n4: "memory_links view' = memory_links view1"
          and n5: "\<forall>e\<in>set new. good e (memories view')"
          and n6: "\<forall>s. Pp (memories view1) s \<longrightarrow> Pp (memories view') s"
          and n7: "\<forall>i. Qq (memories view1) i \<longrightarrow> Qq (memories view') i"
          by blast
        have g1: "good e (memories view1)"
          unfolding good_def Pp_def Qq_def m1 using rd(2,3) True row
          by (simp add: e_def ids_def)
        have ge: "good e (memories view')"
          using g1 n6 n7 unfolding good_def by blast
        have p1: "\<forall>s. Pp (memories view) s \<longrightarrow> Pp (memories view1) s"
          unfolding Pp_def m1 using rd(4) by blast
        have q1: "\<forall>i. Qq (memories view) i \<longrightarrow> Qq (memories view1) i"
          unfolding Qq_def m1 using rd(5) by blast
        have "acc' = acc @ (e # new)" using n1 by simp
        moreover have "map c_topic (e # new)
            = map fst (filter (\<lambda>tg. 3 \<le> length (snd tg)) (tg # groups))"
          using n2 True tg by (simp add: e_def)
        moreover have "map mem_id (memories view') = map mem_id (memories view) @ (nid # rows)"
          using n3 i1 by simp
        moreover have "memory_links view' = memory_links view"
          using n4 by (simp add: view1_def)
        moreover have "\<forall>x\<in>set (e # new). good x (memories view')"
          using ge n5 by simp
        moreover have "\<forall>s. Pp (memories view) s \<longrightarrow> Pp (memories view') s"
          using p1 n6 by blast
        moreover have "\<forall>i. Qq (memories view) i \<longrightarrow> Qq (memories view') i"
          using q1 n7 by blast
        ultimately show ?thesis by blast
      qed
    qed
  qed
  then show ?thesis unfolding good_def Pp_def Qq_def .
qed

lemma group_append_keys:
  "map fst (group_append t m gs)
     = (if t \<in> set (map fst gs) then map fst gs else map fst gs @ [t])"
proof (induction gs)
  case Nil
  then show ?case by simp
next
  case (Cons a gs)
  obtain k g where a: "a = (k, g)" by (cases a)
  show ?case
  proof (cases "k = t")
    case True
    then show ?thesis by (simp add: a)
  next
    case False
    then show ?thesis using Cons.IH by (simp add: a)
  qed
qed

lemma group_append_members:
  "set (concat (map snd (group_append t m gs))) = insert m (set (concat (map snd gs)))"
proof (induction gs)
  case Nil
  then show ?case by simp
next
  case (Cons a gs)
  obtain k g where a: "a = (k, g)" by (cases a)
  show ?case
  proof (cases "k = t")
    case True
    have "group_append t m (a # gs) = (k, g @ [m]) # gs" using True by (simp add: a)
    then show ?thesis by (simp add: a)
  next
    case False
    have "group_append t m (a # gs) = (k, g) # group_append t m gs" using False by (simp add: a)
    then have "set (concat (map snd (group_append t m (a # gs))))
        = set g \<union> set (concat (map snd (group_append t m gs)))" by simp
    also have "\<dots> = set g \<union> insert m (set (concat (map snd gs)))" by (simp only: Cons.IH)
    also have "\<dots> = insert m (set (concat (map snd (a # gs))))" by (simp add: a)
    finally show ?thesis .
  qed
qed

lemma group_append_sizes:
  "distinct (map fst gs) \<Longrightarrow>
   map (\<lambda>tg. (fst tg, length (snd tg))) (group_append t m gs)
     = (if t \<in> set (map fst gs)
        then map (\<lambda>tg. (fst tg, length (snd tg) + (if fst tg = t then 1 else 0))) gs
        else map (\<lambda>tg. (fst tg, length (snd tg))) gs @ [(t, 1)])"
proof (induction gs)
  case Nil
  then show ?case by simp
next
  case (Cons a gs)
  obtain k g where a: "a = (k, g)" by (cases a)
  show ?case
  proof (cases "k = t")
    case True
    with Cons.prems a have "\<forall>x\<in>set gs. fst x \<noteq> t" by auto
    then have "map (\<lambda>tg. (fst tg, length (snd tg) + (if fst tg = t then 1 else 0))) gs
        = map (\<lambda>tg. (fst tg, length (snd tg))) gs" by (induction gs) auto
    with True a show ?thesis by simp
  next
    case False
    with Cons a show ?thesis by auto
  qed
qed

lemma topic_groups_of_pairs:
  fixes fading :: "fading_row list"
  shows "topic_groups_of fading
     = foldl (\<lambda>gs tm. group_append (fst tm) (snd tm) gs) []
         (concat (map (\<lambda>m. map (\<lambda>t. (t, m)) (f_topics m)) fading))"
proof -
  have inner: "foldl (\<lambda>gs tm. group_append (fst tm) (snd tm) gs) acc (map (\<lambda>t. (t, m)) ts)
       = foldl (\<lambda>gs topic. group_append topic m gs) acc ts"
    for acc :: "(string \<times> fading_row list) list" and m :: fading_row and ts
    by (induction ts arbitrary: acc) auto
  have "foldl (\<lambda>groups mem. foldl (\<lambda>gs topic. group_append topic mem gs) groups (f_topics mem))
          acc fading
      = foldl (\<lambda>gs tm. group_append (fst tm) (snd tm) gs) acc
         (concat (map (\<lambda>m. map (\<lambda>t. (t, m)) (f_topics m)) fading))"
    for acc :: "(string \<times> fading_row list) list"
    by (induction fading arbitrary: acc) (auto simp: inner)
  then show ?thesis unfolding topic_groups_of_def .
qed

lemma pairs_topics:
  "map fst (concat (map (\<lambda>m. map (\<lambda>t. (t, m)) (f_topics m)) fading))
     = concat (map f_topics fading)"
  by (induction fading) (auto simp: comp_def)

lemma pairs_members:
  "snd ` set (concat (map (\<lambda>m. map (\<lambda>t. (t, m)) (f_topics m)) fading)) \<subseteq> set fading"
  by (induction fading) auto

lemma grouped_pairs:
  fixes pairs :: "(string \<times> 'a) list"
  defines "gs \<equiv> foldl (\<lambda>gs tm. group_append (fst tm) (snd tm) gs) [] pairs"
  shows "map fst gs = rev (remdups (rev (map fst pairs)))"
    and "set (concat (map snd gs)) = snd ` set pairs"
    and "map (\<lambda>tg. (fst tg, length (snd tg))) gs
           = map (\<lambda>k. (k, count_list (map fst pairs) k)) (rev (remdups (rev (map fst pairs))))"
proof -
  have "map fst (foldl (\<lambda>gs tm. group_append (fst tm) (snd tm) gs) [] pairs)
          = rev (remdups (rev (map fst pairs)))
      \<and> set (concat (map snd (foldl (\<lambda>gs tm. group_append (fst tm) (snd tm) gs) [] pairs)))
          = snd ` set pairs
      \<and> map (\<lambda>tg. (fst tg, length (snd tg)))
            (foldl (\<lambda>gs tm. group_append (fst tm) (snd tm) gs) [] pairs)
          = map (\<lambda>k. (k, count_list (map fst pairs) k)) (rev (remdups (rev (map fst pairs))))"
  proof (induction pairs rule: rev_induct)
    case Nil
    then show ?case by simp
  next
    case (snoc p ps)
    define g where "g = foldl (\<lambda>gs tm. group_append (fst tm) (snd tm) gs) [] ps"
    define ts where "ts = map fst ps"
    define ks where "ks = rev (remdups (rev ts))"
    from snoc have k: "map fst g = ks" and m: "set (concat (map snd g)) = snd ` set ps"
      and z: "map (\<lambda>tg. (fst tg, length (snd tg))) g = map (\<lambda>k. (k, count_list ts k)) ks"
      unfolding g_def ts_def ks_def by blast+
    have dk: "distinct (map fst g)" unfolding k ks_def by simp
    have sk: "set ks = set ts" unfolding ks_def by simp
    have f: "foldl (\<lambda>gs tm. group_append (fst tm) (snd tm) gs) [] (ps @ [p])
               = group_append (fst p) (snd p) g"
      unfolding g_def by simp
    have ks': "rev (remdups (rev (map fst (ps @ [p]))))
                 = (if fst p \<in> set ts then ks else ks @ [fst p])"
      unfolding ks_def ts_def by simp
    have 1: "map fst (group_append (fst p) (snd p) g) = rev (remdups (rev (map fst (ps @ [p]))))"
      unfolding ks' group_append_keys k sk by simp
    have 2: "set (concat (map snd (group_append (fst p) (snd p) g))) = snd ` set (ps @ [p])"
      unfolding group_append_members m by simp
    have 3: "map (\<lambda>tg. (fst tg, length (snd tg))) (group_append (fst p) (snd p) g)
          = map (\<lambda>k. (k, count_list (map fst (ps @ [p])) k))
              (rev (remdups (rev (map fst (ps @ [p])))))"
    proof (cases "fst p \<in> set ts")
      case True
      have "map (\<lambda>tg. (fst tg, length (snd tg) + (if fst tg = fst p then 1 else 0))) g
          = map (\<lambda>kn. (fst kn, snd kn + (if fst kn = fst p then 1 else 0)))
              (map (\<lambda>tg. (fst tg, length (snd tg))) g)"
        by (simp add: comp_def)
      also have "\<dots> = map (\<lambda>k. (k, count_list ts k + (if k = fst p then 1 else 0))) ks"
        unfolding z by (simp add: comp_def)
      also have "\<dots> = map (\<lambda>k. (k, count_list (map fst (ps @ [p])) k)) ks"
        by (simp add: ts_def)
      finally show ?thesis
        unfolding ks' group_append_sizes[OF dk] k sk using True by simp
    next
      case False
      then have c0: "count_list ts (fst p) = 0" by (simp add: count_list_0_iff)
      have "map (\<lambda>k. (k, count_list (map fst (ps @ [p])) k)) ks
          = map (\<lambda>k. (k, count_list ts k)) ks"
        using False sk by (auto simp: ts_def)
      then show ?thesis
        unfolding ks' group_append_sizes[OF dk] k sk using False c0 z
        by (simp add: ts_def)
    qed
    from 1 2 3 show ?case unfolding f by blast
  qed
  then show "map fst gs = rev (remdups (rev (map fst pairs)))"
    and "set (concat (map snd gs)) = snd ` set pairs"
    and "map (\<lambda>tg. (fst tg, length (snd tg))) gs
           = map (\<lambda>k. (k, count_list (map fst pairs) k)) (rev (remdups (rev (map fst pairs))))"
    unfolding gs_def by blast+
qed

lemma fading_query_ids:
  assumes "fading_query now agent ms = Inr fading"
  shows "f_id ` set fading \<subseteq> mem_id ` set ms"
proof -
  let ?c = "filter (\<lambda>m. agent_id m = agent \<and> \<not> is_deleted m \<and> \<not> is_summary m) ms"
  from assms obtain ev where ev: "eval_rows (retention_of now) ?c = Inr ev"
    and f: "fading = map (\<lambda>mr. \<lparr>f_id = mem_id (fst mr), f_content = content (fst mr),
                          f_memory_type = memory_type (fst mr), f_topics = topics (fst mr),
                          f_retention = snd mr, f_created_at = created_at (fst mr)\<rparr>)
                 (filter (\<lambda>mr. snd mr < 0.2) ev)"
    unfolding fading_query_def by (auto split: sum.splits)
  from eval_rows_Inr[OF ev] have "map fst ev = ?c" by simp
  then have "set (map fst ev) \<subseteq> set ms" by simp
  then have "\<forall>mr\<in>set ev. fst mr \<in> set ms" by auto
  then show ?thesis unfolding f by auto
qed

lemma topic_groups_members:
  fixes fading :: "fading_row list"
  assumes "tg \<in> set (topic_groups_of fading)"
  shows "set (snd tg) \<subseteq> set fading"
proof -
  let ?pairs = "concat (map (\<lambda>m. map (\<lambda>t. (t, m)) (f_topics m)) fading)"
  have "set (snd tg) \<subseteq> set (concat (map snd (topic_groups_of fading)))"
    using assms by auto
  also have "\<dots> = snd ` set ?pairs"
    unfolding topic_groups_of_pairs by (rule grouped_pairs(2))
  also have "\<dots> \<subseteq> set fading" by (rule pairs_members)
  finally show ?thesis .
qed

lemma topic_groups_order:
  fixes fading :: "fading_row list"
  shows "map fst (filter (\<lambda>tg. 3 \<le> length (snd tg)) (topic_groups_of fading))
     = filter (\<lambda>t. 3 \<le> count_list (concat (map f_topics fading)) t)
         (rev (remdups (rev (concat (map f_topics fading)))))"
proof -
  let ?pairs = "concat (map (\<lambda>m. map (\<lambda>t. (t, m)) (f_topics m)) fading)"
  let ?ts = "concat (map f_topics fading)"
  let ?gs = "topic_groups_of fading"
  have z: "map (\<lambda>tg. (fst tg, length (snd tg))) ?gs
           = map (\<lambda>k. (k, count_list ?ts k)) (rev (remdups (rev ?ts)))"
    unfolding topic_groups_of_pairs using grouped_pairs(3)[of ?pairs]
    unfolding pairs_topics .
  have "map fst (filter (\<lambda>tg. 3 \<le> length (snd tg)) ?gs)
      = map fst (filter (\<lambda>kn. 3 \<le> snd kn) (map (\<lambda>tg. (fst tg, length (snd tg))) ?gs))"
    by (simp add: filter_map comp_def)
  also have "\<dots> = map fst (filter (\<lambda>kn. 3 \<le> snd kn)
                       (map (\<lambda>k. (k, count_list ?ts k)) (rev (remdups (rev ?ts)))))"
    by (simp only: z)
  also have "\<dots> = filter (\<lambda>t. 3 \<le> count_list ?ts t) (rev (remdups (rev ?ts)))"
    by (simp add: filter_map comp_def)
  finally show ?thesis .
qed

text \<open>The table the consolidating transaction sees after the loop: the marks and the summaries.\<close>

lemma compress_groups_view:
  fixes view comm :: "'v db"
  assumes run: "compress_groups P gen agent groups view comm acc = Inr (view', comm_end, acc')"
    and same: "map mem_id (memories view) = map mem_id (memories comm)"
    and known: "\<forall>tg\<in>set groups. f_id ` set (snd tg) \<subseteq> mem_id ` set (memories view)"
  shows "\<exists>new news. acc' = acc @ new
          \<and> memories view'
              = mark_summarized (concat (map c_original_ids new)) (memories view) @ news
          \<and> map mem_id news = map c_summary_id new
          \<and> (\<forall>r\<in>set news. \<not> is_deleted r \<and> \<not> is_summary r)
          \<and> set (concat (map c_original_ids new)) \<subseteq> (\<Union>tg\<in>set groups. f_id ` set (snd tg))"
  using run same known
proof (induction groups arbitrary: view comm acc)
  case Nil
  then have "acc' = acc @ []" "memories view' = mark_summarized [] (memories view) @ []"
    by (simp_all add: mark_summarized_Nil)
  then show ?case by fastforce
next
  case (Cons tg groups)
  obtain topic group_mems where tg: "tg = (topic, group_mems)" by (cases tg)
  show ?case
  proof (cases "3 \<le> length group_mems")
    case False
    with Cons.prems(1) tg
    have r: "compress_groups P gen agent groups view comm acc = Inr (view', comm_end, acc')"
      by simp
    from Cons.prems(3) have k: "\<forall>tg\<in>set groups. f_id ` set (snd tg) \<subseteq> mem_id ` set (memories view)"
      by simp
    from Cons.IH[OF r Cons.prems(2) k] obtain new news where
      n: "acc' = acc @ new"
      "memories view' = mark_summarized (concat (map c_original_ids new)) (memories view) @ news"
      "map mem_id news = map c_summary_id new"
      "\<forall>r\<in>set news. \<not> is_deleted r \<and> \<not> is_summary r"
      and sub: "set (concat (map c_original_ids new)) \<subseteq> (\<Union>tg\<in>set groups. f_id ` set (snd tg))"
      by (elim exE conjE) (rule that, assumption+)
    from sub have "set (concat (map c_original_ids new))
                     \<subseteq> (\<Union>tg\<in>set (tg # groups). f_id ` set (snd tg))" by auto
    with n show ?thesis by blast
  next
    case True
    define a where "a = (store_defaults agent (summarize_memories P group_mems))
                      \<lparr>arg_memory_type := ''semantic'', arg_importance := Some 0.7,
                       arg_topics := Some [topic], skip_dedup := True\<rparr>"
    define nid where "nid = fst (gen (length acc))"
    define tm where "tm = snd (gen (length acc))"
    have sk: "skip_dedup a" by (simp add: a_def)
    show ?thesis
    proof (cases "store_memory P tm nid a comm")
      case (Inl e)
      with Cons.prems(1) tg True show ?thesis
        by (simp add: Let_def a_def nid_def tm_def)
    next
      case (Inr p)
      obtain comm' stored where p: "p = (comm', stored)" by (cases p)
      from store_memory_skip_dedup[OF sk Inr[unfolded p]] obtain row where
        c': "comm' = comm\<lparr>memories := memories comm @ [row]\<rparr>"
        and st: "stored = Created nid tm"
        and row: "mem_id row = nid" "\<not> is_summary row" "\<not> is_deleted row"
        and fresh: "nid \<notin> mem_id ` set (memories comm)" by blast
      define ids where "ids = map f_id group_mems"
      define view1 where "view1 = view\<lparr>memories :=
                             mark_summarized ids (memories view @ [row])\<rparr>"
      define e where "e = \<lparr>c_topic = topic, c_count = length group_mems,
                             c_summary_id = nid, c_original_ids = ids\<rparr>"
      have dr: "drop (length (memories comm)) (memories comm') = [row]"
        by (simp add: c')
      from Cons.prems(1) tg True Inr p st dr
      have r: "compress_groups P gen agent groups view1 comm' (acc @ [e])
                 = Inr (view', comm_end, acc')"
        by (simp add: Let_def a_def[symmetric] nid_def[symmetric] tm_def[symmetric]
              view1_def ids_def e_def)
      have fresh': "mem_id row \<notin> mem_id ` set (memories view)"
        using fresh row Cons.prems(2) unfolding ids_of_map by simp
      have ex: "set ids \<subseteq> mem_id ` set (memories view)"
        using Cons.prems(3) tg by (simp add: ids_def)
      have nin: "\<forall>r\<in>set [row]. mem_id r \<notin> set ids"
        using fresh' ex by auto
      have m1: "memories view1 = mark_summarized ids (memories view) @ [row]"
        unfolding view1_def
        by (simp add: mark_summarized_append mark_summarized_fresh[OF nin])
      have i1: "map mem_id (memories view1) = map mem_id (memories view) @ [nid]"
        unfolding m1 using row by (simp add: mark_summarized_ids)
      have same1: "map mem_id (memories view1) = map mem_id (memories comm')"
        unfolding i1 c' using Cons.prems(2) row by simp
      have sub: "mem_id ` set (memories view) \<subseteq> mem_id ` set (memories view1)"
        unfolding ids_of_map i1 by auto
      have k1: "\<forall>tg\<in>set groups. f_id ` set (snd tg) \<subseteq> mem_id ` set (memories view1)"
      proof
        fix x assume "x \<in> set groups"
        with Cons.prems(3) have "f_id ` set (snd x) \<subseteq> mem_id ` set (memories view)" by simp
        with sub show "f_id ` set (snd x) \<subseteq> mem_id ` set (memories view1)"
          by (rule subset_trans[rotated])
      qed
      from Cons.IH[OF r same1 k1] obtain new news where
        n1: "acc' = (acc @ [e]) @ new"
        and n2: "memories view'
                   = mark_summarized (concat (map c_original_ids new)) (memories view1) @ news"
        and n3: "map mem_id news = map c_summary_id new"
        and n4: "\<forall>r\<in>set news. \<not> is_deleted r \<and> \<not> is_summary r"
        and n5: "set (concat (map c_original_ids new)) \<subseteq> (\<Union>tg\<in>set groups. f_id ` set (snd tg))"
        by (elim exE conjE) (rule that, assumption+)
      define later where "later = concat (map c_original_ids new)"
      have "(\<Union>tg\<in>set groups. f_id ` set (snd tg)) \<subseteq> mem_id ` set (memories view)"
        using Cons.prems(3) by (intro UN_least) simp
      with n5 have lv: "set later \<subseteq> mem_id ` set (memories view)"
        unfolding later_def by (rule subset_trans)
      have nin2: "\<forall>r\<in>set [row]. mem_id r \<notin> set later"
        using fresh' lv by auto
      have "mark_summarized later (memories view1)
              = mark_summarized (ids @ later) (memories view) @ [row]"
        unfolding m1
        by (simp add: mark_summarized_append mark_summarized_twice mark_summarized_fresh[OF nin2])
      then have v: "memories view'
                      = mark_summarized (concat (map c_original_ids (e # new))) (memories view)
                          @ (row # news)"
        using n2 unfolding later_def[symmetric] by (simp add: e_def later_def)
      have 1: "acc' = acc @ (e # new)" using n1 by simp
      have 3: "map mem_id (row # news) = map c_summary_id (e # new)"
        using n3 row by (simp add: e_def)
      have 4: "\<forall>r\<in>set (row # news). \<not> is_deleted r \<and> \<not> is_summary r"
        using n4 row by simp
      have 5: "set (concat (map c_original_ids (e # new)))
                 \<subseteq> (\<Union>tg\<in>set (tg # groups). f_id ` set (snd tg))"
        using n5 tg by (auto simp: e_def ids_def)
      show ?thesis
        apply (rule exI[of _ "e # new"], rule exI[of _ "row # news"])
        apply (intro conjI)
            apply (rule 1)
           apply (rule v)
          apply (rule 3)
         apply (rule 4)
        apply (rule 5)
        done
    qed
  qed
qed

lemma consolidate_memories_Inr:
  fixes d :: "'v db"
  assumes "consolidate_memories P now gen agent compression_threshold d = Inr (d', rep)"
  shows "\<exists>fading view comm.
           fading_query now agent (memories d) = Inr fading
         \<and> (if int (length fading) \<ge> compression_threshold
            then compress_groups P gen agent (topic_groups_of fading) d d []
            else Inr (d, d, [])) = Inr (view, comm, compressed rep)
         \<and> soft_delete_dormant now agent (memories view) = Inr (memories d')
         \<and> memory_links d' = memory_links view
         \<and> promotion_candidates rep = promotion_query agent (memories view)"
proof (cases "fading_query now agent (memories d)")
  case (Inl e)
  with assms show ?thesis by (simp add: consolidate_memories_def)
next
  case f: (Inr fading)
  define loop where "loop =
     (if int (length fading) \<ge> compression_threshold
      then compress_groups P gen agent (topic_groups_of fading) d d []
      else Inr (d, d, []))"
  show ?thesis
  proof (cases loop)
    case (Inl e)
    with assms f show ?thesis
      by (simp add: consolidate_memories_def Let_def loop_def)
  next
    case (Inr p)
    obtain view comm cl where p: "p = (view, comm, cl)" by (cases p)
    show ?thesis
    proof (cases "soft_delete_dormant now agent (memories view)")
      case (Inl e)
      with assms f Inr p show ?thesis
        by (simp add: consolidate_memories_def Let_def loop_def)
    next
      case s: (Inr swept)
      from assms f Inr p s have "d' = view\<lparr>memories := swept\<rparr>"
        and c: "compressed rep = cl"
        and pc: "promotion_candidates rep = promotion_query agent (memories view)"
        by (auto simp: consolidate_memories_def Let_def loop_def)
      then have m: "memories d' = swept" and l: "memory_links d' = memory_links view"
        by simp_all
      show ?thesis
        apply (rule exI[of _ fading], rule exI[of _ view], rule exI[of _ comm])
        apply (intro conjI)
            apply (rule f)
           apply (rule Inr[unfolded loop_def p c[symmetric]])
          apply (rule s[folded m])
         apply (rule l)
        apply (rule pc)
        done
    qed
  qed
qed

lemma consolidate_memories_loop:
  fixes d :: "'v db"
  assumes "consolidate_memories P now gen agent compression_threshold d = Inr (d', rep)"
  shows "\<exists>fading (view :: 'v db) news.
           fading_query now agent (memories d) = Inr fading
         \<and> soft_delete_dormant now agent (memories view) = Inr (memories d')
         \<and> memory_links d' = memory_links d
         \<and> (compression_threshold \<le> int (length fading)
              \<longrightarrow> map c_topic (compressed rep)
                    = map fst (filter (\<lambda>tg. 3 \<le> length (snd tg)) (topic_groups_of fading)))
         \<and> (\<forall>e\<in>set (compressed rep).
                (c_summary_id e \<in> mem_id ` set (memories view)
                 \<and> (\<forall>r\<in>set (memories view). mem_id r = c_summary_id e \<longrightarrow> summarizes r = []))
                \<and> 3 \<le> length (c_original_ids e) \<and> c_count e = length (c_original_ids e)
                \<and> (\<forall>i\<in>set (c_original_ids e).
                      i \<in> mem_id ` set (memories view)
                      \<and> (\<forall>r\<in>set (memories view). mem_id r = i \<longrightarrow> is_summary r)))
         \<and> memories view
             = mark_summarized (concat (map c_original_ids (compressed rep))) (memories d) @ news
         \<and> map mem_id news = map c_summary_id (compressed rep)
         \<and> (\<forall>r\<in>set news. \<not> is_deleted r \<and> \<not> is_summary r)"
proof -
  from consolidate_memories_Inr[OF assms] obtain fading :: "fading_row list"
    and view comm :: "'v db" where
    fq: "fading_query now agent (memories d) = Inr fading"
    and lp: "(if int (length fading) \<ge> compression_threshold
            then compress_groups P gen agent (topic_groups_of fading) d d []
            else Inr (d, d, [])) = Inr (view, comm, compressed rep)"
    and sw: "soft_delete_dormant now agent (memories view) = Inr (memories d')"
    and ml: "memory_links d' = memory_links view"
    by (elim exE conjE) (rule that, assumption+)
  show ?thesis
  proof (cases "compression_threshold \<le> int (length fading)")
    case False
    with lp have v: "view = d" and c: "compressed rep = []" by simp_all
    have 3: "compression_threshold \<le> int (length fading)
              \<longrightarrow> map c_topic (compressed rep)
                    = map fst (filter (\<lambda>tg. 3 \<le> length (snd tg)) (topic_groups_of fading))"
      using False by blast
    have 4: "\<forall>e\<in>set (compressed rep).
                (c_summary_id e \<in> mem_id ` set (memories d)
                 \<and> (\<forall>r\<in>set (memories d). mem_id r = c_summary_id e \<longrightarrow> summarizes r = []))
                \<and> 3 \<le> length (c_original_ids e) \<and> c_count e = length (c_original_ids e)
                \<and> (\<forall>i\<in>set (c_original_ids e).
                      i \<in> mem_id ` set (memories d)
                      \<and> (\<forall>r\<in>set (memories d). mem_id r = i \<longrightarrow> is_summary r))"
      unfolding c by simp
    have 5: "memories d
             = mark_summarized (concat (map c_original_ids (compressed rep))) (memories d) @ []"
      unfolding c by (simp add: mark_summarized_Nil)
    have 6: "map mem_id [] = map c_summary_id (compressed rep)" unfolding c by simp
    have 7: "\<forall>r\<in>set ([] :: 'v memory list). \<not> is_deleted r \<and> \<not> is_summary r" by simp
    show ?thesis
      apply (rule exI[of _ fading], rule exI[of _ d], rule exI[of _ "[]"])
      apply (intro conjI)
             apply (rule fq)
            apply (rule sw[unfolded v])
           apply (rule ml[unfolded v])
          apply (rule 3)
         apply (rule 4)
        apply (rule 5)
       apply (rule 6)
      apply (rule 7)
      done
  next
    case True
    with lp have run: "compress_groups P gen agent (topic_groups_of fading) d d []
                         = Inr (view, comm, compressed rep)" by simp
    have known: "\<forall>tg\<in>set (topic_groups_of fading). f_id ` set (snd tg) \<subseteq> mem_id ` set (memories d)"
    proof
      fix tg assume "tg \<in> set (topic_groups_of fading)"
      from topic_groups_members[OF this] have "f_id ` set (snd tg) \<subseteq> f_id ` set fading"
        by (rule image_mono)
      also have "\<dots> \<subseteq> mem_id ` set (memories d)"
        using fq by (rule fading_query_ids)
      finally show "f_id ` set (snd tg) \<subseteq> mem_id ` set (memories d)" .
    qed
    from compress_groups_result[OF run refl known] obtain new rows where
      n1: "compressed rep = [] @ new"
      and n2: "map c_topic new = map fst (filter (\<lambda>tg. 3 \<le> length (snd tg)) (topic_groups_of fading))"
      and n4: "memory_links view = memory_links d"
      and n5: "\<forall>e\<in>set new.
                (c_summary_id e \<in> mem_id ` set (memories view)
                 \<and> (\<forall>r\<in>set (memories view). mem_id r = c_summary_id e \<longrightarrow> summarizes r = []))
                \<and> 3 \<le> length (c_original_ids e) \<and> c_count e = length (c_original_ids e)
                \<and> (\<forall>i\<in>set (c_original_ids e).
                      i \<in> mem_id ` set (memories view)
                      \<and> (\<forall>r\<in>set (memories view). mem_id r = i \<longrightarrow> is_summary r))"
      by (elim exE conjE) (rule that, assumption+)
    from n1 have e: "new = compressed rep" by simp
    from compress_groups_view[OF run refl known] obtain new2 news where
      w1: "compressed rep = [] @ new2"
      and w2: "memories view
                 = mark_summarized (concat (map c_original_ids new2)) (memories d) @ news"
      and w3: "map mem_id news = map c_summary_id new2"
      and w4: "\<forall>r\<in>set news. \<not> is_deleted r \<and> \<not> is_summary r"
      by (elim exE conjE) (rule that, assumption+)
    from w1 have e2: "new2 = compressed rep" by simp
    have n2': "compression_threshold \<le> int (length fading)
              \<longrightarrow> map c_topic (compressed rep)
                    = map fst (filter (\<lambda>tg. 3 \<le> length (snd tg)) (topic_groups_of fading))"
      using n2 unfolding e by blast
    have ml': "memory_links d' = memory_links d" using ml n4 by simp
    show ?thesis
      apply (rule exI[of _ fading], rule exI[of _ view], rule exI[of _ news])
      apply (intro conjI)
             apply (rule fq)
            apply (rule sw)
           apply (rule ml')
          apply (rule n2')
         apply (rule n5[unfolded e])
        apply (rule w2[unfolded e2])
       apply (rule w3[unfolded e2])
      apply (rule w4)
      done
  qed
qed

text \<open>A run of the consolidation on five fading memories with three topics each.\<close>

lemma store_memory_summary:
  assumes "nid \<notin> mem_id ` set (memories d)" and "length agent \<le> 50"
  shows "store_memory P t nid
           ((store_defaults agent txt)
              \<lparr>arg_memory_type := ''semantic'', arg_importance := Some 0.7,
               arg_topics := Some [topic], skip_dedup := True\<rparr>) d
         = Inr (d\<lparr>memories := memories d @
                  [inserted_row t nid agent txt (get_embedding P txt) ''semantic'' 0.7 [topic]
                     None None None None]\<rparr>, Created nid t)"
  using assms
  by (simp add: store_memory_def store_defaults_def insert_memory_def too_long_def Let_def
      inserted_row_def)

lemma consolidate_fading_run:
  "consolidate_memories example_ports 155520000 example_gen ''agent''
     consolidate_default_compression_threshold fading_db
   = Inr (\<lparr>memories =
             map (\<lambda>i. (inserted_row 0 i ''agent'' ''trip'' [4] ''episodic'' 0.5
                          [''zebra'', ''apple'', ''mango''] None None None None)
                        \<lparr>is_summary := True\<rparr>)
               [1, 2, 3, 4, 5]
             @ [inserted_row 155520000 100 ''agent'' ''gist'' [4] ''semantic'' 0.7 [''zebra'']
                  None None None None,
                inserted_row 155520000 101 ''agent'' ''gist'' [4] ''semantic'' 0.7 [''apple'']
                  None None None None,
                inserted_row 155520000 102 ''agent'' ''gist'' [4] ''semantic'' 0.7 [''mango'']
                  None None None None],
           memory_links = []\<rparr>,
          \<lparr>decayed = map (\<lambda>i. \<lparr>d_id = i, d_content = ''trip'', d_retention = exp (- 100)\<rparr>)
                        [1, 2, 3, 4, 5],
           compressed =
             [\<lparr>c_topic = ''zebra'', c_count = 5, c_summary_id = 100,
               c_original_ids = [1, 2, 3, 4, 5]\<rparr>,
              \<lparr>c_topic = ''apple'', c_count = 5, c_summary_id = 101,
               c_original_ids = [1, 2, 3, 4, 5]\<rparr>,
              \<lparr>c_topic = ''mango'', c_count = 5, c_summary_id = 102,
               c_original_ids = [1, 2, 3, 4, 5]\<rparr>],
           promotion_candidates = [], links_created = 0\<rparr>)"
proof -
  define now :: real where "now = 155520000"
  define mk :: "nat \<Rightarrow> real list memory" where
    "mk = (\<lambda>i. inserted_row 0 i ''agent'' ''trip'' [4] ''episodic'' 0.5
                   [''zebra'', ''apple'', ''mango''] None None None None)"
  define fr :: "nat \<Rightarrow> fading_row" where
    "fr = (\<lambda>i. \<lparr>f_id = i, f_content = ''trip'', f_memory_type = ''episodic'',
                 f_topics = [''zebra'', ''apple'', ''mango''], f_retention = exp (- 100),
                 f_created_at = 0\<rparr>)"
  define sm :: "nat \<Rightarrow> string \<Rightarrow> real list memory" where
    "sm = (\<lambda>i t. inserted_row 155520000 i ''agent'' ''gist'' [4] ''semantic'' 0.7 [t]
                  None None None None)"
  define ids :: "nat list" where "ids = [1, 2, 3, 4, 5]"
  define G where "G = map fr ids"
  have fk: "mem_id (mk i) = i" "agent_id (mk i) = ''agent''" "\<not> is_deleted (mk i)"
    "\<not> is_summary (mk i)" "topics (mk i) = [''zebra'', ''apple'', ''mango'']"
    "content (mk i) = ''trip''" "memory_type (mk i) = ''episodic''" "created_at (mk i) = 0"
    "stability (mk i) = 0.3" for i
    by (simp_all add: mk_def inserted_row_def)
  have rk: "retention_of now (mk i) = Inr (exp (- 100))" for i
    unfolding mk_def now_def by (rule retention_of_example_old)
  have lt: "exp (- 100 :: real) < 0.2" using exp_minus_100 by simp
  have F1: "fading_query now ''agent'' (map mk ids) = Inr G"
    using lt unfolding ids_def G_def by (simp add: fading_query_def fk rk fr_def)
  have ft: "f_topics (fr i) = [''zebra'', ''apple'', ''mango'']" "f_id (fr i) = i" for i
    by (simp_all add: fr_def)
  have F2: "topic_groups_of G = [(''zebra'', G), (''apple'', G), (''mango'', G)]"
    unfolding G_def ids_def by (simp add: topic_groups_of_def ft)
  have lg: "length G = 5" "map f_id G = ids" by (simp_all add: G_def ids_def ft comp_def)
  have su: "summarize_memories example_ports G = ''gist''"
    unfolding G_def ids_def by (simp add: summarize_memories_def example_ports_def)
  have ge: "get_embedding example_ports ''gist'' = [4]" by (simp add: example_ports_def)
  have fs: "mem_id (sm i t) = i" "\<not> is_summary (sm i t)" "stability (sm i t) = 0.3"
    "last_accessed (sm i t) = now" "\<not> is_deleted (sm i t)" for i t
    by (simp_all add: sm_def inserted_row_def now_def)
  define D :: "real list db" where "D = \<lparr>memories = map mk ids, memory_links = []\<rparr>"
  define mk' where "mk' = (\<lambda>i. (mk i)\<lparr>is_summary := True\<rparr>)"
  have mark0: "mark_summarized ids (map mk ids @ [sm 100 t]) = map mk' ids @ [sm 100 t]" for t
    unfolding ids_def by (simp add: mark_summarized_def fk fs mk'_def)
  have mark1: "mark_summarized ids (map mk' ids @ [sm 100 t, sm 101 u])
                 = map mk' ids @ [sm 100 t, sm 101 u]" for t u
    unfolding ids_def by (simp add: mark_summarized_def fk fs mk'_def)
  have mark2: "mark_summarized ids (map mk' ids @ [sm 100 t, sm 101 u, sm 102 w])
                 = map mk' ids @ [sm 100 t, sm 101 u, sm 102 w]" for t u w
    unfolding ids_def by (simp add: mark_summarized_def fk fs mk'_def)
  have st: "store_memory example_ports now nid
           ((store_defaults ''agent'' ''gist'')
              \<lparr>arg_memory_type := ''semantic'', arg_importance := Some 0.7,
               arg_topics := Some [topic], skip_dedup := True\<rparr>) d
         = Inr (d\<lparr>memories := memories d @ [sm nid topic]\<rparr>, Created nid now)"
    if "nid \<notin> mem_id ` set (memories d)" for nid topic and d :: "real list db"
    using store_memory_summary[OF that, of "''agent''" example_ports now topic "''gist''"]
    by (simp add: ge sm_def now_def)
  have g0: "example_gen 0 = (100, now)" "example_gen (Suc 0) = (101, now)"
    "example_gen (Suc (Suc 0)) = (102, now)"
    by (simp_all add: example_gen_def now_def)
  have n0: "100 \<notin> mem_id ` set (map mk ids)" "101 \<notin> mem_id ` set (map mk ids @ [sm 100 t])"
    "102 \<notin> mem_id ` set (map mk ids @ [sm 100 t, sm 101 u])" for t u
    unfolding ids_def by (simp_all add: fk fs)
  have st0: "store_memory example_ports now 100
           ((store_defaults ''agent'' ''gist'')
              \<lparr>arg_memory_type := ''semantic'', arg_importance := Some 0.7,
               arg_topics := Some [topic], skip_dedup := True\<rparr>)
           \<lparr>memories = map mk ids, memory_links = []\<rparr>
         = Inr (\<lparr>memories = map mk ids @ [sm 100 topic], memory_links = []\<rparr>, Created 100 now)"
    for topic
    using st[of 100 "\<lparr>memories = map mk ids, memory_links = []\<rparr>" topic] n0(1) by simp
  have st1: "store_memory example_ports now 101
           ((store_defaults ''agent'' ''gist'')
              \<lparr>arg_memory_type := ''semantic'', arg_importance := Some 0.7,
               arg_topics := Some [topic], skip_dedup := True\<rparr>)
           \<lparr>memories = map mk ids @ [sm 100 t], memory_links = []\<rparr>
         = Inr (\<lparr>memories = map mk ids @ [sm 100 t, sm 101 topic], memory_links = []\<rparr>,
                Created 101 now)"
    for topic t
    using st[of 101 "\<lparr>memories = map mk ids @ [sm 100 t], memory_links = []\<rparr>" topic]
      n0(2)[of t] by simp
  have st2: "store_memory example_ports now 102
           ((store_defaults ''agent'' ''gist'')
              \<lparr>arg_memory_type := ''semantic'', arg_importance := Some 0.7,
               arg_topics := Some [topic], skip_dedup := True\<rparr>)
           \<lparr>memories = map mk ids @ [sm 100 t, sm 101 u], memory_links = []\<rparr>
         = Inr (\<lparr>memories = map mk ids @ [sm 100 t, sm 101 u, sm 102 topic], memory_links = []\<rparr>,
                Created 102 now)"
    for topic t u
    using st[of 102 "\<lparr>memories = map mk ids @ [sm 100 t, sm 101 u], memory_links = []\<rparr>" topic]
      n0(3)[of t u] by simp
  have F3: "compress_groups example_ports example_gen ''agent''
              [(''zebra'', G), (''apple'', G), (''mango'', G)] D D []
            = Inr (\<lparr>memories = map mk' ids @ [sm 100 ''zebra'', sm 101 ''apple'', sm 102 ''mango''],
                     memory_links = []\<rparr>,
                   \<lparr>memories = map mk ids @ [sm 100 ''zebra'', sm 101 ''apple'', sm 102 ''mango''],
                     memory_links = []\<rparr>,
                   [\<lparr>c_topic = ''zebra'', c_count = 5, c_summary_id = 100, c_original_ids = ids\<rparr>,
                    \<lparr>c_topic = ''apple'', c_count = 5, c_summary_id = 101, c_original_ids = ids\<rparr>,
                    \<lparr>c_topic = ''mango'', c_count = 5, c_summary_id = 102, c_original_ids = ids\<rparr>])"
    by (simp add: lg su g0 D_def st0 st1 st2 mark0 mark1 mark2 Let_def)
  have fk': "agent_id (mk' i) = ''agent''" "is_summary (mk' i)" "stability (mk' i) = 0.3"
    "\<not> is_deleted (mk' i)" for i
    by (simp_all add: mk'_def fk)
  have fs': "agent_id (sm i t) = ''agent''" "memory_type (sm i t) = ''semantic''" for i t
    by (simp_all add: sm_def inserted_row_def)
  have F4: "promotion_query ''agent''
              (map mk' ids @ [sm 100 ''zebra'', sm 101 ''apple'', sm 102 ''mango'']) = []"
    unfolding ids_def by (simp add: promotion_query_def fk' fs fs')
  have F5: "soft_delete_dormant now ''agent''
              (map mk' ids @ [sm 100 ''zebra'', sm 101 ''apple'', sm 102 ''mango''])
            = Inr (map mk' ids @ [sm 100 ''zebra'', sm 101 ''apple'', sm 102 ''mango''])"
    unfolding soft_delete_dormant_def
    by (rule update_rows_unmatched) (auto simp: ids_def fk' fs)
  have F6: "map (\<lambda>m. \<lparr>d_id = f_id m, d_content = take 100 (f_content m),
                          d_retention = f_retention m\<rparr>) G
            = map (\<lambda>i. \<lparr>d_id = i, d_content = ''trip'', d_retention = exp (- 100)\<rparr>) ids"
    unfolding G_def by (simp add: fr_def)
  have run: "consolidate_memories example_ports now example_gen ''agent''
               consolidate_default_compression_threshold D
      = Inr (\<lparr>memories = map mk' ids @ [sm 100 ''zebra'', sm 101 ''apple'', sm 102 ''mango''],
               memory_links = []\<rparr>,
             \<lparr>decayed = map (\<lambda>i. \<lparr>d_id = i, d_content = ''trip'', d_retention = exp (- 100)\<rparr>) ids,
              compressed =
                [\<lparr>c_topic = ''zebra'', c_count = 5, c_summary_id = 100, c_original_ids = ids\<rparr>,
                 \<lparr>c_topic = ''apple'', c_count = 5, c_summary_id = 101, c_original_ids = ids\<rparr>,
                 \<lparr>c_topic = ''mango'', c_count = 5, c_summary_id = 102, c_original_ids = ids\<rparr>],
              promotion_candidates = [], links_created = 0\<rparr>)"
  proof -
    have fq: "fading_query now ''agent'' (memories D) = Inr G"
      unfolding D_def by (simp add: F1)
    show ?thesis
      unfolding consolidate_memories_def Let_def fq sum.case F2 F6
      by (simp add: lg consolidate_default_compression_threshold_def F3 F4 F5
            del: compress_groups.simps)
  qed
  show ?thesis
    using run unfolding D_def now_def mk'_def mk_def sm_def ids_def fading_db_def by simp
qed

lemma fading_query_fading_db:
  "fading_query 155520000 ''agent'' (memories fading_db)
     = Inr (map (\<lambda>i. \<lparr>f_id = i, f_content = ''trip'', f_memory_type = ''episodic'',
                  f_topics = [''zebra'', ''apple'', ''mango''], f_retention = exp (- 100),
                  f_created_at = 0\<rparr>) [1, 2, 3, 4, 5])"
proof -
  define now :: real where "now = 155520000"
  define mk :: "nat \<Rightarrow> real list memory" where
    "mk = (\<lambda>i. inserted_row 0 i ''agent'' ''trip'' [4] ''episodic'' 0.5
                   [''zebra'', ''apple'', ''mango''] None None None None)"
  have fk: "mem_id (mk i) = i" "agent_id (mk i) = ''agent''" "\<not> is_deleted (mk i)"
    "\<not> is_summary (mk i)" "topics (mk i) = [''zebra'', ''apple'', ''mango'']"
    "content (mk i) = ''trip''" "memory_type (mk i) = ''episodic''" "created_at (mk i) = 0" for i
    by (simp_all add: mk_def inserted_row_def)
  have rk: "retention_of now (mk i) = Inr (exp (- 100))" for i
    unfolding mk_def now_def by (rule retention_of_example_old)
  have lt: "exp (- 100 :: real) < 0.2" using exp_minus_100 by simp
  have "fading_query now ''agent'' (map mk [1, 2, 3, 4, 5])
          = Inr (map (\<lambda>i. \<lparr>f_id = i, f_content = ''trip'', f_memory_type = ''episodic'',
                  f_topics = [''zebra'', ''apple'', ''mango''], f_retention = exp (- 100),
                  f_created_at = 0\<rparr>) [1, 2, 3, 4, 5])"
    using lt by (simp add: fading_query_def fk rk)
  then show ?thesis
    unfolding now_def mk_def fading_db_def by simp
qed

text \<open>
  A run of the consolidation on the store of the dormant sweep, and a run on the store
  whose only memory is too old for its retention to be computed: the first query of the
  consolidation fails, and nothing is changed.
\<close>

lemma exp_m256: "exp (- (25 / 6) :: real) < 1 / 20"
proof -
  have a: "1 + 25 / 12 + (25 / 12)\<^sup>2 / 2 \<le> exp (25 / 12 :: real)"
    by (rule exp_lower_Taylor_quadratic) simp
  have b: "(20 :: real) < (1 + 25 / 12 + (25 / 12)\<^sup>2 / 2) * (1 + 25 / 12 + (25 / 12)\<^sup>2 / 2)"
    by (simp add: power2_eq_square)
  have "(1 + 25 / 12 + (25 / 12)\<^sup>2 / 2) * (1 + 25 / 12 + (25 / 12)\<^sup>2 / 2)
          \<le> exp (25 / 12 :: real) * exp (25 / 12)"
    using a by (intro mult_mono) (simp_all add: power2_eq_square)
  also have "\<dots> = exp (25 / 12 + 25 / 12)" by (simp only: exp_add)
  also have "\<dots> = exp (25 / 6)" by simp
  finally have "20 < exp (25 / 6 :: real)" using b by simp
  then have "inverse (exp (25 / 6 :: real)) < inverse 20"
    by (intro less_imp_inverse_less) simp_all
  then show ?thesis by (simp add: exp_minus)
qed

lemma retention_of_example_dormant:
  "retention_of 3888000
     (inserted_row 0 i agent text v mtype 0.1 tps ev ex chan sess) = Inr (exp (- (25 / 6)))"
proof -
  have c: "max 0 (min 1 (exp (- (25 / 6) :: real))) = exp (- (25 / 6))"
    by (simp add: max_def min_def)
  have x: "- ((3888000 - 0) / 86400) / max 1 (0.3 * (1 + 2 * 0.1) * 30) = (- (25 / 6) :: real)"
    by simp
  have "calculate_retention 3888000 0.3 0.1 0 = Inr (exp (- (25 / 6)))"
    using calculate_retention_in_range(1)[of 3888000 0 "0.3" "0.1"] unfolding x c by simp
  then show ?thesis
    by (simp add: retention_of_def inserted_row_def)
qed

lemma consolidate_dormant_run:
  "consolidate_memories example_ports 3888000 example_gen ''agent''
     consolidate_default_compression_threshold dormant_db
   = Inr (\<lparr>memories =
             [(inserted_row 0 1 ''agent'' ''old'' [3] ''episodic'' 0.1 [] None None None None)
                \<lparr>is_deleted := True\<rparr>,
              (inserted_row 0 2 ''agent'' ''old'' [3] ''episodic'' 0.1 [] None None None None)
                \<lparr>is_summary := True\<rparr>,
              inserted_row 3888000 3 ''agent'' ''new'' [3] ''episodic'' 0.1 [] None None None None],
           memory_links = []\<rparr>,
          \<lparr>decayed = [\<lparr>d_id = 1, d_content = ''old'', d_retention = exp (- (25 / 6))\<rparr>],
           compressed = [], promotion_candidates = [], links_created = 0\<rparr>)"
proof -
  define now :: real where "now = 3888000"
  define old :: real where "old = exp (- (25 / 6))"
  define A :: "real list memory" where
    "A = inserted_row 0 1 ''agent'' ''old'' [3] ''episodic'' 0.1 [] None None None None"
  define S :: "real list memory" where
    "S = (inserted_row 0 2 ''agent'' ''old'' [3] ''episodic'' 0.1 [] None None None None)
           \<lparr>is_summary := True\<rparr>"
  define N :: "real list memory" where
    "N = inserted_row 3888000 3 ''agent'' ''new'' [3] ''episodic'' 0.1 [] None None None None"
  have fa: "mem_id A = 1" "agent_id A = ''agent''" "\<not> is_deleted A" "\<not> is_summary A"
    "content A = ''old''" "stability A = 0.3" "memory_type A = ''episodic''"
    by (simp_all add: A_def inserted_row_def)
  have fs: "mem_id S = 2" "agent_id S = ''agent''" "\<not> is_deleted S" "is_summary S"
    "stability S = 0.3" "memory_type S = ''episodic''"
    by (simp_all add: S_def inserted_row_def)
  have fn: "mem_id N = 3" "agent_id N = ''agent''" "\<not> is_deleted N" "\<not> is_summary N"
    "stability N = 0.3" "memory_type N = ''episodic''"
    by (simp_all add: N_def inserted_row_def now_def)
  have la: "last_accessed N = now" by (simp add: N_def inserted_row_def now_def)
  define cut :: real where "cut = now - 30 * 86400"
  have cand: "last_accessed A < cut" "\<not> last_accessed N < cut"
    by (simp_all add: A_def N_def inserted_row_def now_def cut_def)
  have ra: "retention_of now A = Inr old"
    unfolding A_def now_def old_def by (rule retention_of_example_dormant)
  have rn: "retention_of now N = Inr 1"
    by (rule retention_of_fresh) (rule la)
  have lt: "old < 0.2" "old < 0.05" using exp_m256 by (simp_all add: old_def)
  have F1: "fading_query now ''agent'' [A, S, N]
              = Inr [\<lparr>f_id = 1, f_content = ''old'', f_memory_type = ''episodic'',
                      f_topics = [], f_retention = old, f_created_at = 0\<rparr>]"
    using lt by (simp add: fading_query_def fa fs fn ra rn) (simp add: A_def inserted_row_def)
  have F4: "promotion_query ''agent'' [A, S, N] = []"
    by (simp add: promotion_query_def fa fs fn)
  have F5: "soft_delete_dormant now ''agent'' [A, S, N] = Inr [A\<lparr>is_deleted := True\<rparr>, S, N]"
    unfolding soft_delete_dormant_def cut_def[symmetric]
    using lt by (simp add: fa fs fn ra cand)
  have run: "consolidate_memories example_ports now example_gen ''agent''
               consolidate_default_compression_threshold
               \<lparr>memories = [A, S, N], memory_links = []\<rparr>
      = Inr (\<lparr>memories = [A\<lparr>is_deleted := True\<rparr>, S, N], memory_links = []\<rparr>,
             \<lparr>decayed = [\<lparr>d_id = 1, d_content = ''old'', d_retention = old\<rparr>],
              compressed = [], promotion_candidates = [], links_created = 0\<rparr>)"
    by (simp add: consolidate_memories_def Let_def F1 F4 F5
          consolidate_default_compression_threshold_def)
  show ?thesis
    using run unfolding A_def S_def N_def now_def old_def dormant_db_def by simp
qed

lemma consolidate_underflow_run:
  "consolidate_memories example_ports 864000000 example_gen ''agent''
     consolidate_default_compression_threshold ancient_db
   = Inl (NumericValueOutOfRange, ancient_db)"
proof -
  define A :: "real list memory" where
    "A = inserted_row 0 1 ''agent'' ''old'' [3] ''episodic'' 0 [] None None None None"
  have fa: "agent_id A = ''agent''" "\<not> is_deleted A" "\<not> is_summary A"
    by (simp_all add: A_def inserted_row_def)
  have ra: "retention_of 864000000 A = Inl NumericValueOutOfRange"
    unfolding A_def by (rule retention_of_example_ancient)
  have "consolidate_memories example_ports 864000000 example_gen ''agent''
          consolidate_default_compression_threshold \<lparr>memories = [A], memory_links = []\<rparr>
        = Inl (NumericValueOutOfRange, \<lparr>memories = [A], memory_links = []\<rparr>)"
    by (simp add: consolidate_memories_def fading_query_def fa ra)
  then show ?thesis unfolding A_def ancient_db_def .
qed

text \<open>
  Claim C7, as amended. After a consolidation that returns normally, for every entry of
  the report's \<^verbatim>\<open>compressed\<close> list: the summary memory named by \<^verbatim>\<open>summary_id\<close> is stored,
  and its \<open>summarizes\<close> set is empty (the write path never fills that column); the group it
  stands for is recorded in the entry's \<^verbatim>\<open>original_ids\<close>, which has at least three
  members, each the identifier of a stored memory whose \<open>is_summary\<close> flag is set.
\<close>

theorem consolidate_summaries:
  fixes d :: "'v db"
  assumes "consolidate_memories P now gen agent compression_threshold d = Inr (d', rep)"
  shows "\<forall>e\<in>set (compressed rep).
           (\<exists>r\<in>set (memories d'). mem_id r = c_summary_id e)
         \<and> (\<forall>r\<in>set (memories d'). mem_id r = c_summary_id e \<longrightarrow> summarizes r = [])
         \<and> 3 \<le> length (c_original_ids e)
         \<and> (\<forall>i\<in>set (c_original_ids e).
               (\<exists>r\<in>set (memories d'). mem_id r = i)
               \<and> (\<forall>r\<in>set (memories d'). mem_id r = i \<longrightarrow> is_summary r))"
proof
  fix e assume e: "e \<in> set (compressed rep)"
  from consolidate_memories_loop[OF assms] obtain view :: "'v db" where
    sw: "soft_delete_dormant now agent (memories view) = Inr (memories d')"
    and g: "\<forall>e\<in>set (compressed rep).
                (c_summary_id e \<in> mem_id ` set (memories view)
                 \<and> (\<forall>r\<in>set (memories view). mem_id r = c_summary_id e \<longrightarrow> summarizes r = []))
                \<and> 3 \<le> length (c_original_ids e) \<and> c_count e = length (c_original_ids e)
                \<and> (\<forall>i\<in>set (c_original_ids e).
                      i \<in> mem_id ` set (memories view)
                      \<and> (\<forall>r\<in>set (memories view). mem_id r = i \<longrightarrow> is_summary r))"
    by (elim exE conjE) (rule that, assumption+)
  have ids: "mem_id ` set (memories d') = mem_id ` set (memories view)"
    unfolding ids_of_map soft_delete_dormant_ids[OF sw] ..
  have orig: "\<exists>x\<in>set (memories view). mem_id r = mem_id x \<and> summarizes r = summarizes x
                 \<and> is_summary r = is_summary x" if "r \<in> set (memories d')" for r
    using sw that by (rule soft_delete_dormant_set)
  from g e have s1: "c_summary_id e \<in> mem_id ` set (memories view)"
    and s2: "\<forall>r\<in>set (memories view). mem_id r = c_summary_id e \<longrightarrow> summarizes r = []"
    and s3: "3 \<le> length (c_original_ids e)"
    and s4: "\<forall>i\<in>set (c_original_ids e).
                      i \<in> mem_id ` set (memories view)
                      \<and> (\<forall>r\<in>set (memories view). mem_id r = i \<longrightarrow> is_summary r)"
    by blast+
  have 1: "\<exists>r\<in>set (memories d'). mem_id r = c_summary_id e"
    using s1 unfolding ids[symmetric] by auto
  have 2: "\<forall>r\<in>set (memories d'). mem_id r = c_summary_id e \<longrightarrow> summarizes r = []"
  proof (intro ballI impI)
    fix r assume "r \<in> set (memories d')" "mem_id r = c_summary_id e"
    with orig[of r] s2 show "summarizes r = []" by auto
  qed
  have 4: "\<forall>i\<in>set (c_original_ids e).
               (\<exists>r\<in>set (memories d'). mem_id r = i)
               \<and> (\<forall>r\<in>set (memories d'). mem_id r = i \<longrightarrow> is_summary r)"
  proof (intro ballI conjI impI)
    fix i assume "i \<in> set (c_original_ids e)"
    with s4 have "i \<in> mem_id ` set (memories view)" by blast
    then show "\<exists>r\<in>set (memories d'). mem_id r = i" unfolding ids[symmetric] by auto
  next
    fix i r assume i: "i \<in> set (c_original_ids e)" and r: "r \<in> set (memories d')" "mem_id r = i"
    from s4 i have "\<forall>x\<in>set (memories view). mem_id x = i \<longrightarrow> is_summary x" by blast
    with orig[OF r(1)] r(2) show "is_summary r" by auto
  qed
  from 1 2 s3 4 show "(\<exists>r\<in>set (memories d'). mem_id r = c_summary_id e)
         \<and> (\<forall>r\<in>set (memories d'). mem_id r = c_summary_id e \<longrightarrow> summarizes r = [])
         \<and> 3 \<le> length (c_original_ids e)
         \<and> (\<forall>i\<in>set (c_original_ids e).
               (\<exists>r\<in>set (memories d'). mem_id r = i)
               \<and> (\<forall>r\<in>set (memories d'). mem_id r = i \<longrightarrow> is_summary r))"
    by blast
qed

theorem consolidate_summaries_witness:
  "\<exists>d' rep. consolidate_memories example_ports 155520000 example_gen ''agent''
               consolidate_default_compression_threshold fading_db = Inr (d', rep)
     \<and> map c_summary_id (compressed rep) = [100, 101, 102]
     \<and> (\<exists>r\<in>set (memories d'). mem_id r = 100)
     \<and> (\<forall>r\<in>set (memories d'). mem_id r = 100 \<longrightarrow> summarizes r = [])
     \<and> (\<exists>r\<in>set (memories d'). mem_id r = 1)
     \<and> (\<forall>r\<in>set (memories d'). mem_id r = 1 \<longrightarrow> is_summary r)"
proof -
  obtain d' rep where run: "consolidate_memories example_ports 155520000 example_gen ''agent''
               consolidate_default_compression_threshold fading_db = Inr (d', rep)"
    and c: "compressed rep =
             [\<lparr>c_topic = ''zebra'', c_count = 5, c_summary_id = 100,
               c_original_ids = [1, 2, 3, 4, 5]\<rparr>,
              \<lparr>c_topic = ''apple'', c_count = 5, c_summary_id = 101,
               c_original_ids = [1, 2, 3, 4, 5]\<rparr>,
              \<lparr>c_topic = ''mango'', c_count = 5, c_summary_id = 102,
               c_original_ids = [1, 2, 3, 4, 5]\<rparr>]"
    using consolidate_fading_run by simp
  note t = consolidate_summaries[OF run]
  let ?e = "\<lparr>c_topic = ''zebra'', c_count = 5, c_summary_id = 100,
               c_original_ids = [1, 2, 3, 4, 5]\<rparr>"
  have "?e \<in> set (compressed rep)" unfolding c by simp
  with t have e: "(\<exists>r\<in>set (memories d'). mem_id r = c_summary_id ?e)
         \<and> (\<forall>r\<in>set (memories d'). mem_id r = c_summary_id ?e \<longrightarrow> summarizes r = [])
         \<and> 3 \<le> length (c_original_ids ?e)
         \<and> (\<forall>i\<in>set (c_original_ids ?e).
               (\<exists>r\<in>set (memories d'). mem_id r = i)
               \<and> (\<forall>r\<in>set (memories d'). mem_id r = i \<longrightarrow> is_summary r))"
    by (rule bspec)
  from e have 1: "\<exists>r\<in>set (memories d'). mem_id r = 100"
    and 2: "\<forall>r\<in>set (memories d'). mem_id r = 100 \<longrightarrow> summarizes r = []"
    by simp_all
  from e have "\<forall>i\<in>set [1, 2, 3, 4, 5 :: nat].
               (\<exists>r\<in>set (memories d'). mem_id r = i)
               \<and> (\<forall>r\<in>set (memories d'). mem_id r = i \<longrightarrow> is_summary r)"
    by simp
  then have "(\<exists>r\<in>set (memories d'). mem_id r = 1)
               \<and> (\<forall>r\<in>set (memories d'). mem_id r = 1 \<longrightarrow> is_summary r)"
    by (rule bspec) simp
  then have 3: "\<exists>r\<in>set (memories d'). mem_id r = 1"
    and 4: "\<forall>r\<in>set (memories d'). mem_id r = 1 \<longrightarrow> is_summary r"
    by blast+
  have 0: "map c_summary_id (compressed rep) = [100, 101, 102]" unfolding c by simp
  show ?thesis
    by (rule exI[of _ d'], rule exI[of _ rep], intro conjI, rule run, rule 0, rule 1, rule 2,
        rule 3, rule 4)
qed

text \<open>
  The claim as stated wants a non-empty \<open>summarizes\<close> set on every summary the compression
  step creates. In the run below the three summaries 100, 101, 102 are stored with an
  empty \<open>summarizes\<close> (and with \<open>is_summary = false\<close>).
\<close>

theorem consolidate_summarizes_counterexample:
  "map_sum fst (map c_summary_id \<circ> compressed \<circ> snd)
     (consolidate_memories example_ports 155520000 example_gen ''agent''
        consolidate_default_compression_threshold fading_db)
   = Inr [100, 101, 102]
   \<and> map_sum fst (map mem_id \<circ> drop 5 \<circ> memories \<circ> fst)
     (consolidate_memories example_ports 155520000 example_gen ''agent''
        consolidate_default_compression_threshold fading_db)
   = Inr [100, 101, 102]
   \<and> map_sum fst (map summarizes \<circ> drop 5 \<circ> memories \<circ> fst)
     (consolidate_memories example_ports 155520000 example_gen ''agent''
        consolidate_default_compression_threshold fading_db)
   = Inr [[], [], []]
   \<and> map_sum fst (map is_summary \<circ> drop 5 \<circ> memories \<circ> fst)
     (consolidate_memories example_ports 155520000 example_gen ''agent''
        consolidate_default_compression_threshold fading_db)
   = Inr [False, False, False]"
  unfolding consolidate_fading_run by (simp add: inserted_row_def)

text \<open>
  Claim C8. A consolidation that returns normally has run the dormant sweep on the table
  \<open>before\<close>: the memories it started with, those of the compressed groups marked as
  summarised, followed by the summaries it stored. The sweep keeps every row in its place
  and changes only \<open>is_deleted\<close>, which it sets on exactly the rows of the agent that were
  not deleted, are not summaries, were last accessed more than 30 days before now and have
  a retention below 0.05. A row with \<open>is_summary = true\<close> is left as it is, whatever its
  retention, and every identifier the consolidation started with is still stored, in its
  place: nothing is hard-deleted.
\<close>

theorem consolidate_dormant_sweep:
  fixes d :: "'v db"
  assumes "consolidate_memories P now gen agent compression_threshold d = Inr (d', rep)"
  shows "\<exists>before news.
           before = mark_summarized (concat (map c_original_ids (compressed rep))) (memories d)
                      @ news
         \<and> map mem_id news = map c_summary_id (compressed rep)
         \<and> (\<forall>r\<in>set news. \<not> is_deleted r \<and> \<not> is_summary r)
         \<and> soft_delete_dormant now agent before = Inr (memories d')
         \<and> length (memories d') = length before
         \<and> (\<forall>k<length before.
               memories d' ! k =
                 (before ! k)\<lparr>is_deleted :=
                    is_deleted (before ! k)
                    \<or> (agent_id (before ! k) = agent \<and> \<not> is_summary (before ! k)
                        \<and> last_accessed (before ! k) < now - 30 * 86400
                        \<and> (\<exists>\<rho>. calculate_retention now (stability (before ! k))
                                   (importance (before ! k)) (last_accessed (before ! k)) = Inr \<rho>
                                 \<and> \<rho> < 0.05))\<rparr>)
         \<and> (\<forall>k<length before. is_summary (before ! k) \<longrightarrow> memories d' ! k = before ! k)
         \<and> map mem_id (memories d') = map mem_id (memories d) @ map c_summary_id (compressed rep)"
proof -
  from consolidate_memories_loop[OF assms] obtain view :: "'v db" and news where
    sw: "soft_delete_dormant now agent (memories view) = Inr (memories d')"
    and v: "memories view
             = mark_summarized (concat (map c_original_ids (compressed rep))) (memories d) @ news"
    and n: "map mem_id news = map c_summary_id (compressed rep)"
    and f: "\<forall>r\<in>set news. \<not> is_deleted r \<and> \<not> is_summary r"
    by (elim exE conjE) (rule that, assumption+)
  define before where "before = memories view"
  note r = soft_delete_dormant_rows[OF sw[folded before_def]]
  have i: "map mem_id (memories d') = map mem_id (memories d) @ map c_summary_id (compressed rep)"
    unfolding soft_delete_dormant_ids[OF sw] v using n by (simp add: mark_summarized_ids)
  show ?thesis
    apply (rule exI[of _ before], rule exI[of _ news])
    apply (intro conjI)
           apply (rule v[folded before_def])
          apply (rule n)
         apply (rule f)
        apply (rule sw[folded before_def])
       apply (rule r(1))
      apply (rule r(2))
     apply (rule r(3))
    apply (rule i)
    done
qed

theorem consolidate_dormant_sweep_witness:
  "\<exists>d' rep. consolidate_memories example_ports 3888000 example_gen ''agent''
               consolidate_default_compression_threshold dormant_db = Inr (d', rep)
     \<and> compressed rep = []
     \<and> soft_delete_dormant 3888000 ''agent'' (memories dormant_db) = Inr (memories d')
     \<and> length (memories d') = 3
     \<and> memories d' ! 0 = (memories dormant_db ! 0)\<lparr>is_deleted := True\<rparr>
     \<and> memories d' ! 1 = memories dormant_db ! 1
     \<and> memories d' ! 2 = memories dormant_db ! 2
     \<and> map mem_id (memories d') = [1, 2, 3]"
proof -
  obtain d' rep where run: "consolidate_memories example_ports 3888000 example_gen ''agent''
               consolidate_default_compression_threshold dormant_db = Inr (d', rep)"
    and c: "compressed rep = []"
    using consolidate_dormant_run by simp
  define A :: "real list memory" where
    "A = inserted_row 0 1 ''agent'' ''old'' [3] ''episodic'' 0.1 [] None None None None"
  define S :: "real list memory" where
    "S = (inserted_row 0 2 ''agent'' ''old'' [3] ''episodic'' 0.1 [] None None None None)
           \<lparr>is_summary := True\<rparr>"
  define N :: "real list memory" where
    "N = inserted_row 3888000 3 ''agent'' ''new'' [3] ''episodic'' 0.1 [] None None None None"
  have db: "memories dormant_db = [A, S, N]"
    by (simp add: dormant_db_def A_def S_def N_def)
  from consolidate_dormant_sweep[OF run] obtain before news where
    b: "before = mark_summarized (concat (map c_original_ids (compressed rep)))
                   (memories dormant_db) @ news"
    and n: "map mem_id news = map c_summary_id (compressed rep)"
    and sw: "soft_delete_dormant 3888000 ''agent'' before = Inr (memories d')"
    and l: "length (memories d') = length before"
    and rows: "\<forall>k<length before.
               memories d' ! k =
                 (before ! k)\<lparr>is_deleted :=
                    is_deleted (before ! k)
                    \<or> (agent_id (before ! k) = ''agent'' \<and> \<not> is_summary (before ! k)
                        \<and> last_accessed (before ! k) < 3888000 - 30 * 86400
                        \<and> (\<exists>\<rho>. calculate_retention 3888000 (stability (before ! k))
                                   (importance (before ! k)) (last_accessed (before ! k)) = Inr \<rho>
                                 \<and> \<rho> < 0.05))\<rparr>"
    and sums: "\<forall>k<length before. is_summary (before ! k) \<longrightarrow> memories d' ! k = before ! k"
    and ids: "map mem_id (memories d')
                = map mem_id (memories dormant_db) @ map c_summary_id (compressed rep)"
    by (elim exE conjE) (rule that, assumption+)
  from n c have "news = []" by simp
  with b c have before: "before = [A, S, N]" by (simp add: mark_summarized_Nil db)
  have ra: "calculate_retention 3888000 (stability A) (importance A) (last_accessed A)
              = Inr (exp (- (25 / 6)))"
    using retention_of_example_dormant[of 1 "''agent''" "''old''" "[3]" "''episodic''" "[]"
            None None None None]
    unfolding retention_of_def A_def .
  have lt: "exp (- (25 / 6) :: real) < 0.05" using exp_m256 by simp
  have fa: "agent_id A = ''agent''" "\<not> is_summary A" "\<not> is_deleted A"
    "last_accessed A < 3888000 - 30 * 86400"
    by (simp_all add: A_def inserted_row_def)
  have fn: "\<not> is_deleted N" "\<not> last_accessed N < 3888000 - 30 * 86400"
    by (simp_all add: N_def inserted_row_def)
  have fs: "is_summary S" by (simp add: S_def)
  from rows have "memories d' ! 0 =
                 (before ! 0)\<lparr>is_deleted :=
                    is_deleted (before ! 0)
                    \<or> (agent_id (before ! 0) = ''agent'' \<and> \<not> is_summary (before ! 0)
                        \<and> last_accessed (before ! 0) < 3888000 - 30 * 86400
                        \<and> (\<exists>\<rho>. calculate_retention 3888000 (stability (before ! 0))
                                   (importance (before ! 0)) (last_accessed (before ! 0)) = Inr \<rho>
                                 \<and> \<rho> < 0.05))\<rparr>"
    by (rule allE[of _ 0]) (simp add: before)
  then have 0: "memories d' ! 0 = A\<lparr>is_deleted := True\<rparr>"
    unfolding before nth_Cons_0 ra using fa lt by simp
  from sums have "is_summary (before ! 1) \<longrightarrow> memories d' ! 1 = before ! 1"
    by (rule allE[of _ 1]) (simp add: before)
  then have 1: "memories d' ! 1 = S" using fs by (simp add: before)
  from rows have "memories d' ! 2 =
                 (before ! 2)\<lparr>is_deleted :=
                    is_deleted (before ! 2)
                    \<or> (agent_id (before ! 2) = ''agent'' \<and> \<not> is_summary (before ! 2)
                        \<and> last_accessed (before ! 2) < 3888000 - 30 * 86400
                        \<and> (\<exists>\<rho>. calculate_retention 3888000 (stability (before ! 2))
                                   (importance (before ! 2)) (last_accessed (before ! 2)) = Inr \<rho>
                                 \<and> \<rho> < 0.05))\<rparr>"
    by (rule allE[of _ 2]) (simp add: before)
  then have "memories d' ! 2 = N\<lparr>is_deleted := False\<rparr>"
    unfolding before using fn by simp
  then have 2: "memories d' ! 2 = N" using fn by simp
  have 3: "length (memories d') = 3" using l by (simp add: before)
  have 4: "map mem_id (memories d') = [1, 2, 3]"
    using ids c by (simp add: db A_def S_def N_def inserted_row_def)
  have 5: "soft_delete_dormant 3888000 ''agent'' (memories dormant_db) = Inr (memories d')"
    using sw unfolding before db .
  have 6: "memories d' ! 0 = (memories dormant_db ! 0)\<lparr>is_deleted := True\<rparr>"
    using 0 by (simp add: db)
  have 7: "memories d' ! 1 = memories dormant_db ! 1"
    using 1 by (simp add: db)
  have 8: "memories d' ! 2 = memories dormant_db ! 2"
    using 2 by (simp add: db)
  show ?thesis
    apply (rule exI[of _ d'], rule exI[of _ rep])
    apply (intro conjI)
           apply (rule run)
          apply (rule c)
         apply (rule 5)
        apply (rule 3)
       apply (rule 6)
      apply (rule 7)
     apply (rule 8)
    apply (rule 4)
    done
qed

text \<open>
  Claim C9, as amended. When the fading set reaches the compression threshold, the groups
  of at least three members are processed in the order in which their topics first occur
  when the fading memories are read in the order of the query's result and the topics of
  each memory in the order of its array (the insertion order of the dictionary), not in
  lexicographic order.
\<close>

theorem consolidate_group_order:
  fixes d :: "'v db"
  assumes "consolidate_memories P now gen agent compression_threshold d = Inr (d', rep)"
    and "fading_query now agent (memories d) = Inr fading"
    and "compression_threshold \<le> int (length fading)"
  shows "map c_topic (compressed rep)
         = filter (\<lambda>t. 3 \<le> count_list (concat (map f_topics fading)) t)
             (rev (remdups (rev (concat (map f_topics fading)))))"
proof -
  from consolidate_memories_loop[OF assms(1)] obtain fading' where
    f: "fading_query now agent (memories d) = Inr fading'"
    and o: "compression_threshold \<le> int (length fading')
              \<longrightarrow> map c_topic (compressed rep)
                    = map fst (filter (\<lambda>tg. 3 \<le> length (snd tg)) (topic_groups_of fading'))"
    by (elim exE conjE) (rule that, assumption+)
  from f assms(2) have "fading' = fading" by simp
  with o assms(3) have "map c_topic (compressed rep)
          = map fst (filter (\<lambda>tg. 3 \<le> length (snd tg)) (topic_groups_of fading))"
    by simp
  then show ?thesis unfolding topic_groups_order .
qed

theorem consolidate_group_order_witness:
  "\<exists>d' rep fading.
       consolidate_memories example_ports 155520000 example_gen ''agent''
         consolidate_default_compression_threshold fading_db = Inr (d', rep)
     \<and> fading_query 155520000 ''agent'' (memories fading_db) = Inr fading
     \<and> consolidate_default_compression_threshold \<le> int (length fading)
     \<and> map c_topic (compressed rep) = [''zebra'', ''apple'', ''mango'']
     \<and> map c_topic (compressed rep)
         = filter (\<lambda>t. 3 \<le> count_list (concat (map f_topics fading)) t)
             (rev (remdups (rev (concat (map f_topics fading)))))"
proof -
  note run = consolidate_fading_run
  note fq = fading_query_fading_db
  have h: "consolidate_default_compression_threshold
             \<le> int (length (map (\<lambda>i. \<lparr>f_id = i, f_content = ''trip'',
                  f_memory_type = ''episodic'',
                  f_topics = [''zebra'', ''apple'', ''mango''], f_retention = exp (- 100),
                  f_created_at = (0 :: real)\<rparr>) [1, 2, 3, 4, 5 :: nat]))"
    by (simp add: consolidate_default_compression_threshold_def)
  note t = consolidate_group_order[OF run fq h]
  show ?thesis
    apply (intro exI conjI)
        apply (rule run)
       apply (rule fq)
      apply (rule h)
     apply simp
    apply (rule t)
    done
qed

text \<open>
  The claim as stated wants the lexicographic order of the topics. The run below processes
  \<^verbatim>\<open>zebra\<close>, then \<^verbatim>\<open>apple\<close>, then \<^verbatim>\<open>mango\<close>, although \<^verbatim>\<open>apple\<close> precedes both others
  in the lexicographic order of the character codes.
\<close>

theorem consolidate_group_order_counterexample:
  "map_sum fst (map c_topic \<circ> compressed \<circ> snd)
     (consolidate_memories example_ports 155520000 example_gen ''agent''
        consolidate_default_compression_threshold fading_db)
   = Inr [''zebra'', ''apple'', ''mango'']
   \<and> (''apple'', ''zebra'') \<in> lexord {(a, b). (of_char a :: nat) < of_char b}
   \<and> (''apple'', ''mango'') \<in> lexord {(a, b). (of_char a :: nat) < of_char b}"
  unfolding consolidate_fading_run by simp

end
